theory Spec2Isabelle
  imports Complex_Main
begin

section \<open>Arrays\<close>

text \<open>
  The sources compute on numpy arrays of floating-point numbers. For the solver and the
  action model the embedding takes the entries as real numbers: arithmetic is exact
  there, rounding and the special values of IEEE arithmetic are not represented. The
  flat state, and the acceptance test of the forward pass, are modelled on binary64
  values (see below), since what is claimed of them turns on rounding and on the special
  values. A one-dimensional array is a list of its entries; a
  two-dimensional array (an \<^verbatim>\<open>np.matrix\<close>) is the list of its rows. The column count
  of a matrix without rows is not recorded by this representation, so the algebraic lemmas
  below ask for positive dimensions where a transpose or a product has to know it.
  Operands whose shapes do not conform make numpy raise (or broadcast); the solver's
  buffers are allocated with conforming shapes, and the matrix operations below are only
  meant for such operands.
\<close>

datatype error = LinAlgError | ValueError | IndexError | AssertionError | AttributeError

type_synonym vec = "real list"
type_synonym mat = "real list list"

text \<open>\<open>wf_mat r c A\<close>: the array \<open>A\<close> has shape \<open>(r, c)\<close>.\<close>

definition wf_mat :: "nat \<Rightarrow> nat \<Rightarrow> mat \<Rightarrow> bool" where
  "wf_mat r c A \<longleftrightarrow> length A = r \<and> list_all (\<lambda>row. length row = c) A"

fun ncols :: "mat \<Rightarrow> nat" where
  "ncols [] = 0"
| "ncols (row # _) = length row"

definition col :: "mat \<Rightarrow> nat \<Rightarrow> vec" where
  "col A j = map (\<lambda>row. row ! j) A"

definition mat_T :: "mat \<Rightarrow> mat" where
  "mat_T A = map (col A) [0..<ncols A]"

text \<open>\<^verbatim>\<open>A.T\<close>, \<^verbatim>\<open>A * B\<close> (matrix product), \<^verbatim>\<open>A + B\<close>, \<^verbatim>\<open>A - B\<close>,
  \<^verbatim>\<open>c * A\<close>, \<^verbatim>\<open>-A\<close> and \<^verbatim>\<open>np.eye(n)\<close> on conforming operands.\<close>

definition dot :: "vec \<Rightarrow> vec \<Rightarrow> real" where
  "dot a b = sum_list (map2 (*) a b)"

definition mat_mul :: "mat \<Rightarrow> mat \<Rightarrow> mat" where
  "mat_mul A B = map (\<lambda>row. map (\<lambda>j. dot row (col B j)) [0..<ncols B]) A"

definition mat_add :: "mat \<Rightarrow> mat \<Rightarrow> mat" where
  "mat_add A B = map2 (map2 (+)) A B"

definition mat_sub :: "mat \<Rightarrow> mat \<Rightarrow> mat" where
  "mat_sub A B = map2 (map2 (-)) A B"

definition smul :: "real \<Rightarrow> mat \<Rightarrow> mat" where
  "smul c A = map (map ((*) c)) A"

definition mat_neg :: "mat \<Rightarrow> mat" where
  "mat_neg A = map (map uminus) A"

definition eye :: "nat \<Rightarrow> mat" where
  "eye n = map (\<lambda>i. map (\<lambda>j. if i = j then 1 else 0) [0..<n]) [0..<n]"

text \<open>A matrix with a single entry read as that entry (\<^verbatim>\<open>np.asscalar\<close>, and numpy's
  use of a one-by-one matrix where a number is expected).\<close>

definition as_scalar :: "mat \<Rightarrow> real" where
  "as_scalar A = (case A of [[a]] \<Rightarrow> a | _ \<Rightarrow> 0)"

definition zeros :: "nat \<Rightarrow> nat \<Rightarrow> mat" where
  "zeros r c = replicate r (replicate c 0)"

text \<open>
  \<^verbatim>\<open>np.copyto(dst, src)\<close> on two-dimensional arrays: the source is broadcast to the shape
  of the destination (an axis of length one is repeated along the destination's axis),
  and the destination holds the broadcast source afterwards; a source whose shape cannot
  be broadcast to the destination's raises \<^verbatim>\<open>ValueError\<close> and leaves the destination as
  it was. The result is the content of the destination after the call.
\<close>

definition np_copyto :: "mat \<Rightarrow> mat \<Rightarrow> error + mat" where
  "np_copyto dst src =
     (let R = length dst; C = ncols dst; r = length src; c = ncols src
      in if wf_mat r c src \<and> (r = R \<or> r = 1) \<and> (c = C \<or> c = 1)
         then Inr (map (\<lambda>i. map (\<lambda>j. src ! (if r = 1 then 0 else i) ! (if c = 1 then 0 else j))
                                  [0..<C]) [0..<R])
         else Inl ValueError)"

text \<open>Python indexing of a list: a negative index counts from the end.\<close>

definition py_index :: "'a list \<Rightarrow> int \<Rightarrow> 'a" where
  "py_index xs i = (if i < 0 then xs ! nat (int (length xs) + i) else xs ! nat i)"

text \<open>
  \<^verbatim>\<open>np.linalg.cholesky\<close> and \<^verbatim>\<open>np.linalg.inv\<close> belong to numpy, not to the repository.
  The solver receives them as parameters; \<open>None\<close> stands for numpy's \<^verbatim>\<open>LinAlgError\<close>
  (the matrix is not positive definite, or is singular). Their documented contracts: a
  factor \<open>L\<close> returned for \<open>A\<close> satisfies \<open>L L\<^sup>T = A\<close>, and a returned inverse is a
  two-sided inverse.
\<close>

record linalg =
  np_cholesky :: "mat \<Rightarrow> mat option"
  np_inv :: "mat \<Rightarrow> mat option"

definition cholesky_contract :: "linalg \<Rightarrow> bool" where
  "cholesky_contract la \<longleftrightarrow>
     (\<forall>A L. np_cholesky la A = Some L \<longrightarrow>
        wf_mat (length A) (length A) L \<and> mat_mul L (mat_T L) = A)"

definition inv_contract :: "linalg \<Rightarrow> bool" where
  "inv_contract la \<longleftrightarrow>
     (\<forall>A B. wf_mat (length A) (length A) A \<longrightarrow> np_inv la A = Some B \<longrightarrow>
        wf_mat (length A) (length A) B \<and>
        mat_mul B A = eye (length A) \<and> mat_mul A B = eye (length A))"

text \<open>The two routines on one-by-one matrices, for running the solver on problems with
  a single control.\<close>

definition cholesky_1x1 :: "mat \<Rightarrow> mat option" where
  "cholesky_1x1 A = (case A of [[a]] \<Rightarrow> if 0 < a then Some [[sqrt a]] else None | _ \<Rightarrow> None)"

definition inv_1x1 :: "mat \<Rightarrow> mat option" where
  "inv_1x1 A = (case A of [[a]] \<Rightarrow> if a \<noteq> 0 then Some [[1 / a]] else None | _ \<Rightarrow> None)"

definition linalg_1x1 :: linalg where
  "linalg_1x1 = \<lparr>np_cholesky = cholesky_1x1, np_inv = inv_1x1\<rparr>"

section \<open>IEEE 754 binary64 values\<close>

text \<open>
  A binary64 value is a finite value, given by the real number it stands for, one of the
  two infinities, or "not a number". The two zeros are one value here (they compare
  equal), and a zero divisor is taken as the positive zero.

  \<open>round64\<close> is the rounding of every arithmetic operation: to the nearest value with a
  significand of 53 bits, ties to the even significand, with \<open>2 powi (-1074)\<close> as the
  least quantum (gradual underflow), and to an infinity once the rounded magnitude
  reaches \<open>2 ^ 1024\<close>. For \<open>r \<noteq> 0\<close> the binade of \<open>r\<close> is \<open>\<lfloor>log 2 \<bar>r\<bar>\<rfloor>\<close>; the quantum of
  a binade is the spacing of the binary64 values in it.
\<close>

datatype f64 = Fin real | PInf | NInf | NaN

definition round_even :: "real \<Rightarrow> int" where
  "round_even y =
     (let f = \<lfloor>y\<rfloor>; d = y - of_int f
      in if d < 1 / 2 then f else if 1 / 2 < d then f + 1 else if even f then f else f + 1)"

definition quantum :: "real \<Rightarrow> int" where
  "quantum r = max (\<lfloor>log 2 \<bar>r\<bar>\<rfloor> - 52) (- 1074)"

definition round64 :: "real \<Rightarrow> f64" where
  "round64 r =
     (if r = 0 then Fin 0
      else let v = of_int (round_even (r / 2 powi quantum r)) * 2 powi quantum r
           in if 2 ^ 1024 \<le> v then PInf else if v \<le> - (2 ^ 1024) then NInf else Fin v)"

fun f64_neg :: "f64 \<Rightarrow> f64" where
  "f64_neg (Fin a) = Fin (- a)"
| "f64_neg PInf = NInf"
| "f64_neg NInf = PInf"
| "f64_neg NaN = NaN"

fun f64_add :: "f64 \<Rightarrow> f64 \<Rightarrow> f64" where
  "f64_add (Fin a) (Fin b) = round64 (a + b)"
| "f64_add NaN _ = NaN"
| "f64_add _ NaN = NaN"
| "f64_add PInf NInf = NaN"
| "f64_add NInf PInf = NaN"
| "f64_add PInf _ = PInf"
| "f64_add _ PInf = PInf"
| "f64_add NInf _ = NInf"
| "f64_add _ NInf = NInf"

definition f64_sub :: "f64 \<Rightarrow> f64 \<Rightarrow> f64" where
  "f64_sub a b = f64_add a (f64_neg b)"

fun f64_div :: "f64 \<Rightarrow> f64 \<Rightarrow> f64" where
  "f64_div (Fin a) (Fin b) =
     (if b = 0 then (if a = 0 then NaN else if 0 < a then PInf else NInf) else round64 (a / b))"
| "f64_div NaN _ = NaN"
| "f64_div _ NaN = NaN"
| "f64_div (Fin a) _ = Fin 0"
| "f64_div PInf (Fin b) = (if 0 \<le> b then PInf else NInf)"
| "f64_div NInf (Fin b) = (if 0 \<le> b then NInf else PInf)"
| "f64_div _ _ = NaN"

text \<open>The comparison \<^verbatim>\<open><\<close>: false as soon as one side is not a number.\<close>

fun f64_lt :: "f64 \<Rightarrow> f64 \<Rightarrow> bool" where
  "f64_lt (Fin a) (Fin b) = (a < b)"
| "f64_lt NaN _ = False"
| "f64_lt _ NaN = False"
| "f64_lt _ NInf = False"
| "f64_lt PInf _ = False"
| "f64_lt NInf _ = True"
| "f64_lt _ PInf = True"

fun f64_finite :: "f64 \<Rightarrow> bool" where
  "f64_finite (Fin a) = True"
| "f64_finite _ = False"

text \<open>A finite value that a binary64 variable can hold: rounding leaves it as it is.\<close>

fun finite_double :: "f64 \<Rightarrow> bool" where
  "finite_double (Fin a) = (round64 a = Fin a)"
| "finite_double _ = False"

text \<open>The sum, or the difference, of two finite values is computed without rounding:
  the exact result is itself a binary64 value.\<close>

fun exact_add :: "f64 \<Rightarrow> f64 \<Rightarrow> bool" where
  "exact_add (Fin a) (Fin b) = (round64 (a + b) = Fin (a + b))"
| "exact_add _ _ = False"

fun exact_sub :: "f64 \<Rightarrow> f64 \<Rightarrow> bool" where
  "exact_sub (Fin a) (Fin b) = (round64 (a - b) = Fin (a - b))"
| "exact_sub _ _ = False"

type_synonym vec64 = "f64 list"
type_synonym mat64 = "f64 list list"

section \<open>StateVector (crocoddyl/state.py)\<close>

text \<open>
  \<^verbatim>\<open>x2 - x1\<close> and \<^verbatim>\<open>x1 + dx\<close> on one-dimensional arrays of binary64 values: entrywise
  on equal lengths, every entry rounded; an array of length one is broadcast along the
  other; any other pair of lengths raises \<^verbatim>\<open>ValueError\<close>.
\<close>

definition np_binop :: "('a \<Rightarrow> 'a \<Rightarrow> 'a) \<Rightarrow> 'a list \<Rightarrow> 'a list \<Rightarrow> error + 'a list" where
  "np_binop f a b =
     (if length a = length b then Inr (map2 f a b)
      else if length a = 1 then Inr (map (f (hd a)) b)
      else if length b = 1 then Inr (map (\<lambda>v. f v (hd b)) a)
      else Inl ValueError)"

record StateVector =
  sv_nx :: nat
  sv_ndx :: nat

definition StateVector_init :: "nat \<Rightarrow> StateVector" where
  "StateVector_init n = \<lparr>sv_nx = n, sv_ndx = n\<rparr>"

definition StateVector_zero :: "StateVector \<Rightarrow> vec64" where
  "StateVector_zero S = replicate (sv_nx S) (Fin 0)"

definition StateVector_diff :: "StateVector \<Rightarrow> vec64 \<Rightarrow> vec64 \<Rightarrow> error + vec64" where
  "StateVector_diff S x1 x2 = np_binop f64_sub x2 x1"

definition StateVector_integrate :: "StateVector \<Rightarrow> vec64 \<Rightarrow> vec64 \<Rightarrow> error + vec64" where
  "StateVector_integrate S x1 dx = np_binop f64_add x1 dx"

section \<open>ConstrainedDDP (cddp/ddp_formulation.py)\<close>

text \<open>
  The solver is built from a dynamics, a cost manager and an integrator. Their classes are
  not part of the listed sources; the solver only calls them, so they are parameters of
  the model. Each call is taken as a function of the state and control it is given (the
  data block passed alongside is scratch storage of the callee). State and control
  vectors are column matrices, as the solver multiplies them with \<^verbatim>\<open>*\<close>.
\<close>

record collaborators =
  dyn_n :: nat
  dyn_m :: nat
  computeAllTerms :: "mat \<Rightarrow> mat \<Rightarrow> mat \<times> mat \<times> mat"
  computeRunningTerms :: "mat \<Rightarrow> mat \<Rightarrow> real \<times> mat \<times> mat \<times> mat \<times> mat \<times> mat"
  computeTerminalTerms :: "mat \<Rightarrow> real \<times> mat \<times> mat"
  computeRunningCost :: "mat \<Rightarrow> mat \<Rightarrow> real"
  computeTerminalCost :: "mat \<Rightarrow> real"
  integrator_integrate :: "mat \<Rightarrow> mat \<Rightarrow> real \<Rightarrow> mat"

text \<open>
  One record per interval (\<^verbatim>\<open>RunningDDPData\<close>, \<^verbatim>\<open>TerminalDDPData\<close>): the fields the
  solver reads and writes. The terminal interval uses \<open>it_x\<close>, \<open>it_x_new\<close>, \<open>it_V\<close>,
  \<open>it_Vx\<close> and \<open>it_Vxx\<close> only.
\<close>

record interval =
  it_t0 :: real
  it_tf :: real
  it_x :: mat
  it_u :: mat
  it_x_new :: mat
  it_u_new :: mat
  it_V :: real
  it_Vx :: mat
  it_Vxx :: mat
  it_Qx :: mat
  it_Qu :: mat
  it_Qxx :: mat
  it_Quu :: mat
  it_Qux :: mat
  it_Quu_r :: mat
  it_Qux_r :: mat
  it_K :: mat
  it_j :: mat

text \<open>
  The solver object. \<^verbatim>\<open>self.V\<close>, \<^verbatim>\<open>self.V_new\<close> and \<^verbatim>\<open>self.dV_exp\<close> are one-by-one
  matrices in the source and are kept as their entry. The initial interval is
  \<open>intervals ! 0\<close> and the terminal interval is \<open>intervals ! ddp_N\<close>.
  \<^verbatim>\<open>self.total_cost\<close> is set by the constructor and never read; it is left out.
\<close>

record ddp =
  ddp_N :: nat
  intervals :: "interval list"
  ddp_V :: real
  ddp_V_new :: real
  ddp_dV_exp :: real
  ddp_mu :: real
  change_lb :: real
  change_ub :: real

text \<open>Modelled from the spec: the module \<^verbatim>\<open>data\<close> with the classes \<^verbatim>\<open>RunningDDPData\<close>
  and \<^verbatim>\<open>TerminalDDPData\<close> is missing from the sources. Following the spec's
  per-knot record, a fresh interval holds zero arrays of the shapes given there
  (\<open>n\<close> the state dimension, \<open>m\<close> the control dimension).\<close>

definition new_interval :: "nat \<Rightarrow> nat \<Rightarrow> interval" where
  "new_interval n m =
     \<lparr>it_t0 = 0, it_tf = 0,
      it_x = zeros n 1, it_u = zeros m 1, it_x_new = zeros n 1, it_u_new = zeros m 1,
      it_V = 0, it_Vx = zeros n 1, it_Vxx = zeros n n,
      it_Qx = zeros n 1, it_Qu = zeros m 1, it_Qxx = zeros n n, it_Quu = zeros m m,
      it_Qux = zeros m n, it_Quu_r = zeros m m, it_Qux_r = zeros m n,
      it_K = zeros m n, it_j = zeros m 1\<rparr>"

text \<open>\<^verbatim>\<open>__init__\<close>: \<open>N = len(timeline) - 1\<close>, one record per knot, the time values of the
  running intervals, and the constants. On an empty timeline \<^verbatim>\<open>self.intervals[-1]\<close>
  raises.\<close>

definition ConstrainedDDP_init :: "collaborators \<Rightarrow> real list \<Rightarrow> error + ddp" where
  "ConstrainedDDP_init P timeline =
     (if timeline = [] then Inl IndexError
      else
        let N = length timeline - 1;
            its = map (\<lambda>k. if k < N
                             then (new_interval (dyn_n P) (dyn_m P))
                                    \<lparr>it_t0 := timeline ! k, it_tf := timeline ! (k + 1)\<rparr>
                             else new_interval (dyn_n P) (dyn_m P)) [0..<N + 1]
        in Inr \<lparr>ddp_N = N, intervals = its, ddp_V = 0, ddp_V_new = 0, ddp_dV_exp = 0,
                ddp_mu = 1 / 10 ^ 8, change_lb = 0, change_ub = 100\<rparr>)"

text \<open>
  \<^verbatim>\<open>setInitalState\<close> and \<^verbatim>\<open>setInitialControl\<close> copy their arguments into the buffers of
  the knots with \<^verbatim>\<open>np.copyto\<close>. An argument of another shape is broadcast or raises
  \<^verbatim>\<open>ValueError\<close>; when one of the controls raises, the controls of the knots before it
  are already stored, so the error comes with the state at that point. The model is of
  a call while every record owns its arrays, as in the sequence constructor, setters,
  \<^verbatim>\<open>init\<close>: once \<^verbatim>\<open>init\<close> has rebound the terminal \<^verbatim>\<open>x\<close> (see below), a write to the
  array it names is also seen through the terminal record, which the model, storing
  values, does not follow.
\<close>

definition setInitalState :: "ddp \<Rightarrow> mat \<Rightarrow> error + ddp" where
  "setInitalState s x0 =
     (case np_copyto (it_x (intervals s ! 0)) x0 of
        Inl e \<Rightarrow> Inl e
      | Inr x \<Rightarrow> Inr (s\<lparr>intervals := (intervals s)[0 := (intervals s ! 0)\<lparr>it_x := x\<rparr>]\<rparr>))"

definition set_control_knot :: "mat list \<Rightarrow> nat \<Rightarrow> ddp \<Rightarrow> (error \<times> ddp) + ddp" where
  "set_control_knot U k s =
     (let it = intervals s ! k
      in case np_copyto (it_u it) (U ! k) of
           Inl e \<Rightarrow> Inl (e, s)
         | Inr u \<Rightarrow>
            (let it = it\<lparr>it_u := u\<rparr>;
                 s = s\<lparr>intervals := (intervals s)[k := it]\<rparr>
             in case np_copyto (it_u_new it) (U ! k) of
                  Inl e \<Rightarrow> Inl (e, s)
                | Inr u' \<Rightarrow> Inr (s\<lparr>intervals := (intervals s)[k := it\<lparr>it_u_new := u'\<rparr>]\<rparr>)))"

fun set_control_loop :: "mat list \<Rightarrow> nat list \<Rightarrow> ddp \<Rightarrow> (error \<times> ddp) + ddp" where
  "set_control_loop U [] s = Inr s"
| "set_control_loop U (k # ks) s =
     (case set_control_knot U k s of
        Inl e \<Rightarrow> Inl e
      | Inr s \<Rightarrow> set_control_loop U ks s)"

definition setInitialControl :: "ddp \<Rightarrow> mat list \<Rightarrow> (error \<times> ddp) + ddp" where
  "setInitialControl s U =
     (if length U \<noteq> ddp_N s then Inl (AssertionError, s)
      else set_control_loop U [0..<ddp_N s] s)"

text \<open>
  \<^verbatim>\<open>init\<close>. The terminal interval's \<^verbatim>\<open>x\<close> is rebound, not copied: after the loop it
  names the array \<^verbatim>\<open>self.intervals[self.N-1].x\<close>. The model stores the value of that
  array; the methods below read the terminal \<^verbatim>\<open>x\<close> only while that array holds this
  value, or rebind it before reading.
\<close>

definition init_knot :: "collaborators \<Rightarrow> nat \<Rightarrow> ddp \<Rightarrow> ddp" where
  "init_knot P k s =
     (let it = intervals s ! k;
          it_next = intervals s ! (k + 1);
          dt = it_tf it - it_t0 it;
          x_next = integrator_integrate P (it_x it) (it_u it) dt;
          it_next = it_next\<lparr>it_x := x_next, it_x_new := x_next\<rparr>
      in s\<lparr>intervals := (intervals s)[k + 1 := it_next],
           ddp_V := ddp_V s + computeRunningCost P (it_x it) (it_u it) * dt\<rparr>)"

definition init :: "collaborators \<Rightarrow> ddp \<Rightarrow> ddp" where
  "init P s =
     (let it = intervals s ! 0;
          s = s\<lparr>intervals := (intervals s)[0 := it\<lparr>it_x_new := it_x it\<rparr>], ddp_V := 0\<rparr>;
          s = fold (init_knot P) [0..<ddp_N s] s;
          xT = it_x (py_index (intervals s) (int (ddp_N s) - 1));
          s = s\<lparr>intervals := (intervals s)[ddp_N s := (intervals s ! ddp_N s)\<lparr>it_x := xT\<rparr>]\<rparr>
      in s\<lparr>ddp_V := ddp_V s + computeTerminalCost P xT\<rparr>)"

subsection \<open>backwardPass\<close>

text \<open>Lines 132 to 174 of the loop body: the cost and dynamics terms of the interval,
  scaled by its duration, and the Q terms with their regularized twins. \<open>it_next\<close> is the
  record of knot \<open>k + 1\<close>.\<close>

definition knot_Q :: "collaborators \<Rightarrow> real \<Rightarrow> interval \<Rightarrow> interval \<Rightarrow> interval" where
  "knot_Q P mu it it_next =
     (let x = it_x it;
          u = it_u it;
          dt = it_tf it - it_t0 it;
          (l, lx, lu, lxx, luu, lux) = computeRunningTerms P x u;
          lx = smul dt lx;
          lu = smul dt lu;
          lxx = smul dt lxx;
          luu = smul dt luu;
          lux = smul dt lux;
          (f, fx, fu) = computeAllTerms P x u;
          fx = mat_add (smul dt fx) (eye (dyn_n P));
          fu = smul dt fu;
          Vx_p = it_Vx it_next;
          Vxx_p = it_Vxx it_next;
          muI = smul mu (eye (dyn_n P));
          it = it\<lparr>it_Qx := mat_add lx (mat_mul (mat_T fx) Vx_p)\<rparr>;
          it = it\<lparr>it_Qu := mat_add lu (mat_mul (mat_T fu) Vx_p)\<rparr>;
          it = it\<lparr>it_Qxx := mat_add lxx (mat_mul (mat_mul (mat_T fx) Vxx_p) fx)\<rparr>;
          it = it\<lparr>it_Quu := mat_add luu (mat_mul (mat_mul (mat_T fu) Vxx_p) fu)\<rparr>;
          it = it\<lparr>it_Qux := mat_add lux (mat_mul (mat_mul (mat_T fu) Vxx_p) fx)\<rparr>;
          it = it\<lparr>it_Quu_r := mat_add (it_Quu it) (mat_mul (mat_mul (mat_T fu) muI) fu)\<rparr>;
          it = it\<lparr>it_Qux_r := mat_add (it_Qux it) (mat_mul (mat_mul (mat_T fu) muI) fx)\<rparr>
      in it)"

text \<open>Line 142: the running cost of the interval, scaled by its duration.\<close>

definition knot_l :: "collaborators \<Rightarrow> interval \<Rightarrow> real" where
  "knot_l P it =
     (let (l, lx, lu, lxx, luu, lux) = computeRunningTerms P (it_x it) (it_u it)
      in l * (it_tf it - it_t0 it))"

text \<open>Lines 177 to 180: the gains. \<open>None\<close> when the factorization or the inversion of
  the factor raises \<^verbatim>\<open>LinAlgError\<close>.\<close>

definition knot_gains :: "linalg \<Rightarrow> interval \<Rightarrow> interval option" where
  "knot_gains la it =
     (case np_cholesky la (it_Quu_r it) of
        None \<Rightarrow> None
      | Some L \<Rightarrow>
         (case np_inv la L of
            None \<Rightarrow> None
          | Some L_inv \<Rightarrow>
             let Quu_inv = mat_mul (mat_T L_inv) L_inv;
                 it = it\<lparr>it_K := mat_mul (mat_neg Quu_inv) (it_Qux_r it)\<rparr>;
                 it = it\<lparr>it_j := mat_mul (mat_neg Quu_inv) (it_Qu it)\<rparr>
             in Some it))"

text \<open>Lines 183 to 186: the two scalars of the expected reduction and the derivatives
  of the value function.\<close>

definition jt_Quu_j :: "interval \<Rightarrow> real" where
  "jt_Quu_j it = as_scalar (mat_mul (mat_mul (smul (1 / 2) (mat_T (it_j it))) (it_Quu it)) (it_j it))"

definition jt_Qu :: "interval \<Rightarrow> real" where
  "jt_Qu it = as_scalar (mat_mul (mat_T (it_j it)) (it_Qu it))"

definition knot_value :: "interval \<Rightarrow> interval" where
  "knot_value it =
     (let it = it\<lparr>it_Vx :=
                 mat_add (mat_add (mat_add (it_Qx it)
                     (mat_mul (mat_mul (mat_T (it_K it)) (it_Quu it)) (it_j it)))
                     (mat_mul (mat_T (it_K it)) (it_Qu it)))
                     (mat_mul (mat_T (it_Qux it)) (it_j it))\<rparr>;
          it = it\<lparr>it_Vxx :=
                 mat_add (mat_add (mat_add (it_Qxx it)
                     (mat_mul (mat_mul (mat_T (it_K it)) (it_Quu it)) (it_K it)))
                     (mat_mul (mat_T (it_K it)) (it_Qux it)))
                     (mat_mul (mat_T (it_Qux it)) (it_K it))\<rparr>
      in it)"

text \<open>The loop body at knot \<open>k\<close>. An exception leaves the solver in the state reached:
  the error is returned together with it.\<close>

definition bp_knot :: "linalg \<Rightarrow> collaborators \<Rightarrow> real \<Rightarrow> nat \<Rightarrow> ddp \<Rightarrow> (error \<times> ddp) + ddp" where
  "bp_knot la P alpha k s =
     (let it = knot_Q P (ddp_mu s) (intervals s ! k) (intervals s ! (k + 1))
      in case knot_gains la it of
           None \<Rightarrow> Inl (LinAlgError, s\<lparr>intervals := (intervals s)[k := it]\<rparr>)
         | Some it \<Rightarrow>
            let it = knot_value it
            in Inr (s\<lparr>intervals := (intervals s)[k := it],
                      ddp_V := ddp_V s + knot_l P it,
                      ddp_dV_exp := ddp_dV_exp s + alpha * (alpha * jt_Quu_j it + jt_Qu it)\<rparr>))"

text \<open>\<^verbatim>\<open>for k in range(self.N-1, -1, -1)\<close>: \<open>bp_loop la P alpha n s\<close> runs the knots
  \<open>n - 1\<close> down to \<open>0\<close>.\<close>

fun bp_loop :: "linalg \<Rightarrow> collaborators \<Rightarrow> real \<Rightarrow> nat \<Rightarrow> ddp \<Rightarrow> (error \<times> ddp) + ddp" where
  "bp_loop la P alpha 0 s = Inr s"
| "bp_loop la P alpha (Suc k) s =
     (case bp_knot la P alpha k s of
        Inl e \<Rightarrow> Inl e
      | Inr s' \<Rightarrow> bp_loop la P alpha k s')"

definition backwardPass :: "linalg \<Rightarrow> collaborators \<Rightarrow> ddp \<Rightarrow> real \<Rightarrow> (error \<times> ddp) + ddp" where
  "backwardPass la P s alpha =
     (let it = intervals s ! ddp_N s;
          xf = it_x it;
          (V, Vx, Vxx) = computeTerminalTerms P xf;
          it = it\<lparr>it_V := V, it_Vx := Vx, it_Vxx := Vxx\<rparr>;
          s = s\<lparr>intervals := (intervals s)[ddp_N s := it], ddp_V := V, ddp_dV_exp := 0\<rparr>
      in bp_loop la P alpha (ddp_N s) s)"

subsection \<open>forwardPass\<close>

definition fp_knot :: "collaborators \<Rightarrow> real \<Rightarrow> nat \<Rightarrow> ddp \<Rightarrow> ddp" where
  "fp_knot P alpha k s =
     (let it = intervals s ! k;
          it = it\<lparr>it_u_new :=
                 mat_add (mat_add (it_u it) (smul alpha (it_j it)))
                         (mat_mul (it_K it) (mat_sub (it_x_new it) (it_x it)))\<rparr>;
          s = s\<lparr>intervals := (intervals s)[k := it]\<rparr>;
          it_next = intervals s ! (k + 1);
          dt = it_tf it - it_t0 it;
          it_next = it_next\<lparr>it_x_new := integrator_integrate P (it_x_new it) (it_u_new it) dt\<rparr>;
          s = s\<lparr>intervals := (intervals s)[k + 1 := it_next]\<rparr>
      in s\<lparr>ddp_V_new := ddp_V_new s + computeRunningCost P (it_x_new it) (it_u_new it) * dt\<rparr>)"

text \<open>
  Line 227: \<open>z = (V_new - V) / dV_exp\<close>. With a zero denominator numpy's quotient is
  infinite or not a number, and then one of the two strict comparisons of line 232 is
  false; the model writes this case out, since division by zero is \<open>0\<close> in HOL.
\<close>

definition z_ratio :: "ddp \<Rightarrow> real" where
  "z_ratio s = (ddp_V_new s - ddp_V s) / ddp_dV_exp s"

definition accepted :: "ddp \<Rightarrow> bool" where
  "accepted s \<longleftrightarrow> ddp_dV_exp s \<noteq> 0 \<and> z_ratio s > change_lb s \<and> z_ratio s < change_ub s"

definition commit_knot :: "nat \<Rightarrow> ddp \<Rightarrow> ddp" where
  "commit_knot k s =
     (let it = intervals s ! k;
          it = it\<lparr>it_u := it_u_new it\<rparr>;
          it = it\<lparr>it_x := it_x_new it\<rparr>
      in s\<lparr>intervals := (intervals s)[k := it]\<rparr>)"

text \<open>The trial trajectory and its cost, lines 199 to 224. The terminal interval's
  \<^verbatim>\<open>x\<close> is rebound to the array \<^verbatim>\<open>self.intervals[self.N-1].x_new\<close>.\<close>

definition fp_rollout :: "collaborators \<Rightarrow> ddp \<Rightarrow> real \<Rightarrow> ddp" where
  "fp_rollout P s alpha =
     (let it = intervals s ! 0;
          s = s\<lparr>intervals := (intervals s)[0 := it\<lparr>it_x_new := it_x it\<rparr>], ddp_V_new := 0\<rparr>;
          s = fold (fp_knot P alpha) [0..<ddp_N s] s;
          xT = it_x_new (py_index (intervals s) (int (ddp_N s) - 1));
          s = s\<lparr>intervals := (intervals s)[ddp_N s := (intervals s ! ddp_N s)\<lparr>it_x := xT\<rparr>]\<rparr>
      in s\<lparr>ddp_V_new := ddp_V_new s + computeTerminalCost P xT\<rparr>)"

definition forwardPass :: "collaborators \<Rightarrow> ddp \<Rightarrow> real \<Rightarrow> ddp" where
  "forwardPass P s alpha =
     (let s = fp_rollout P s alpha
      in if accepted s then fold commit_knot [0..<ddp_N s - 1] s else s)"

definition compute :: "linalg \<Rightarrow> collaborators \<Rightarrow> ddp \<Rightarrow> (error \<times> ddp) + ddp" where
  "compute la P s =
     (let alpha = 1
      in case backwardPass la P s alpha of
           Inl e \<Rightarrow> Inl e
         | Inr s \<Rightarrow> Inr (forwardPass P s alpha))"

subsection \<open>Predicates used in the proofs\<close>

text \<open>What a knot of the backward sweep leaves behind: the record \<open>it\<close> of the knot is
  the loop body run on the knot's earlier record \<open>it0\<close> and the record \<open>nxt\<close> of the next knot.\<close>

definition knot_done :: "linalg \<Rightarrow> collaborators \<Rightarrow> real \<Rightarrow> interval \<Rightarrow> interval \<Rightarrow> interval \<Rightarrow> bool" where
  "knot_done la P mu it0 it nxt \<longleftrightarrow>
     (\<exists>g. knot_gains la (knot_Q P mu it0 nxt) = Some g \<and> it = knot_value g)"

text \<open>The state in which the backward sweep starts.\<close>

definition bp_start :: "collaborators \<Rightarrow> ddp \<Rightarrow> ddp" where
  "bp_start P s =
     (let it = intervals s ! ddp_N s;
          xf = it_x it;
          (V, Vx, Vxx) = computeTerminalTerms P xf;
          it = it\<lparr>it_V := V, it_Vx := Vx, it_Vxx := Vxx\<rparr>
      in s\<lparr>intervals := (intervals s)[ddp_N s := it], ddp_V := V, ddp_dV_exp := 0\<rparr>)"

text \<open>Two solver states with the same nominal trajectory and the same scalars other than
  \<open>V_new\<close>.\<close>

definition same_nominal :: "ddp \<Rightarrow> ddp \<Rightarrow> bool" where
  "same_nominal s s' \<longleftrightarrow>
     length (intervals s') = length (intervals s) \<and> ddp_N s' = ddp_N s
     \<and> ddp_V s' = ddp_V s \<and> ddp_dV_exp s' = ddp_dV_exp s
     \<and> change_lb s' = change_lb s \<and> change_ub s' = change_ub s
     \<and> (\<forall>i. it_x (intervals s' ! i) = it_x (intervals s ! i)
            \<and> it_u (intervals s' ! i) = it_u (intervals s ! i))"

text \<open>The running cost of the trial at one knot, scaled by the interval's duration.\<close>

definition trial_cost :: "collaborators \<Rightarrow> interval \<Rightarrow> real" where
  "trial_cost P it = computeRunningCost P (it_x_new it) (it_u_new it) * (it_tf it - it_t0 it)"

subsection \<open>The acceptance test on binary64 values\<close>

text \<open>
  Lines 226 to 237 of \<^verbatim>\<open>forwardPass\<close>, on the solver state as the roll-out of lines 199
  to 224 leaves it, with binary64 entries. Of a knot only the arrays that the claims
  about these lines speak of are kept: the nominal and the trial state and control,
  and the terms \<open>Qu\<close> and \<open>Quu_r\<close> of the backward pass.
\<close>

record interval64 =
  it64_x :: mat64
  it64_u :: mat64
  it64_x_new :: mat64
  it64_u_new :: mat64
  it64_Qu :: mat64
  it64_Quu_r :: mat64

record ddp64 =
  ddp64_N :: nat
  intervals64 :: "interval64 list"
  ddp64_V :: f64
  ddp64_V_new :: f64
  ddp64_dV_exp :: f64
  change_lb64 :: f64
  change_ub64 :: f64

text \<open>Line 227: \<^verbatim>\<open>z = (self.V_new - self.V) / self.dV_exp\<close>.\<close>

definition z_ratio64 :: "ddp64 \<Rightarrow> f64" where
  "z_ratio64 s = f64_div (f64_sub (ddp64_V_new s) (ddp64_V s)) (ddp64_dV_exp s)"

text \<open>Line 232: \<^verbatim>\<open>z > self.change_lb and z < self.change_ub\<close>.\<close>

definition accepted64 :: "ddp64 \<Rightarrow> bool" where
  "accepted64 s \<longleftrightarrow> f64_lt (change_lb64 s) (z_ratio64 s) \<and> f64_lt (z_ratio64 s) (change_ub64 s)"

definition commit_knot64 :: "nat \<Rightarrow> ddp64 \<Rightarrow> ddp64" where
  "commit_knot64 k s =
     (let it = intervals64 s ! k;
          it = it\<lparr>it64_u := it64_u_new it\<rparr>;
          it = it\<lparr>it64_x := it64_x_new it\<rparr>
      in s\<lparr>intervals64 := (intervals64 s)[k := it]\<rparr>)"

definition check_changes64 :: "ddp64 \<Rightarrow> ddp64" where
  "check_changes64 s = (if accepted64 s then fold commit_knot64 [0..<ddp64_N s - 1] s else s)"

text \<open>Some entry of an array is an infinity or not a number.\<close>

definition nonfinite_entry :: "mat64 \<Rightarrow> bool" where
  "nonfinite_entry A \<longleftrightarrow> list_ex (list_ex (\<lambda>v. \<not> f64_finite v)) A"

text \<open>A solver state with real entries, read as a state with binary64 entries (of a real
  that is not a binary64 value the reading is not one either).\<close>

definition to64 :: "ddp \<Rightarrow> ddp64" where
  "to64 s =
     \<lparr>ddp64_N = ddp_N s,
      intervals64 = map (\<lambda>it. \<lparr>it64_x = map (map Fin) (it_x it), it64_u = map (map Fin) (it_u it),
                                it64_x_new = map (map Fin) (it_x_new it),
                                it64_u_new = map (map Fin) (it_u_new it),
                                it64_Qu = map (map Fin) (it_Qu it),
                                it64_Quu_r = map (map Fin) (it_Quu_r it)\<rparr>) (intervals s),
      ddp64_V = Fin (ddp_V s), ddp64_V_new = Fin (ddp_V_new s), ddp64_dV_exp = Fin (ddp_dV_exp s),
      change_lb64 = Fin (change_lb s), change_ub64 = Fin (change_ub s)\<rparr>"

section \<open>DifferentialActionModel (crocoddyl/differential_action.py)\<close>

text \<open>
  The rigid-body library (pinocchio) is external. Each of its routines that the model
  calls is a function of the configuration \<open>q\<close>, the velocity \<open>v\<close> and, where it takes
  one, a torque or an acceleration: \<open>pin_M\<close> and \<open>pin_nle\<close> are the mass matrix and the
  nonlinear effects left by \<^verbatim>\<open>computeAllTerms\<close>, \<open>pin_aba\<close> is \<^verbatim>\<open>aba\<close>, the
  remaining fields are the derivative routines. \<open>pin_armature\<close> is \<open>None\<close> when the
  model object has no attribute \<^verbatim>\<open>armature\<close>.
\<close>

record pinocchio_model =
  pin_nq :: nat
  pin_nv :: nat
  pin_armature :: "vec option"
  pin_M :: "vec \<Rightarrow> vec \<Rightarrow> mat"
  pin_nle :: "vec \<Rightarrow> vec \<Rightarrow> vec"
  pin_aba :: "vec \<Rightarrow> vec \<Rightarrow> vec \<Rightarrow> vec"
  pin_ddq_dq :: "vec \<Rightarrow> vec \<Rightarrow> vec \<Rightarrow> mat"
  pin_ddq_dv :: "vec \<Rightarrow> vec \<Rightarrow> vec \<Rightarrow> mat"
  pin_Minverse :: "vec \<Rightarrow> mat"
  pin_dtau_dq :: "vec \<Rightarrow> vec \<Rightarrow> vec \<Rightarrow> mat"
  pin_dtau_dv :: "vec \<Rightarrow> vec \<Rightarrow> vec \<Rightarrow> mat"

text \<open>The cost sum (\<^verbatim>\<open>CostModelSum\<close>, module \<^verbatim>\<open>cost\<close>) is not among the sources either:
  its \<^verbatim>\<open>calc\<close> and \<^verbatim>\<open>calcDiff\<close> are parameters acting on a cost data block of an
  arbitrary type \<open>'c\<close>.\<close>

record 'c cost_sum =
  costs_calc :: "'c \<Rightarrow> vec \<Rightarrow> vec \<Rightarrow> real \<times> 'c"
  costs_calcDiff :: "'c \<Rightarrow> vec \<Rightarrow> vec \<Rightarrow> 'c"

record 'c DifferentialActionModel =
  dam_pinocchio :: pinocchio_model
  dam_costs :: "'c cost_sum"
  dam_nq :: nat
  dam_nv :: nat
  dam_nx :: nat
  dam_ndx :: nat
  dam_nout :: nat
  dam_nu :: nat
  dam_unone :: vec
  dam_forceAba :: bool

text \<open>\<^verbatim>\<open>__init__\<close>: the state is a \<^verbatim>\<open>StatePinocchio\<close>, with \<open>nx = nq + nv\<close> and
  \<open>ndx = 2 nv\<close> (state.py, lines 114 and 115).\<close>

definition DifferentialActionModel_init ::
  "pinocchio_model \<Rightarrow> 'c cost_sum \<Rightarrow> 'c DifferentialActionModel" where
  "DifferentialActionModel_init pin costs =
     \<lparr>dam_pinocchio = pin, dam_costs = costs,
      dam_nq = pin_nq pin, dam_nv = pin_nv pin,
      dam_nx = pin_nq pin + pin_nv pin, dam_ndx = 2 * pin_nv pin,
      dam_nout = pin_nv pin, dam_nu = pin_nv pin,
      dam_unone = replicate (pin_nv pin) 0,
      dam_forceAba = False\<rparr>"

text \<open>The data block. \<^verbatim>\<open>cost\<close> starts as \<^verbatim>\<open>nan\<close> and the attributes \<^verbatim>\<open>M\<close> and
  \<^verbatim>\<open>Minv\<close> do not exist before the first \<^verbatim>\<open>calc\<close> on the mass-matrix path: \<open>None\<close>.\<close>

record 'c DifferentialActionData =
  dad_costs :: 'c
  dad_cost :: "real option"
  dad_xout :: vec
  dad_M :: "mat option"
  dad_Minv :: "mat option"
  dad_Fx :: mat
  dad_Fu :: mat

definition DifferentialActionData_init ::
  "'c DifferentialActionModel \<Rightarrow> 'c \<Rightarrow> 'c DifferentialActionData" where
  "DifferentialActionData_init model cd =
     \<lparr>dad_costs = cd, dad_cost = None, dad_xout = replicate (dam_nout model) 0,
      dad_M = None, dad_Minv = None,
      dad_Fx = zeros (dam_nout model) (dam_ndx model),
      dad_Fu = zeros (dam_nout model) (dam_nu model)\<rparr>"

text \<open>\<^verbatim>\<open>x[-n:]\<close>: the last \<open>n\<close> entries; with \<open>n = 0\<close> Python reads \<^verbatim>\<open>x[0:]\<close>, the whole
  array.\<close>

definition py_suffix :: "nat \<Rightarrow> 'a list \<Rightarrow> 'a list" where
  "py_suffix n xs = (if n = 0 then xs else drop (length xs - n) xs)"

text \<open>\<^verbatim>\<open>M[range(nv),range(nv)] += armature\<close>: the diagonal entries, one by one.\<close>

definition add_diag :: "nat \<Rightarrow> mat \<Rightarrow> vec \<Rightarrow> mat" where
  "add_diag nv M a = fold (\<lambda>i M. M[i := (M ! i)[i := M ! i ! i + a ! i]]) [0..<nv] M"

definition mat_vec :: "mat \<Rightarrow> vec \<Rightarrow> vec" where
  "mat_vec A w = map (\<lambda>row. dot row w) A"

definition vec_sub :: "vec \<Rightarrow> vec \<Rightarrow> vec" where
  "vec_sub a b = map2 (-) a b"

definition hstack :: "mat \<Rightarrow> mat \<Rightarrow> mat" where
  "hstack A B = map2 (@) A B"

text \<open>Lines 29 to 42: the acceleration.\<close>

definition calc_dynamics ::
  "linalg \<Rightarrow> 'c DifferentialActionModel \<Rightarrow> 'c DifferentialActionData \<Rightarrow> vec \<Rightarrow> vec
     \<Rightarrow> error + 'c DifferentialActionData" where
  "calc_dynamics la model data x u =
     (let nq = dam_nq model;
          nv = dam_nv model;
          pin = dam_pinocchio model;
          q = take nq x;
          v = py_suffix nv x;
          tauq = u
      in if dam_forceAba model
         then Inr (data\<lparr>dad_xout := pin_aba pin q v tauq\<rparr>)
         else
           let M = pin_M pin q v;
               M = (case pin_armature pin of None \<Rightarrow> M | Some a \<Rightarrow> add_diag nv M a)
           in case np_inv la M of
                None \<Rightarrow> Inl LinAlgError
              | Some Minv \<Rightarrow>
                 Inr (data\<lparr>dad_M := Some M, dad_Minv := Some Minv,
                          dad_xout := mat_vec Minv (vec_sub tauq (pin_nle pin q v))\<rparr>))"

definition calc ::
  "linalg \<Rightarrow> 'c DifferentialActionModel \<Rightarrow> 'c DifferentialActionData \<Rightarrow> vec \<Rightarrow> vec option
     \<Rightarrow> error + 'c DifferentialActionData" where
  "calc la model data x u_opt =
     (let u = (case u_opt of None \<Rightarrow> dam_unone model | Some u \<Rightarrow> u)
      in case calc_dynamics la model data x u of
           Inl e \<Rightarrow> Inl e
         | Inr data \<Rightarrow>
            let (c, cd) = costs_calc (dam_costs model) (dad_costs data) x u
            in Inr (data\<lparr>dad_cost := Some c, dad_costs := cd\<rparr>))"

text \<open>\<^verbatim>\<open>calcDiff\<close>. On the mass-matrix path it reads \<^verbatim>\<open>data.Minv\<close>, which raises when no
  \<^verbatim>\<open>calc\<close> has stored it.\<close>

definition calcDiff ::
  "linalg \<Rightarrow> 'c DifferentialActionModel \<Rightarrow> 'c DifferentialActionData \<Rightarrow> vec \<Rightarrow> vec option \<Rightarrow> bool
     \<Rightarrow> error + 'c DifferentialActionData" where
  "calcDiff la model data x u_opt recalc =
     (let u = (case u_opt of None \<Rightarrow> dam_unone model | Some u \<Rightarrow> u)
      in case (if recalc then calc la model data x (Some u) else Inr data) of
           Inl e \<Rightarrow> Inl e
         | Inr data \<Rightarrow>
            let nq = dam_nq model;
                nv = dam_nv model;
                pin = dam_pinocchio model;
                q = take nq x;
                v = py_suffix nv x;
                tauq = u;
                a = dad_xout data;
                r = (if dam_forceAba model
                     then Inr (data\<lparr>dad_Fx := hstack (pin_ddq_dq pin q v tauq) (pin_ddq_dv pin q v tauq),
                                    dad_Fu := pin_Minverse pin q\<rparr>)
                     else case dad_Minv data of
                            None \<Rightarrow> Inl AttributeError
                          | Some Minv \<Rightarrow>
                             Inr (data\<lparr>dad_Fx := hstack (mat_neg (mat_mul Minv (pin_dtau_dq pin q v a)))
                                                       (mat_neg (mat_mul Minv (pin_dtau_dv pin q v a))),
                                      dad_Fu := Minv\<rparr>))
            in case r of
                 Inl e \<Rightarrow> Inl e
               | Inr data \<Rightarrow>
                  Inr (data\<lparr>dad_costs := costs_calcDiff (dam_costs model) (dad_costs data) x u\<rparr>))"

text \<open>The diagonal matrix of a vector, and the armature of a model as a matrix (zero
  when the model has none).\<close>

definition diag_mat :: "vec \<Rightarrow> mat" where
  "diag_mat a = map (\<lambda>i. map (\<lambda>j. if i = j then a ! i else 0) [0..<length a]) [0..<length a]"

definition armature_matrix :: "pinocchio_model \<Rightarrow> mat" where
  "armature_matrix pin =
     (case pin_armature pin of None \<Rightarrow> zeros (pin_nv pin) (pin_nv pin) | Some a \<Rightarrow> diag_mat a)"

section \<open>A concrete problem\<close>

text \<open>
  A scalar system that drifts at unit speed whatever the control (\<open>f = 1\<close>, \<open>fx = 0\<close>,
  \<open>fu = 0\<close>), integrated by an explicit Euler step. The running cost is the polynomial
  \<open>-u + u\<^sup>2/2 + a u\<^sup>3\<close> of the control, reported with its first and second
  derivative; the terminal cost is the state itself. Two intervals of length one.
\<close>

definition cubic_cost :: "real \<Rightarrow> real \<Rightarrow> real" where
  "cubic_cost a v = - v + v * v / 2 + a * (v * v * v)"

definition drift_P :: "real \<Rightarrow> collaborators" where
  "drift_P a =
     \<lparr>dyn_n = 1, dyn_m = 1,
      computeAllTerms = (\<lambda>x u. ([[1]], [[0]], [[0]])),
      computeRunningTerms = (\<lambda>x u.
         (cubic_cost a (as_scalar u), [[0]], [[- 1 + as_scalar u + 3 * a * (as_scalar u * as_scalar u)]],
          [[0]], [[1 + 6 * a * as_scalar u]], [[0]])),
      computeTerminalTerms = (\<lambda>x. (as_scalar x, [[1]], [[0]])),
      computeRunningCost = (\<lambda>x u. cubic_cost a (as_scalar u)),
      computeTerminalCost = (\<lambda>x. as_scalar x),
      integrator_integrate = (\<lambda>x u dt. mat_add x (smul dt [[1]]))\<rparr>"

text \<open>The solver built on the timeline \<open>[0, 1, 2]\<close>, started at state \<open>0\<close> with the
  constant control sequence \<open>u0, u0\<close> and initialized.\<close>

definition drift_solver :: "real \<Rightarrow> real \<Rightarrow> error + ddp" where
  "drift_solver a u0 =
     (case ConstrainedDDP_init (drift_P a) [0, 1, 2] of
        Inl e \<Rightarrow> Inl e
      | Inr s \<Rightarrow>
         (case setInitalState s [[0]] of
            Inl e \<Rightarrow> Inl e
          | Inr s \<Rightarrow>
             (case setInitialControl s [[[u0]], [[u0]]] of
                Inl (e, s) \<Rightarrow> Inl e
              | Inr s \<Rightarrow> Inr (init (drift_P a) s))))"

text \<open>The records of that solver: a knot before the backward sweep, and a running knot
  after it (the sweep leaves the same terms at both running knots).\<close>

definition drift_it :: "real \<Rightarrow> real \<Rightarrow> real \<Rightarrow> real \<Rightarrow> real \<Rightarrow> real \<Rightarrow> interval" where
  "drift_it t0 tf x u x_new u_new =
     (new_interval 1 1)\<lparr>it_t0 := t0, it_tf := tf, it_x := [[x]], it_u := [[u]],
        it_x_new := [[x_new]], it_u_new := [[u_new]]\<rparr>"

definition drift_swept :: "real \<Rightarrow> real \<Rightarrow> real \<Rightarrow> real \<Rightarrow> real \<Rightarrow> real \<Rightarrow> interval" where
  "drift_swept t0 tf x u x_new u_new =
     (drift_it t0 tf x u x_new u_new)\<lparr>it_Vx := [[1]], it_Vxx := [[0]],
        it_Qx := [[1]], it_Qu := [[- 1]], it_Qxx := [[0]], it_Quu := [[1]], it_Qux := [[0]],
        it_Quu_r := [[1]], it_Qux_r := [[0]], it_K := [[0]], it_j := [[1]]\<rparr>"

definition drift_terminal :: "real \<Rightarrow> real \<Rightarrow> interval" where
  "drift_terminal x x_new = (drift_it 0 0 x 0 x_new 0)\<lparr>it_V := 1, it_Vx := [[1]], it_Vxx := [[0]]\<rparr>"

definition drift_state :: "interval list \<Rightarrow> real \<Rightarrow> real \<Rightarrow> real \<Rightarrow> ddp" where
  "drift_state its V V_new dV_exp =
     \<lparr>ddp_N = 2, intervals = its, ddp_V = V, ddp_V_new = V_new, ddp_dV_exp = dV_exp,
      ddp_mu = 1 / 10 ^ 8, change_lb = 0, change_ub = 100\<rparr>"

definition drift_start :: ddp where
  "drift_start =
     drift_state [drift_it 0 1 0 0 0 0, drift_it 1 2 1 0 1 0, drift_it 0 0 1 0 2 0] 1 0 0"

definition drift_back :: ddp where
  "drift_back =
     drift_state [drift_swept 0 1 0 0 0 0, drift_swept 1 2 1 0 1 0, drift_terminal 1 2] 1 0 (- 1)"

text \<open>The states after the trial of \<^verbatim>\<open>forwardPass(1)\<close> from \<open>drift_back\<close>: with \<open>a = 0\<close>
  the step is accepted, with \<open>a = 1/2\<close> it is not.\<close>

definition drift_accepted :: ddp where
  "drift_accepted =
     drift_state [drift_swept 0 1 0 1 0 1, drift_swept 1 2 1 0 1 1, drift_terminal 1 2] 1 0 (- 1)"

definition drift_rejected :: ddp where
  "drift_rejected =
     drift_state [drift_swept 0 1 0 0 0 1, drift_swept 1 2 1 0 1 1, drift_terminal 1 2] 1 1 (- 1)"

text \<open>The same solver with \<open>a = -1\<close> started from the controls \<open>1, 1\<close>, where the running
  cost is concave (\<open>luu = -5\<close>): the state after \<^verbatim>\<open>init\<close>, and the state in which the
  backward sweep is left when the factorization at knot \<open>1\<close> raises.\<close>

definition concave_start :: ddp where
  "concave_start =
     drift_state [drift_it 0 1 0 1 0 1, drift_it 1 2 1 1 1 1, drift_it 0 0 1 0 2 0] (- 2) 0 0"

definition concave_fail :: ddp where
  "concave_fail =
     drift_state [drift_it 0 1 0 1 0 1,
                  (drift_it 1 2 1 1 1 1)\<lparr>it_Qx := [[1]], it_Qu := [[- 3]], it_Qxx := [[0]],
                     it_Quu := [[- 5]], it_Qux := [[0]], it_Quu_r := [[- 5]], it_Qux_r := [[0]]\<rparr>,
                  drift_terminal 1 2] 1 0 0"

text \<open>
  A second problem, with two states and one control on a single interval of length one:
  no drift, \<open>fx = 0\<close>, \<open>fu = (0, 10000)\<close>, an identity integrator, zero costs, and
  second derivatives \<open>luu = 3\<close> and \<open>lxx = ((0, 1), (0, 0))\<close>, which is not symmetric
  (as a one-sided finite-difference Hessian may be).
\<close>

definition skew_P :: collaborators where
  "skew_P =
     \<lparr>dyn_n = 2, dyn_m = 1,
      computeAllTerms = (\<lambda>x u. ([[0], [0]], [[0, 0], [0, 0]], [[0], [10000]])),
      computeRunningTerms = (\<lambda>x u. (0, [[0], [0]], [[0]], [[0, 1], [0, 0]], [[3]], [[0, 0]])),
      computeTerminalTerms = (\<lambda>x. (0, [[0], [0]], [[0, 0], [0, 0]])),
      computeRunningCost = (\<lambda>x u. 0),
      computeTerminalCost = (\<lambda>x. 0),
      integrator_integrate = (\<lambda>x u dt. x)\<rparr>"

definition skew_solver :: "error + ddp" where
  "skew_solver =
     (case ConstrainedDDP_init skew_P [0, 1] of
        Inl e \<Rightarrow> Inl e
      | Inr s \<Rightarrow>
         (case setInitalState s [[0], [0]] of
            Inl e \<Rightarrow> Inl e
          | Inr s \<Rightarrow>
             (case setInitialControl s [[[0]]] of
                Inl (e, s) \<Rightarrow> Inl e
              | Inr s \<Rightarrow> Inr (init skew_P s))))"

definition skew_start :: ddp where
  "skew_start =
     \<lparr>ddp_N = 1,
      intervals = [(new_interval 2 1)\<lparr>it_t0 := 0, it_tf := 1\<rparr>, new_interval 2 1],
      ddp_V = 0, ddp_V_new = 0, ddp_dV_exp = 0,
      ddp_mu = 1 / 10 ^ 8, change_lb = 0, change_ub = 100\<rparr>"

definition skew_knot :: interval where
  "skew_knot =
     (new_interval 2 1)\<lparr>it_t0 := 0, it_tf := 1,
        it_Qx := [[0], [0]], it_Qu := [[0]], it_Qxx := [[0, 1], [0, 0]], it_Quu := [[3]],
        it_Qux := [[0, 0]], it_Quu_r := [[4]], it_Qux_r := [[0, 1 / 10000]],
        it_K := [[0, - 1 / 40000]], it_j := [[0]],
        it_Vx := [[0], [0]], it_Vxx := [[0, 1], [0, 3 / 1600000000]]\<rparr>"

definition skew_back :: ddp where
  "skew_back = skew_start\<lparr>intervals := [skew_knot, new_interval 2 1]\<rparr>"

text \<open>
  A third problem, with one state and one control on a single interval of length \<open>1/2\<close>:
  \<open>fx = 2\<close>, \<open>fu = 10000\<close>, running cost terms \<open>l = 3\<close>, \<open>lx = 1\<close>, \<open>lu = 4\<close>,
  \<open>lxx = 6\<close>, \<open>luu = 3/2\<close>, \<open>lux = 8\<close>, and terminal terms \<open>V = 5\<close>, \<open>Vx = 1\<close>,
  \<open>Vxx = 0\<close>; the state before and after the backward sweep.
\<close>

definition ramp_P :: collaborators where
  "ramp_P =
     \<lparr>dyn_n = 1, dyn_m = 1,
      computeAllTerms = (\<lambda>x u. ([[0]], [[2]], [[10000]])),
      computeRunningTerms = (\<lambda>x u. (3, [[1]], [[4]], [[6]], [[3 / 2]], [[8]])),
      computeTerminalTerms = (\<lambda>x. (5, [[1]], [[0]])),
      computeRunningCost = (\<lambda>x u. 3),
      computeTerminalCost = (\<lambda>x. 5),
      integrator_integrate = (\<lambda>x u dt. x)\<rparr>"

definition ramp_start :: ddp where
  "ramp_start =
     \<lparr>ddp_N = 1,
      intervals = [(new_interval 1 1)\<lparr>it_t0 := 0, it_tf := 1 / 2\<rparr>, new_interval 1 1],
      ddp_V = 0, ddp_V_new = 0, ddp_dV_exp = 0,
      ddp_mu = 1 / 10 ^ 8, change_lb = 0, change_ub = 100\<rparr>"

definition ramp_back :: ddp where
  "ramp_back =
     ramp_start\<lparr>intervals :=
        [(new_interval 1 1)\<lparr>it_t0 := 0, it_tf := 1 / 2,
            it_Qx := [[5 / 2]], it_Qu := [[5002]], it_Qxx := [[3]], it_Quu := [[3 / 4]],
            it_Qux := [[4]], it_Quu_r := [[1]], it_Qux_r := [[40001 / 10000]],
            it_K := [[- (40001 / 10000)]], it_j := [[- 5002]],
            it_Vx := [[- (500152501 / 20000)]], it_Vxx := [[- (6800079997 / 400000000)]]\<rparr>,
         (new_interval 1 1)\<lparr>it_V := 5, it_Vx := [[1]], it_Vxx := [[0]]\<rparr>],
        ddp_V := 13 / 2, ddp_dV_exp := - (31275005 / 2)\<rparr>"

text \<open>
  A single joint for the differential action model: inertia \<open>3/2\<close>, nonlinear effects
  \<open>1\<close>, rotor armature \<open>1/2\<close>, and no costs.
\<close>

definition rotor_pin :: pinocchio_model where
  "rotor_pin =
     \<lparr>pin_nq = 1, pin_nv = 1, pin_armature = Some [1 / 2],
      pin_M = (\<lambda>q v. [[3 / 2]]),
      pin_nle = (\<lambda>q v. [1]),
      pin_aba = (\<lambda>q v tau. map (\<lambda>t. (t - 1) / (3 / 2)) tau),
      pin_ddq_dq = (\<lambda>q v tau. [[0]]),
      pin_ddq_dv = (\<lambda>q v tau. [[0]]),
      pin_Minverse = (\<lambda>q. [[2 / 3]]),
      pin_dtau_dq = (\<lambda>q v a. [[0]]),
      pin_dtau_dv = (\<lambda>q v a. [[0]])\<rparr>"

definition no_costs :: "unit cost_sum" where
  "no_costs = \<lparr>costs_calc = (\<lambda>c x u. (0, c)), costs_calcDiff = (\<lambda>c x u. c)\<rparr>"

definition rotor_model :: "bool \<Rightarrow> unit DifferentialActionModel" where
  "rotor_model aba = (DifferentialActionModel_init rotor_pin no_costs)\<lparr>dam_forceAba := aba\<rparr>"

definition rotor_data :: "unit DifferentialActionData" where
  "rotor_data = DifferentialActionData_init (rotor_model False) ()"

text \<open>
  The state of the drifting system (\<open>a = 0\<close>) between the roll-out and the acceptance
  test of the forward pass, in binary64 values, with an infinite \<open>Quu_r\<close> and a
  \<open>Qu\<close> that is not a number in the record of the first knot; and the same state with
  an infinite \<open>V_new\<close>.
\<close>

definition trial64 :: "f64 \<Rightarrow> ddp64" where
  "trial64 V_new =
     \<lparr>ddp64_N = 2,
      intervals64 =
        [\<lparr>it64_x = [[Fin 0]], it64_u = [[Fin 0]], it64_x_new = [[Fin 0]], it64_u_new = [[Fin 1]],
          it64_Qu = [[NaN]], it64_Quu_r = [[PInf]]\<rparr>,
         \<lparr>it64_x = [[Fin 1]], it64_u = [[Fin 0]], it64_x_new = [[Fin 1]], it64_u_new = [[Fin 1]],
          it64_Qu = [[Fin (- 1)]], it64_Quu_r = [[Fin 1]]\<rparr>,
         \<lparr>it64_x = [[Fin 1]], it64_u = [[Fin 0]], it64_x_new = [[Fin 2]], it64_u_new = [[Fin 0]],
          it64_Qu = [[Fin 0]], it64_Quu_r = [[Fin 0]]\<rparr>],
      ddp64_V = Fin 1, ddp64_V_new = V_new, ddp64_dV_exp = Fin (- 1),
      change_lb64 = Fin 0, change_ub64 = Fin 100\<rparr>"

section \<open>Facts about arrays\<close>

lemma wf_mat_nth: "wf_mat r c A \<Longrightarrow> i < r \<Longrightarrow> length (A ! i) = c"
  by (simp add: wf_mat_def list_all_length)

lemma wf_mat_ncols: "wf_mat r c A \<Longrightarrow> 0 < r \<Longrightarrow> ncols A = c"
  by (cases A) (auto simp: wf_mat_def)

lemma mat_eqI:
  assumes "wf_mat r c A" "wf_mat r c B"
    and "\<And>i j. i < r \<Longrightarrow> j < c \<Longrightarrow> A ! i ! j = B ! i ! j"
  shows "A = B"
proof (rule nth_equalityI)
  show "length A = length B" using assms(1,2) by (simp add: wf_mat_def)
next
  fix i assume "i < length A"
  then have i: "i < r" using assms(1) by (simp add: wf_mat_def)
  show "A ! i = B ! i"
  proof (rule nth_equalityI)
    show "length (A ! i) = length (B ! i)"
      using wf_mat_nth[OF assms(1) i] wf_mat_nth[OF assms(2) i] by simp
  next
    fix j assume "j < length (A ! i)"
    then have "j < c" using wf_mat_nth[OF assms(1) i] by simp
    then show "A ! i ! j = B ! i ! j" using assms(3) i by simp
  qed
qed

lemma dot_sum: "length a = n \<Longrightarrow> length b = n \<Longrightarrow> dot a b = (\<Sum>k<n. a ! k * b ! k)"
  by (simp add: dot_def sum_list_sum_nth atLeast0LessThan)

lemma wf_mat_T: "wf_mat r c A \<Longrightarrow> 0 < r \<Longrightarrow> wf_mat c r (mat_T A)"
  by (cases A) (auto simp: wf_mat_def mat_T_def col_def list_all_length)

lemma mat_T_nth: "wf_mat r c A \<Longrightarrow> i < r \<Longrightarrow> j < c \<Longrightarrow> mat_T A ! j ! i = A ! i ! j"
  using wf_mat_ncols[of r c A] by (simp add: mat_T_def col_def wf_mat_def)

lemma wf_mat_mul: "wf_mat r n A \<Longrightarrow> wf_mat n c B \<Longrightarrow> 0 < n \<Longrightarrow> wf_mat r c (mat_mul A B)"
  by (cases B) (auto simp: wf_mat_def mat_mul_def list_all_length)

lemma mat_mul_nth:
  assumes "wf_mat r n A" "wf_mat n c B" "0 < n" "i < r" "j < c"
  shows "mat_mul A B ! i ! j = (\<Sum>k<n. A ! i ! k * B ! k ! j)"
proof -
  have n: "0 < n" by (rule assms(3))
  have nc: "ncols B = c" using wf_mat_ncols[OF assms(2) n] .
  have "mat_mul A B ! i ! j = dot (A ! i) (col B j)"
    using assms nc by (simp add: mat_mul_def wf_mat_def)
  also have "\<dots> = (\<Sum>k<n. A ! i ! k * col B j ! k)"
    using assms by (intro dot_sum) (auto simp: wf_mat_nth col_def wf_mat_def)
  also have "\<dots> = (\<Sum>k<n. A ! i ! k * B ! k ! j)"
    using assms by (intro sum.cong) (auto simp: col_def wf_mat_def)
  finally show ?thesis .
qed

lemma wf_eye: "wf_mat n n (eye n)"
  by (simp add: wf_mat_def eye_def list_all_length)

lemma eye_nth: "i < n \<Longrightarrow> j < n \<Longrightarrow> eye n ! i ! j = (if i = j then 1 else 0)"
  by (simp add: eye_def)

lemma wf_smul: "wf_mat r c A \<Longrightarrow> wf_mat r c (smul a A)"
  by (simp add: wf_mat_def smul_def list_all_length)

lemma smul_nth: "wf_mat r c A \<Longrightarrow> i < r \<Longrightarrow> j < c \<Longrightarrow> smul a A ! i ! j = a * A ! i ! j"
  by (simp add: smul_def wf_mat_def list_all_length)

lemma wf_mat_add: "wf_mat r c A \<Longrightarrow> wf_mat r c B \<Longrightarrow> wf_mat r c (mat_add A B)"
  by (simp add: wf_mat_def mat_add_def list_all_length)

lemma mat_add_nth:
  "wf_mat r c A \<Longrightarrow> wf_mat r c B \<Longrightarrow> i < r \<Longrightarrow> j < c \<Longrightarrow> mat_add A B ! i ! j = A ! i ! j + B ! i ! j"
  by (simp add: mat_add_def wf_mat_def list_all_length)

lemma wf_mat_neg: "wf_mat r c A \<Longrightarrow> wf_mat r c (mat_neg A)"
  by (simp add: wf_mat_def mat_neg_def list_all_length)

lemma mat_neg_nth: "wf_mat r c A \<Longrightarrow> i < r \<Longrightarrow> j < c \<Longrightarrow> mat_neg A ! i ! j = - (A ! i ! j)"
  by (simp add: mat_neg_def wf_mat_def list_all_length)

lemma mat_mul_assoc:
  assumes A: "wf_mat r n A" and B: "wf_mat n p B" and C: "wf_mat p c C"
    and n: "0 < n" and p: "0 < p"
  shows "mat_mul (mat_mul A B) C = mat_mul A (mat_mul B C)"
proof (rule mat_eqI[where r = r and c = c])
  have AB: "wf_mat r p (mat_mul A B)" by (rule wf_mat_mul[OF A B n])
  have BC: "wf_mat n c (mat_mul B C)" by (rule wf_mat_mul[OF B C p])
  show "wf_mat r c (mat_mul (mat_mul A B) C)" by (rule wf_mat_mul[OF AB C p])
  show "wf_mat r c (mat_mul A (mat_mul B C))" by (rule wf_mat_mul[OF A BC n])
  fix i j assume i: "i < r" and j: "j < c"
  have "mat_mul (mat_mul A B) C ! i ! j = (\<Sum>l<p. (\<Sum>k<n. A ! i ! k * B ! k ! l) * C ! l ! j)"
    using mat_mul_nth[OF AB C p i j] mat_mul_nth[OF A B n i] by simp
  also have "\<dots> = (\<Sum>l<p. \<Sum>k<n. A ! i ! k * (B ! k ! l * C ! l ! j))"
    by (simp add: sum_distrib_right mult.assoc)
  also have "\<dots> = (\<Sum>k<n. \<Sum>l<p. A ! i ! k * (B ! k ! l * C ! l ! j))"
    by (rule sum.swap)
  also have "\<dots> = (\<Sum>k<n. A ! i ! k * (\<Sum>l<p. B ! k ! l * C ! l ! j))"
    by (simp add: sum_distrib_left)
  also have "\<dots> = mat_mul A (mat_mul B C) ! i ! j"
    using mat_mul_nth[OF A BC n i j] mat_mul_nth[OF B C p _ j] by simp
  finally show "mat_mul (mat_mul A B) C ! i ! j = mat_mul A (mat_mul B C) ! i ! j" .
qed

lemma mat_T_mul:
  assumes A: "wf_mat r n A" and B: "wf_mat n c B" and r: "0 < r" and n: "0 < n" and c: "0 < c"
  shows "mat_T (mat_mul A B) = mat_mul (mat_T B) (mat_T A)"
proof (rule mat_eqI[where r = c and c = r])
  have AB: "wf_mat r c (mat_mul A B)" by (rule wf_mat_mul[OF A B n])
  have TA: "wf_mat n r (mat_T A)" by (rule wf_mat_T[OF A r])
  have TB: "wf_mat c n (mat_T B)" by (rule wf_mat_T[OF B n])
  show "wf_mat c r (mat_T (mat_mul A B))" by (rule wf_mat_T[OF AB r])
  show "wf_mat c r (mat_mul (mat_T B) (mat_T A))" by (rule wf_mat_mul[OF TB TA n])
  fix j i assume j: "j < c" and i: "i < r"
  have "mat_T (mat_mul A B) ! j ! i = (\<Sum>k<n. A ! i ! k * B ! k ! j)"
    using mat_T_nth[OF AB i j] mat_mul_nth[OF A B n i j] by simp
  also have "\<dots> = (\<Sum>k<n. mat_T B ! j ! k * mat_T A ! k ! i)"
    using mat_T_nth[OF A i] mat_T_nth[OF B _ j] by (simp add: mult.commute)
  also have "\<dots> = mat_mul (mat_T B) (mat_T A) ! j ! i"
    using mat_mul_nth[OF TB TA n j i] by simp
  finally show "mat_T (mat_mul A B) ! j ! i = mat_mul (mat_T B) (mat_T A) ! j ! i" .
qed

lemma mat_T_eye: "mat_T (eye n) = eye n"
proof (cases "n = 0")
  case True then show ?thesis by (simp add: eye_def mat_T_def)
next
  case False
  show ?thesis
  proof (rule mat_eqI[where r = n and c = n])
    have n: "0 < n" using False by simp
    show "wf_mat n n (mat_T (eye n))" by (rule wf_mat_T[OF wf_eye n])
    show "wf_mat n n (eye n)" by (rule wf_eye)
    fix i j assume "i < n" "j < n"
    then show "mat_T (eye n) ! i ! j = eye n ! i ! j"
      using mat_T_nth[OF wf_eye, of j n i] by (auto simp: eye_nth)
  qed
qed

lemma mat_mul_eye_right:
  assumes A: "wf_mat r n A" shows "mat_mul A (eye n) = A"
proof (cases "n = 0")
  case True
  then show ?thesis using A
    by (auto simp: mat_mul_def eye_def wf_mat_def list_all_iff intro!: map_idI)
next
  case False
  show ?thesis
  proof (rule mat_eqI[where r = r and c = n])
    have n: "0 < n" using False by simp
    show "wf_mat r n (mat_mul A (eye n))" by (rule wf_mat_mul[OF A wf_eye n])
    show "wf_mat r n A" by (rule A)
    fix i j assume i: "i < r" and j: "j < n"
    have "mat_mul A (eye n) ! i ! j = (\<Sum>k<n. A ! i ! k * eye n ! k ! j)"
      by (rule mat_mul_nth[OF A wf_eye n i j])
    also have "\<dots> = (\<Sum>k<n. A ! i ! k * (if k = j then 1 else 0))"
      using j by (intro sum.cong) (auto simp: eye_nth)
    also have "\<dots> = (\<Sum>k<n. if k = j then A ! i ! k else 0)"
      by (intro sum.cong) auto
    also have "\<dots> = A ! i ! j" using j by (simp add: sum.delta)
    finally show "mat_mul A (eye n) ! i ! j = A ! i ! j" .
  qed
qed

lemma mat_mul_eye_left:
  assumes A: "wf_mat n c A" shows "mat_mul (eye n) A = A"
proof (cases "n = 0")
  case True
  then show ?thesis using A by (simp add: mat_mul_def eye_def wf_mat_def)
next
  case False
  show ?thesis
  proof (rule mat_eqI[where r = n and c = c])
    have n: "0 < n" using False by simp
    show "wf_mat n c (mat_mul (eye n) A)" by (rule wf_mat_mul[OF wf_eye A n])
    show "wf_mat n c A" by (rule A)
    fix i j assume i: "i < n" and j: "j < c"
    have "mat_mul (eye n) A ! i ! j = (\<Sum>k<n. eye n ! i ! k * A ! k ! j)"
      by (rule mat_mul_nth[OF wf_eye A n i j])
    also have "\<dots> = (\<Sum>k<n. (if i = k then 1 else 0) * A ! k ! j)"
      using i by (intro sum.cong) (auto simp: eye_nth)
    also have "\<dots> = (\<Sum>k<n. if k = i then A ! k ! j else 0)"
      by (intro sum.cong) auto
    also have "\<dots> = A ! i ! j" using i by (simp add: sum.delta)
    finally show "mat_mul (eye n) A ! i ! j = A ! i ! j" .
  qed
qed


lemma dot_neg_left: "dot (map uminus a) b = - dot a b"
  unfolding dot_def by (induction a arbitrary: b) (auto simp: zip_Cons1 split: list.splits)

lemma dot_smul_left: "dot (map ((*) c) a) b = c * dot a b"
  unfolding dot_def
proof (induction a arbitrary: b)
  case Nil
  then show ?case by simp
next
  case (Cons x a)
  then show ?case by (cases b) (simp_all add: algebra_simps)
qed

lemma dot_smul_right: "dot a (map ((*) c) b) = c * dot a b"
  unfolding dot_def
proof (induction a arbitrary: b)
  case Nil
  then show ?case by simp
next
  case (Cons x a)
  then show ?case by (cases b) (simp_all add: algebra_simps)
qed

lemma mat_mul_neg_left: "mat_mul (mat_neg A) B = mat_neg (mat_mul A B)"
  by (simp add: mat_mul_def mat_neg_def dot_neg_left o_def)

lemma mat_mul_smul_left: "mat_mul (smul c A) B = smul c (mat_mul A B)"
  by (simp add: mat_mul_def smul_def dot_smul_left o_def)

lemma ncols_smul: "ncols (smul a B) = ncols B"
  by (cases B) (simp_all add: smul_def)

lemma col_smul: "wf_mat n c B \<Longrightarrow> j < c \<Longrightarrow> col (smul a B) j = map ((*) a) (col B j)"
  by (simp add: col_def smul_def wf_mat_def list_all_iff)

lemma mat_mul_smul_right:
  assumes "wf_mat n c B" shows "mat_mul A (smul a B) = smul a (mat_mul A B)"
proof (cases "n = 0")
  case True
  then show ?thesis using assms by (simp add: wf_mat_def mat_mul_def smul_def)
next
  case False
  then have nc: "ncols B = c" using wf_mat_ncols[OF assms] by simp
  have "map (\<lambda>j. dot row (col (smul a B) j)) [0..<c] = map (\<lambda>j. a * dot row (col B j)) [0..<c]"
    for row
    by (rule map_cong) (simp_all add: col_smul[OF assms] dot_smul_right)
  then have "mat_mul A (smul a B) = map (\<lambda>row. map (\<lambda>j. a * dot row (col B j)) [0..<c]) A"
    by (simp add: mat_mul_def ncols_smul nc)
  also have "\<dots> = smul a (mat_mul A B)"
    by (simp add: mat_mul_def nc smul_def o_def)
  finally show ?thesis .
qed

lemma as_scalar_smul: "as_scalar (smul c A) = c * as_scalar A"
  by (auto simp: as_scalar_def smul_def split: list.splits)

lemma map2_add_commute: "map2 (+) (a::vec) b = map2 (+) b a"
proof (induction a arbitrary: b)
  case Nil
  then show ?case by simp
next
  case (Cons x a)
  then show ?case by (cases b) simp_all
qed

lemma mat_add_commute: "mat_add A B = mat_add B A"
  unfolding mat_add_def
proof (induction A arbitrary: B)
  case Nil
  then show ?case by simp
next
  case (Cons r A)
  then show ?case by (cases B) (simp_all add: map2_add_commute)
qed

lemma mat_mul_scaled_eye:
  assumes "wf_mat r n A" shows "mat_mul A (smul a (eye n)) = smul a A"
  using mat_mul_smul_right[OF wf_eye, of A a n] mat_mul_eye_right[OF assms] by simp

lemma gram_inverse:
  assumes L: "wf_mat p p L" and Li: "wf_mat p p Li"
    and LiL: "mat_mul Li L = eye p" and LLi: "mat_mul L Li = eye p"
  shows "mat_mul (mat_mul (mat_T Li) Li) (mat_mul L (mat_T L)) = eye p"
    and "mat_mul (mat_mul L (mat_T L)) (mat_mul (mat_T Li) Li) = eye p"
proof -
  show "mat_mul (mat_mul (mat_T Li) Li) (mat_mul L (mat_T L)) = eye p"
  proof (cases "p = 0")
    case True
    then show ?thesis using L Li by (simp add: wf_mat_def mat_mul_def mat_T_def eye_def)
  next
    case False
    then have p: "0 < p" by simp
    have TL: "wf_mat p p (mat_T L)" by (rule wf_mat_T[OF L p])
    have TLi: "wf_mat p p (mat_T Li)" by (rule wf_mat_T[OF Li p])
    have LTL: "wf_mat p p (mat_mul L (mat_T L))" by (rule wf_mat_mul[OF L TL p])
    have "mat_mul (mat_mul (mat_T Li) Li) (mat_mul L (mat_T L))
        = mat_mul (mat_T Li) (mat_mul Li (mat_mul L (mat_T L)))"
      by (rule mat_mul_assoc[OF TLi Li LTL p p])
    also have "mat_mul Li (mat_mul L (mat_T L)) = mat_mul (mat_mul Li L) (mat_T L)"
      by (rule mat_mul_assoc[OF Li L TL p p, symmetric])
    also have "\<dots> = mat_T L" using LiL mat_mul_eye_left[OF TL] by simp
    also have "mat_mul (mat_T Li) (mat_T L) = mat_T (mat_mul L Li)"
      by (rule mat_T_mul[OF L Li p p p, symmetric])
    also have "\<dots> = eye p" using LLi by (simp add: mat_T_eye)
    finally show ?thesis .
  qed
  show "mat_mul (mat_mul L (mat_T L)) (mat_mul (mat_T Li) Li) = eye p"
  proof (cases "p = 0")
    case True
    then show ?thesis using L Li by (simp add: wf_mat_def mat_mul_def mat_T_def eye_def)
  next
    case False
    then have p: "0 < p" by simp
    have TL: "wf_mat p p (mat_T L)" by (rule wf_mat_T[OF L p])
    have TLi: "wf_mat p p (mat_T Li)" by (rule wf_mat_T[OF Li p])
    have TLiLi: "wf_mat p p (mat_mul (mat_T Li) Li)" by (rule wf_mat_mul[OF TLi Li p])
    have "mat_mul (mat_mul L (mat_T L)) (mat_mul (mat_T Li) Li)
        = mat_mul L (mat_mul (mat_T L) (mat_mul (mat_T Li) Li))"
      by (rule mat_mul_assoc[OF L TL TLiLi p p])
    also have "mat_mul (mat_T L) (mat_mul (mat_T Li) Li) = mat_mul (mat_mul (mat_T L) (mat_T Li)) Li"
      by (rule mat_mul_assoc[OF TL TLi Li p p, symmetric])
    also have "mat_mul (mat_T L) (mat_T Li) = mat_T (mat_mul Li L)"
      by (rule mat_T_mul[OF Li L p p p, symmetric])
    also have "\<dots> = eye p" using LiL by (simp add: mat_T_eye)
    also have "mat_mul (eye p) Li = Li" by (rule mat_mul_eye_left[OF Li])
    also have "mat_mul L Li = eye p" by (rule LLi)
    finally show ?thesis .
  qed
qed

lemma cholesky_1x1_contract: "cholesky_contract linalg_1x1"
  by (auto simp: cholesky_contract_def linalg_1x1_def cholesky_1x1_def wf_mat_def mat_mul_def
      mat_T_def col_def dot_def split: list.splits if_splits)

lemma inv_1x1_contract: "inv_contract linalg_1x1"
  by (auto simp: inv_contract_def linalg_1x1_def inv_1x1_def wf_mat_def mat_mul_def
      eye_def col_def dot_def split: list.splits if_splits)

section \<open>Rounding, evaluated\<close>

lemma quantum_eval:
  assumes "2 powi e \<le> \<bar>r\<bar>" and "\<bar>r\<bar> < 2 powi (e + 1)"
  shows "quantum r = max (e - 52) (- 1074)"
proof -
  have pos: "0 < \<bar>r\<bar>"
    using assms(1) by (smt (verit) zero_less_power_int)
  have a: "(2::real) powr real_of_int e = 2 powi e"
    by (simp add: powr_real_of_int')
  have b: "(2::real) powr real_of_int (e + 1) = 2 powi (e + 1)"
    by (rule powr_real_of_int') simp_all
  have "\<lfloor>log 2 \<bar>r\<bar>\<rfloor> = e"
    using assms pos a b floor_log_eq_powr_iff[of "\<bar>r\<bar>" 2 e] by simp
  thus ?thesis by (simp add: quantum_def)
qed

lemma round64_eval:
  assumes "2 powi e \<le> \<bar>r\<bar>" and "\<bar>r\<bar> < 2 powi (e + 1)"
    and "q = max (e - 52) (- 1074)"
    and "v = of_int (round_even (r / 2 powi q)) * 2 powi q"
  shows "round64 r = (if 2 ^ 1024 \<le> v then PInf else if v \<le> - (2 ^ 1024) then NInf else Fin v)"
proof -
  have "r \<noteq> 0" using assms(1) by (smt (verit) zero_less_power_int)
  thus ?thesis using quantum_eval[OF assms(1,2)] assms(3,4) by (simp add: round64_def Let_def)
qed

lemma round64_0: "round64 0 = Fin 0"
  by (simp add: round64_def)

lemma round64_1: "round64 1 = Fin 1"
  using round64_eval[of 0 1 "- 52" 1] by (simp add: round_even_def)

lemma round64_2: "round64 2 = Fin 2"
  using round64_eval[of 1 2 "- 51" 2] by (simp add: round_even_def)

lemma round64_3: "round64 3 = Fin 3"
  using round64_eval[of 1 3 "- 51" 3] by (simp add: round_even_def)

lemma round64_4: "round64 4 = Fin 4"
  using round64_eval[of 2 4 "- 50" 4] by (simp add: round_even_def)

lemma round64_5: "round64 5 = Fin 5"
  using round64_eval[of 2 5 "- 50" 5] by (simp add: round_even_def)

lemma round64_7: "round64 7 = Fin 7"
  using round64_eval[of 2 7 "- 50" 7] by (simp add: round_even_def)

lemma round64_100: "round64 100 = Fin 100"
  using round64_eval[of 6 100 "- 46" 100] by (simp add: round_even_def)

lemma round64_m1: "round64 (- 1) = Fin (- 1)"
  using round64_eval[of 0 "- 1" "- 52" "- 1"] by (simp add: round_even_def)

lemma round64_m4: "round64 (- 4) = Fin (- 4)"
  using round64_eval[of 2 "- 4" "- 50" "- 4"] by (simp add: round_even_def)

lemma round64_m5: "round64 (- 5) = Fin (- 5)"
  using round64_eval[of 2 "- 5" "- 50" "- 5"] by (simp add: round_even_def)

lemma round64_1e16: "round64 (10 ^ 16) = Fin (10 ^ 16)"
  using round64_eval[of 53 "10 ^ 16" 1 "10 ^ 16"] by (simp add: round_even_def)

text \<open>\<open>10 ^ 16 + 1\<close> lies halfway between the neighbouring values \<open>10 ^ 16\<close> and
  \<open>10 ^ 16 + 2\<close> of its binade; the tie goes to the even significand.\<close>

lemma round64_1e16_plus_1: "round64 (10 ^ 16 + 1) = Fin (10 ^ 16)"
  using round64_eval[of 53 "10 ^ 16 + 1" 1 "10 ^ 16"] by (simp add: round_even_def)

lemma round64_1_minus_1e16: "round64 (1 - 10 ^ 16) = Fin (- (10 ^ 16))"
  using round64_eval[of 53 "1 - 10 ^ 16" 1 "- (10 ^ 16)"] by (simp add: round_even_def)

lemmas round64_values = round64_0 round64_1 round64_2 round64_3 round64_4 round64_5 round64_7
  round64_100 round64_m1 round64_m4 round64_m5 round64_1e16 round64_1e16_plus_1
  round64_1_minus_1e16

section \<open>Rounding in general\<close>

lemma round_even_of_int: "round_even (of_int m) = m"
  by (simp add: round_even_def)

lemma round_even_close: "\<bar>of_int (round_even y) - y\<bar> \<le> 1 / 2"
  unfolding round_even_def Let_def by (auto simp: abs_if) linarith+

lemma quantum_bounds:
  assumes "r \<noteq> 0"
  shows "2 powi \<lfloor>log 2 \<bar>r\<bar>\<rfloor> \<le> \<bar>r\<bar>" and "\<bar>r\<bar> < 2 powi (\<lfloor>log 2 \<bar>r\<bar>\<rfloor> + 1)"
proof -
  have pos: "0 < \<bar>r\<bar>" using assms by simp
  have a: "(2::real) powr real_of_int e = 2 powi e" for e
    by (simp add: powr_real_of_int')
  have "2 powr \<lfloor>log 2 \<bar>r\<bar>\<rfloor> \<le> \<bar>r\<bar> \<and> \<bar>r\<bar> < 2 powr (\<lfloor>log 2 \<bar>r\<bar>\<rfloor> + 1)"
    using floor_log_eq_powr_iff[of "\<bar>r\<bar>" 2 "\<lfloor>log 2 \<bar>r\<bar>\<rfloor>"] pos by simp
  then show "2 powi \<lfloor>log 2 \<bar>r\<bar>\<rfloor> \<le> \<bar>r\<bar>" and "\<bar>r\<bar> < 2 powi (\<lfloor>log 2 \<bar>r\<bar>\<rfloor> + 1)"
    using a[of "\<lfloor>log 2 \<bar>r\<bar>\<rfloor>"] a[of "\<lfloor>log 2 \<bar>r\<bar>\<rfloor> + 1"] by simp_all
qed

lemma round64_Fin:
  assumes "round64 r = Fin v" and "r \<noteq> 0"
  shows "v = of_int (round_even (r / 2 powi quantum r)) * 2 powi quantum r"
  using assms by (simp add: round64_def Let_def split: if_splits)

lemma quantum_spacing:
  assumes "r \<noteq> 0"
  shows "2 powi quantum r \<le> max (\<bar>r\<bar> / 2 ^ 52) (2 powi (- 1074))"
proof (cases "- 1074 \<le> \<lfloor>log 2 \<bar>r\<bar>\<rfloor> - 52")
  case True
  then have q: "quantum r = \<lfloor>log 2 \<bar>r\<bar>\<rfloor> - 52" by (simp add: quantum_def)
  have "(2::real) powi (\<lfloor>log 2 \<bar>r\<bar>\<rfloor> - 52) = 2 powi \<lfloor>log 2 \<bar>r\<bar>\<rfloor> / 2 ^ 52"
    by (simp add: power_int_diff)
  also have "\<dots> \<le> \<bar>r\<bar> / 2 ^ 52"
    using quantum_bounds(1)[OF assms] by (simp add: divide_right_mono)
  finally show ?thesis using q by simp
next
  case False
  then have "quantum r = - 1074" by (simp add: quantum_def)
  then show ?thesis by simp
qed

text \<open>The rounding error is at most half the quantum.\<close>

lemma round64_error:
  assumes "round64 r = Fin v"
  shows "\<bar>v - r\<bar> \<le> max (\<bar>r\<bar> / 2 ^ 53) (2 powi (- 1075))"
proof (cases "r = 0")
  case True
  then show ?thesis using assms by (simp add: round64_def)
next
  case False
  let ?q = "quantum r"
  let ?n = "round_even (r / 2 powi ?q)"
  have p: "(0::real) < 2 powi ?q" by (simp add: zero_less_power_int)
  have v: "v = of_int ?n * 2 powi ?q" using round64_Fin[OF assms False] .
  have "v - r = (of_int ?n - r / 2 powi ?q) * 2 powi ?q"
    using p by (simp add: v field_simps)
  then have "\<bar>v - r\<bar> = \<bar>of_int ?n - r / 2 powi ?q\<bar> * 2 powi ?q"
    using p by (simp add: abs_mult)
  also have "\<dots> \<le> 1 / 2 * 2 powi ?q"
    using round_even_close[of "r / 2 powi ?q"] p by (intro mult_right_mono) simp_all
  also have "\<dots> \<le> 1 / 2 * max (\<bar>r\<bar> / 2 ^ 52) (2 powi (- 1074))"
    using quantum_spacing[OF False] by simp
  also have "\<dots> = max (\<bar>r\<bar> / 2 ^ 53) (2 powi (- 1075))"
    by (simp add: max_def power_int_minus field_simps)
  finally show ?thesis .
qed

text \<open>A multiple of the quantum of its own binade, below the overflow threshold, is a
  binary64 value.\<close>

lemma round64_exact:
  assumes "v = of_int m * 2 powi quantum v" and "\<bar>v\<bar> < 2 ^ 1024"
  shows "round64 v = Fin v"
proof (cases "v = 0")
  case True
  then show ?thesis by (simp add: round64_def)
next
  case False
  have p: "(2::real) powi quantum v \<noteq> 0" by simp
  have "v / 2 powi quantum v = of_int m"
    using assms(1) p by (metis nonzero_mult_div_cancel_right)
  then have "of_int (round_even (v / 2 powi quantum v)) * 2 powi quantum v = v"
    using assms(1) by (simp add: round_even_of_int)
  moreover have "\<not> 2 ^ 1024 \<le> v" "\<not> v \<le> - (2 ^ 1024)"
    using assms(2) by linarith+
  ultimately show ?thesis using False by (simp only: round64_def Let_def if_False)
qed

lemma pow2_less_cancel: "(2::real) powi a < 2 powi b \<Longrightarrow> a < b"
  using power_int_increasing[of b a "2::real"] by (cases "a < b") simp_all

lemma quantum_le:
  assumes "v \<noteq> 0" and "\<bar>v\<bar> < 2 powi (q + 53)" and "- 1074 \<le> q"
  shows "quantum v \<le> q"
proof -
  have "2 powi \<lfloor>log 2 \<bar>v\<bar>\<rfloor> < (2::real) powi (q + 53)"
    using quantum_bounds(1)[OF assms(1)] assms(2) by linarith
  then have "\<lfloor>log 2 \<bar>v\<bar>\<rfloor> < q + 53"
    by (rule pow2_less_cancel)
  then show ?thesis using assms(3) by (simp add: quantum_def)
qed

lemma round_even_bound:
  assumes "\<bar>y\<bar> \<le> of_int k"
  shows "\<bar>round_even y\<bar> \<le> k"
proof -
  have "y \<le> of_int k" "- of_int k \<le> y" using assms by linarith+
  then have "\<lfloor>y\<rfloor> \<le> k" "- k \<le> \<lfloor>y\<rfloor>" "y = of_int k \<or> \<lfloor>y\<rfloor> < k"
    by (simp_all add: floor_le_iff le_floor_iff floor_less_iff) linarith
  then show ?thesis
    unfolding round_even_def Let_def by (auto simp: abs_if)
qed

lemma quantum_ge: "- 1074 \<le> quantum r" "\<lfloor>log 2 \<bar>r\<bar>\<rfloor> - 52 \<le> quantum r"
  by (simp_all add: quantum_def)

lemma quantum_pow2:
  assumes "\<bar>s::real\<bar> = 1"
  shows "quantum (s * 2 powi e) = max (e - 52) (- 1074)"
proof -
  have "\<bar>s * 2 powi e\<bar> = 2 powi e" using assms by (simp add: abs_mult)
  then show ?thesis
    using quantum_eval[of e "s * 2 powi e"] by (simp add: power_int_add)
qed

text \<open>The result of a rounding is a binary64 value: rounding it again changes nothing.\<close>

lemma round64_idem:
  assumes "round64 r = Fin v"
  shows "round64 v = Fin v"
proof (cases "r = 0 \<or> v = 0")
  case True
  then show ?thesis using assms by (auto simp: round64_def)
next
  case False
  then have r: "r \<noteq> 0" and v0: "v \<noteq> 0" by simp_all
  let ?q = "quantum r"
  let ?n = "round_even (r / 2 powi ?q)"
  have p: "(0::real) < 2 powi ?q" by (simp add: zero_less_power_int)
  have v: "v = of_int ?n * 2 powi ?q" using round64_Fin[OF assms r] .
  have fin: "\<bar>v\<bar> < 2 ^ 1024"
    using assms r by (simp add: round64_def Let_def split: if_splits)
  have "\<bar>r\<bar> < 2 powi (\<lfloor>log 2 \<bar>r\<bar>\<rfloor> + 1)" using quantum_bounds(2)[OF r] .
  also have "\<dots> \<le> 2 powi (?q + 53)"
    using quantum_ge(2)[of r] by (intro power_int_increasing) simp_all
  finally have "\<bar>r\<bar> < 2 powi ?q * 2 ^ 53" by (simp add: power_int_add)
  then have "\<bar>r\<bar> / 2 powi ?q < 2 ^ 53"
    using p by (simp add: pos_divide_less_eq mult.commute)
  then have "\<bar>r / 2 powi ?q\<bar> \<le> of_int (2 ^ 53)"
    using p by simp
  then have n: "\<bar>?n\<bar> \<le> 2 ^ 53" by (rule round_even_bound)
  show ?thesis
  proof (cases "\<bar>?n\<bar> = 2 ^ 53")
    case True
    then obtain s :: real where s: "\<bar>s\<bar> = 1" "of_int ?n = s * 2 ^ 53"
      by (cases "0 \<le> ?n") (auto intro: that[of 1] that[of "- 1"])
    have v': "v = s * 2 powi (?q + 53)" using v s(2) by (simp add: power_int_add)
    have q': "quantum v = ?q + 1"
      unfolding v' using quantum_pow2[OF s(1), of "?q + 53"] quantum_ge(1)[of r] by simp
    have "v = of_int (?n div 2) * 2 powi quantum v"
    proof -
      have "m = 2 * (m div 2)" if "m = 2 ^ 53 \<or> m = - (2 ^ 53)" for m :: int
        using that by auto
      moreover have "?n = 2 ^ 53 \<or> ?n = - (2 ^ 53)" using True by linarith
      ultimately have "?n = 2 * (?n div 2)" by blast
      then have "of_int ?n = (2::real) * of_int (?n div 2)"
        by (metis of_int_mult of_int_numeral)
      then have h: "of_int ?n * (2::real) powi ?q = of_int (?n div 2) * 2 powi (?q + 1)"
        by (simp add: power_int_add)
      show ?thesis unfolding q' h[symmetric] by (rule v)
    qed
    then show ?thesis using fin by (rule round64_exact)
  next
    case False
    then have "\<bar>?n\<bar> < 2 ^ 53" using n by linarith
    then have "\<bar>of_int ?n :: real\<bar> < 2 ^ 53"
      by (metis of_int_abs of_int_less_iff of_int_numeral of_int_power)
    then have "\<bar>v\<bar> < 2 powi (?q + 53)"
      using p unfolding v by (simp add: abs_mult power_int_add mult.commute)
    then have le: "quantum v \<le> ?q"
      using quantum_le[OF v0 _ quantum_ge(1)[of r]] by simp
    have "(2::real) powi ?q = 2 powi (?q - quantum v) * 2 powi quantum v"
      by (simp flip: power_int_add)
    also have "(2::real) powi (?q - quantum v) = of_int (2 ^ nat (?q - quantum v))"
      using le by (simp add: power_int_def)
    finally have "v = of_int (?n * 2 ^ nat (?q - quantum v)) * 2 powi quantum v"
      unfolding v by simp
    then show ?thesis using fin by (rule round64_exact)
  qed
qed

section \<open>The flat state and rounding\<close>

lemma map2_add_then_sub:
  assumes "list_all2 exact_add x dx" and "list_all finite_double dx"
  shows "map2 f64_sub (map2 f64_add x dx) x = dx"
  using assms
proof (induction x dx rule: list_all2_induct)
  case Nil
  then show ?case by simp
next
  case (Cons a x b dx)
  obtain r t where ab: "a = Fin r" "b = Fin t"
    using Cons.hyps(1) by (cases a; cases b) simp_all
  have "f64_sub (f64_add a b) a = b"
    using Cons.hyps(1) Cons.prems by (simp add: ab f64_sub_def)
  then show ?case using Cons by simp
qed

lemma map2_sub_then_add:
  assumes "list_all2 exact_sub x1 x0" and "list_all finite_double x1"
  shows "map2 f64_add x0 (map2 f64_sub x1 x0) = x1"
  using assms
proof (induction x1 x0 rule: list_all2_induct)
  case Nil
  then show ?case by simp
next
  case (Cons a x1 b x0)
  obtain r t where ab: "a = Fin r" "b = Fin t"
    using Cons.hyps(1) by (cases a; cases b) simp_all
  have "f64_add b (f64_sub a b) = a"
    using Cons.hyps(1) Cons.prems by (simp add: ab f64_sub_def)
  then show ?case using Cons by simp
qed

lemma map2_add_zero64:
  assumes "list_all finite_double x"
  shows "map2 f64_add x (replicate (length x) (Fin 0)) = x"
  using assms
proof (induction x)
  case Nil
  then show ?case by simp
next
  case (Cons a x)
  obtain r where a: "a = Fin r" "round64 r = Fin r"
    using Cons.prems by (cases a) simp_all
  then show ?case using Cons by simp
qed

section \<open>The flat state up to rounding\<close>

text \<open>
  With rounding, and as long as the results are finite, integrating and taking the
  difference gives back the tangent up to the two rounding errors, each at most
  \<open>2 powi (-53)\<close> times the magnitude of the rounded quantity (or half the least
  quantum).
\<close>

lemma add_then_sub_rounded:
  assumes "f64_add (Fin a) (Fin b) = Fin s" and "f64_sub (Fin s) (Fin a) = Fin d"
  shows "\<bar>d - b\<bar> \<le> max (\<bar>a + b\<bar> / 2 ^ 53) (2 powi (- 1075))
                  + max (\<bar>s - a\<bar> / 2 ^ 53) (2 powi (- 1075))"
proof -
  have 1: "\<bar>s - (a + b)\<bar> \<le> max (\<bar>a + b\<bar> / 2 ^ 53) (2 powi (- 1075))"
    using assms(1) by (intro round64_error) simp
  have 2: "\<bar>d - (s - a)\<bar> \<le> max (\<bar>s - a\<bar> / 2 ^ 53) (2 powi (- 1075))"
    using assms(2) by (intro round64_error) (simp add: f64_sub_def)
  have "\<bar>d - b\<bar> \<le> \<bar>s - (a + b)\<bar> + \<bar>d - (s - a)\<bar>" by linarith
  then show ?thesis using 1 2 by linarith
qed

lemma sub_then_add_rounded:
  assumes "f64_sub (Fin b) (Fin a) = Fin d" and "f64_add (Fin a) (Fin d) = Fin y"
  shows "\<bar>y - b\<bar> \<le> max (\<bar>b - a\<bar> / 2 ^ 53) (2 powi (- 1075))
                  + max (\<bar>a + d\<bar> / 2 ^ 53) (2 powi (- 1075))"
proof -
  have 1: "\<bar>d - (b - a)\<bar> \<le> max (\<bar>b - a\<bar> / 2 ^ 53) (2 powi (- 1075))"
    using assms(1) by (intro round64_error) (simp add: f64_sub_def)
  have 2: "\<bar>y - (a + d)\<bar> \<le> max (\<bar>a + d\<bar> / 2 ^ 53) (2 powi (- 1075))"
    using assms(2) by (intro round64_error) simp
  have "\<bar>y - b\<bar> \<le> \<bar>d - (b - a)\<bar> + \<bar>y - (a + d)\<bar>" by linarith
  then show ?thesis using 1 2 by linarith
qed

lemma StateVector_laws_rounded:
  assumes "length x = length dx" and "i < length x"
    and "StateVector_integrate S x dx = Inr y" and "StateVector_diff S x y = Inr d"
    and "x ! i = Fin a" and "dx ! i = Fin b" and "y ! i = Fin s" and "d ! i = Fin c"
  shows "\<bar>c - b\<bar> \<le> max (\<bar>a + b\<bar> / 2 ^ 53) (2 powi (- 1075))
                  + max (\<bar>s - a\<bar> / 2 ^ 53) (2 powi (- 1075))"
proof -
  have y: "y = map2 f64_add x dx"
    using assms(1,3) by (simp add: StateVector_integrate_def np_binop_def)
  then have d: "d = map2 f64_sub y x"
    using assms(1,4) by (simp add: StateVector_diff_def np_binop_def)
  have "f64_add (Fin a) (Fin b) = Fin s"
    using assms(1,2,5,6,7) y by simp
  moreover have "f64_sub (Fin s) (Fin a) = Fin c"
    using assms(1,2,5,7,8) y d by simp
  ultimately show ?thesis by (rule add_then_sub_rounded)
qed

lemma f64_add_double: "f64_add u w = Fin v \<Longrightarrow> finite_double (Fin v)"
  by (cases u; cases w) (simp_all add: round64_idem)

lemma f64_sub_double: "f64_sub u w = Fin v \<Longrightarrow> finite_double (Fin v)"
  unfolding f64_sub_def by (rule f64_add_double)

section \<open>The backward sweep, knot by knot\<close>

lemma knot_Q_frame:
  "it_x (knot_Q P mu it nxt) = it_x it"
  "it_u (knot_Q P mu it nxt) = it_u it"
  "it_t0 (knot_Q P mu it nxt) = it_t0 it"
  "it_tf (knot_Q P mu it nxt) = it_tf it"
  "it_x_new (knot_Q P mu it nxt) = it_x_new it"
  "it_u_new (knot_Q P mu it nxt) = it_u_new it"
  by (simp_all add: knot_Q_def Let_def split_beta)

lemma knot_gains_Some:
  assumes "knot_gains la q = Some g"
  shows "\<exists>L Li. np_cholesky la (it_Quu_r q) = Some L \<and> np_inv la L = Some Li
          \<and> g = q\<lparr>it_K := mat_mul (mat_neg (mat_mul (mat_T Li) Li)) (it_Qux_r q),
                  it_j := mat_mul (mat_neg (mat_mul (mat_T Li) Li)) (it_Qu q)\<rparr>"
  using assms by (auto simp: knot_gains_def Let_def split: option.splits)

lemma knot_gains_None:
  "knot_gains la q = None \<longleftrightarrow>
     np_cholesky la (it_Quu_r q) = None \<or>
     (\<exists>L. np_cholesky la (it_Quu_r q) = Some L \<and> np_inv la L = None)"
  by (auto simp: knot_gains_def Let_def split: option.splits)

lemma knot_gains_frame:
  assumes "knot_gains la q = Some g"
  shows "it_x g = it_x q" "it_u g = it_u q" "it_t0 g = it_t0 q" "it_tf g = it_tf q"
    "it_x_new g = it_x_new q" "it_u_new g = it_u_new q"
    "it_Qx g = it_Qx q" "it_Qu g = it_Qu q" "it_Qxx g = it_Qxx q" "it_Quu g = it_Quu q"
    "it_Qux g = it_Qux q" "it_Quu_r g = it_Quu_r q" "it_Qux_r g = it_Qux_r q"
  using knot_gains_Some[OF assms] by auto

lemma knot_value_frame:
  "it_x (knot_value g) = it_x g" "it_u (knot_value g) = it_u g"
  "it_t0 (knot_value g) = it_t0 g" "it_tf (knot_value g) = it_tf g"
  "it_x_new (knot_value g) = it_x_new g" "it_u_new (knot_value g) = it_u_new g"
  "it_Qx (knot_value g) = it_Qx g" "it_Qu (knot_value g) = it_Qu g"
  "it_Qxx (knot_value g) = it_Qxx g" "it_Quu (knot_value g) = it_Quu g"
  "it_Qux (knot_value g) = it_Qux g" "it_Quu_r (knot_value g) = it_Quu_r g"
  "it_Qux_r (knot_value g) = it_Qux_r g" "it_K (knot_value g) = it_K g"
  "it_j (knot_value g) = it_j g"
  by (simp_all add: knot_value_def Let_def)

lemma jt_knot_value: "jt_Quu_j (knot_value g) = jt_Quu_j g" "jt_Qu (knot_value g) = jt_Qu g"
  by (simp_all add: jt_Quu_j_def jt_Qu_def knot_value_frame)

lemma knot_l_cong:
  "it_x a = it_x b \<Longrightarrow> it_u a = it_u b \<Longrightarrow> it_t0 a = it_t0 b \<Longrightarrow> it_tf a = it_tf b
   \<Longrightarrow> knot_l P a = knot_l P b"
  by (simp add: knot_l_def)

lemma bp_knot_Inr:
  assumes "bp_knot la P alpha k s = Inr s'"
  shows "\<exists>g. knot_gains la (knot_Q P (ddp_mu s) (intervals s ! k) (intervals s ! Suc k)) = Some g
      \<and> s' = s\<lparr>intervals := (intervals s)[k := knot_value g],
               ddp_V := ddp_V s + knot_l P (knot_value g),
               ddp_dV_exp := ddp_dV_exp s + alpha * (alpha * jt_Quu_j (knot_value g) + jt_Qu (knot_value g))\<rparr>"
  using assms by (auto simp: bp_knot_def Let_def split: option.splits)

lemma bp_knot_Inl:
  assumes "bp_knot la P alpha k s = Inl (e, s')"
  shows "e = LinAlgError
    \<and> knot_gains la (knot_Q P (ddp_mu s) (intervals s ! k) (intervals s ! Suc k)) = None
    \<and> s' = s\<lparr>intervals := (intervals s)[k := knot_Q P (ddp_mu s) (intervals s ! k) (intervals s ! Suc k)]\<rparr>"
  using assms by (auto simp: bp_knot_def Let_def split: option.splits)

lemma bp_loop_Inr:
  assumes "bp_loop la P alpha n s = Inr s'" and "n < length (intervals s)"
  shows "length (intervals s') = length (intervals s)
     \<and> ddp_mu s' = ddp_mu s \<and> ddp_N s' = ddp_N s
     \<and> change_lb s' = change_lb s \<and> change_ub s' = change_ub s \<and> ddp_V_new s' = ddp_V_new s
     \<and> (\<forall>i. n \<le> i \<longrightarrow> intervals s' ! i = intervals s ! i)
     \<and> (\<forall>k<n. knot_done la P (ddp_mu s) (intervals s ! k) (intervals s' ! k) (intervals s' ! Suc k))
     \<and> ddp_V s' = ddp_V s + (\<Sum>k<n. knot_l P (intervals s' ! k))
     \<and> ddp_dV_exp s' = ddp_dV_exp s
          + (\<Sum>k<n. alpha * (alpha * jt_Quu_j (intervals s' ! k) + jt_Qu (intervals s' ! k)))"
  using assms
proof (induction n arbitrary: s)
  case 0
  then show ?case by simp
next
  case (Suc n)
  from Suc.prems(1) obtain s1 where s1: "bp_knot la P alpha n s = Inr s1"
    and rest: "bp_loop la P alpha n s1 = Inr s'"
    by (auto split: sum.splits)
  from bp_knot_Inr[OF s1] obtain g where
    g: "knot_gains la (knot_Q P (ddp_mu s) (intervals s ! n) (intervals s ! Suc n)) = Some g"
    and s1_eq: "s1 = s\<lparr>intervals := (intervals s)[n := knot_value g],
               ddp_V := ddp_V s + knot_l P (knot_value g),
               ddp_dV_exp := ddp_dV_exp s + alpha * (alpha * jt_Quu_j (knot_value g) + jt_Qu (knot_value g))\<rparr>"
    by blast
  have len1: "length (intervals s1) = length (intervals s)" by (simp add: s1_eq)
  have n1: "n < length (intervals s1)" using Suc.prems(2) len1 by simp
  note IH = Suc.IH[OF rest n1]
  have at_n: "intervals s' ! n = knot_value g"
    using IH Suc.prems(2) by (simp add: s1_eq)
  have above: "\<And>i. Suc n \<le> i \<Longrightarrow> intervals s' ! i = intervals s ! i"
    using IH by (simp add: s1_eq)
  have below: "\<And>k. k < n \<Longrightarrow> intervals s1 ! k = intervals s ! k"
    by (simp add: s1_eq)
  have done_n: "knot_done la P (ddp_mu s) (intervals s ! n) (intervals s' ! n) (intervals s' ! Suc n)"
    unfolding knot_done_def using g at_n above[of "Suc n"] by simp
  have done_lt: "\<And>k. k < n \<Longrightarrow>
      knot_done la P (ddp_mu s) (intervals s ! k) (intervals s' ! k) (intervals s' ! Suc k)"
    using IH below by (simp add: s1_eq)
  have "\<forall>k<Suc n. knot_done la P (ddp_mu s) (intervals s ! k) (intervals s' ! k) (intervals s' ! Suc k)"
    using done_n done_lt less_Suc_eq by auto
  moreover have "ddp_V s' = ddp_V s + (\<Sum>k<Suc n. knot_l P (intervals s' ! k))"
    using IH at_n by (simp add: s1_eq)
  moreover have "ddp_dV_exp s' = ddp_dV_exp s
          + (\<Sum>k<Suc n. alpha * (alpha * jt_Quu_j (intervals s' ! k) + jt_Qu (intervals s' ! k)))"
    using IH at_n by (simp add: s1_eq)
  moreover have "length (intervals s') = length (intervals s)
     \<and> ddp_mu s' = ddp_mu s \<and> ddp_N s' = ddp_N s
     \<and> change_lb s' = change_lb s \<and> change_ub s' = change_ub s \<and> ddp_V_new s' = ddp_V_new s"
    using IH by (simp add: s1_eq)
  ultimately show ?case using above by simp
qed

lemma bp_loop_Inl:
  assumes "bp_loop la P alpha n s = Inl (e, s')" and "n < length (intervals s)"
  shows "e = LinAlgError \<and> ddp_mu s' = ddp_mu s \<and> length (intervals s') = length (intervals s)
     \<and> (\<exists>k<n. knot_gains la (intervals s' ! k) = None
            \<and> (\<forall>i<k. intervals s' ! i = intervals s ! i))"
  using assms
proof (induction n arbitrary: s)
  case 0
  then show ?case by simp
next
  case (Suc n)
  show ?case
  proof (cases "bp_knot la P alpha n s")
    case (Inl r)
    then have r: "r = (e, s')" using Suc.prems(1) by simp
    let ?q = "knot_Q P (ddp_mu s) (intervals s ! n) (intervals s ! Suc n)"
    from bp_knot_Inl[OF Inl[unfolded r]] have e: "e = LinAlgError"
      and none: "knot_gains la ?q = None"
      and s': "s' = s\<lparr>intervals := (intervals s)[n := ?q]\<rparr>"
      by blast+
    have "intervals s' ! n = ?q" using Suc.prems(2) by (simp add: s')
    then have "knot_gains la (intervals s' ! n) = None \<and> (\<forall>i<n. intervals s' ! i = intervals s ! i)"
      using none by (simp add: s')
    then show ?thesis using e by (auto simp: s')
  next
    case (Inr s1)
    then have rest: "bp_loop la P alpha n s1 = Inl (e, s')" using Suc.prems(1) by simp
    from bp_knot_Inr[OF Inr] obtain g where
      s1_eq: "s1 = s\<lparr>intervals := (intervals s)[n := knot_value g],
               ddp_V := ddp_V s + knot_l P (knot_value g),
               ddp_dV_exp := ddp_dV_exp s + alpha * (alpha * jt_Quu_j (knot_value g) + jt_Qu (knot_value g))\<rparr>"
      by blast
    have n1: "n < length (intervals s1)" using Suc.prems(2) by (simp add: s1_eq)
    from Suc.IH[OF rest n1] obtain k where k: "k < n"
      and none: "knot_gains la (intervals s' ! k) = None"
      and low: "\<forall>i<k. intervals s' ! i = intervals s1 ! i"
      and more: "e = LinAlgError" "ddp_mu s' = ddp_mu s1" "length (intervals s') = length (intervals s1)"
      by blast
    have "\<forall>i<k. intervals s' ! i = intervals s ! i" using low k by (simp add: s1_eq)
    moreover have "k < Suc n" using k by simp
    ultimately have "\<exists>k<Suc n. knot_gains la (intervals s' ! k) = None
            \<and> (\<forall>i<k. intervals s' ! i = intervals s ! i)"
      using none by blast
    then show ?thesis using more by (simp add: s1_eq)
  qed
qed

lemma backwardPass_loop: "backwardPass la P s alpha = bp_loop la P alpha (ddp_N s) (bp_start P s)"
  by (simp add: backwardPass_def bp_start_def Let_def split_beta)

lemma bp_start_simps:
  "ddp_N (bp_start P s) = ddp_N s" "ddp_mu (bp_start P s) = ddp_mu s"
  "length (intervals (bp_start P s)) = length (intervals s)"
  "ddp_dV_exp (bp_start P s) = 0"
  "change_lb (bp_start P s) = change_lb s" "change_ub (bp_start P s) = change_ub s"
  "ddp_V_new (bp_start P s) = ddp_V_new s"
  "k \<noteq> ddp_N s \<Longrightarrow> intervals (bp_start P s) ! k = intervals s ! k"
  by (simp_all add: bp_start_def Let_def split_beta)

lemma bp_start_terminal:
  assumes "ddp_N s < length (intervals s)"
  shows "ddp_V (bp_start P s) = it_V (intervals (bp_start P s) ! ddp_N s)"
    and "it_x (intervals (bp_start P s) ! ddp_N s) = it_x (intervals s ! ddp_N s)"
    and "(it_V (intervals (bp_start P s) ! ddp_N s), it_Vx (intervals (bp_start P s) ! ddp_N s),
          it_Vxx (intervals (bp_start P s) ! ddp_N s))
         = computeTerminalTerms P (it_x (intervals s ! ddp_N s))"
  using assms by (simp_all add: bp_start_def Let_def split_beta)

lemma backwardPass_Inr:
  assumes bp: "backwardPass la P s alpha = Inr s'"
    and len: "length (intervals s) = ddp_N s + 1"
  shows "length (intervals s') = length (intervals s)"
    and "ddp_mu s' = ddp_mu s" and "ddp_N s' = ddp_N s"
    and "intervals s' ! ddp_N s = intervals (bp_start P s) ! ddp_N s"
    and "\<And>k. k < ddp_N s \<Longrightarrow>
           knot_done la P (ddp_mu s) (intervals s ! k) (intervals s' ! k) (intervals s' ! Suc k)"
    and "ddp_V s' = it_V (intervals s' ! ddp_N s) + (\<Sum>k<ddp_N s. knot_l P (intervals s' ! k))"
    and "ddp_dV_exp s' =
           (\<Sum>k<ddp_N s. alpha * (alpha * jt_Quu_j (intervals s' ! k) + jt_Qu (intervals s' ! k)))"
proof -
  have loop: "bp_loop la P alpha (ddp_N (bp_start P s)) (bp_start P s) = Inr s'"
    using bp by (simp add: backwardPass_loop bp_start_simps)
  have n: "ddp_N (bp_start P s) < length (intervals (bp_start P s))"
    using len by (simp add: bp_start_simps)
  note L = bp_loop_Inr[OF loop n, unfolded bp_start_simps]
  show "length (intervals s') = length (intervals s)" using L by simp
  show "ddp_mu s' = ddp_mu s" using L by simp
  show "ddp_N s' = ddp_N s" using L by simp
  show trm: "intervals s' ! ddp_N s = intervals (bp_start P s) ! ddp_N s" using L by simp
  show "knot_done la P (ddp_mu s) (intervals s ! k) (intervals s' ! k) (intervals s' ! Suc k)"
    if "k < ddp_N s" for k
    using L that bp_start_simps(8)[of k s P] by auto
  have "ddp_N s < length (intervals s)" using len by simp
  from bp_start_terminal(1)[OF this, of P] show
    "ddp_V s' = it_V (intervals s' ! ddp_N s) + (\<Sum>k<ddp_N s. knot_l P (intervals s' ! k))"
    using L trm by simp
  show "ddp_dV_exp s' =
           (\<Sum>k<ddp_N s. alpha * (alpha * jt_Quu_j (intervals s' ! k) + jt_Qu (intervals s' ! k)))"
    using L by simp
qed

lemma knot_done_frame:
  assumes "knot_done la P mu it0 it nxt"
  shows "it_x it = it_x it0" "it_u it = it_u it0" "it_t0 it = it_t0 it0" "it_tf it = it_tf it0"
    "it_x_new it = it_x_new it0" "it_u_new it = it_u_new it0"
  using assms unfolding knot_done_def
  by (auto simp: knot_value_frame knot_gains_frame knot_Q_frame)

lemma knot_Q_fields:
  assumes "computeRunningTerms P (it_x it0) (it_u it0) = (l, lx, lu, lxx, luu, lux)"
    and "computeAllTerms P (it_x it0) (it_u it0) = (f, fx, fu)"
    and "dt = it_tf it0 - it_t0 it0"
    and "Fx = mat_add (smul dt fx) (eye (dyn_n P))" and "Fu = smul dt fu"
  shows "it_Qx (knot_Q P mu it0 nxt) = mat_add (smul dt lx) (mat_mul (mat_T Fx) (it_Vx nxt))"
    and "it_Qu (knot_Q P mu it0 nxt) = mat_add (smul dt lu) (mat_mul (mat_T Fu) (it_Vx nxt))"
    and "it_Qxx (knot_Q P mu it0 nxt) = mat_add (smul dt lxx) (mat_mul (mat_mul (mat_T Fx) (it_Vxx nxt)) Fx)"
    and "it_Quu (knot_Q P mu it0 nxt) = mat_add (smul dt luu) (mat_mul (mat_mul (mat_T Fu) (it_Vxx nxt)) Fu)"
    and "it_Qux (knot_Q P mu it0 nxt) = mat_add (smul dt lux) (mat_mul (mat_mul (mat_T Fu) (it_Vxx nxt)) Fx)"
    and "it_Quu_r (knot_Q P mu it0 nxt) =
           mat_add (it_Quu (knot_Q P mu it0 nxt)) (mat_mul (mat_mul (mat_T Fu) (smul mu (eye (dyn_n P)))) Fu)"
    and "it_Qux_r (knot_Q P mu it0 nxt) =
           mat_add (it_Qux (knot_Q P mu it0 nxt)) (mat_mul (mat_mul (mat_T Fu) (smul mu (eye (dyn_n P)))) Fx)"
  using assms by (simp_all add: knot_Q_def Let_def)

lemma knot_done_Q:
  assumes "knot_done la P mu it0 it nxt"
  shows "it_Qx it = it_Qx (knot_Q P mu it0 nxt)" "it_Qu it = it_Qu (knot_Q P mu it0 nxt)"
    "it_Qxx it = it_Qxx (knot_Q P mu it0 nxt)" "it_Quu it = it_Quu (knot_Q P mu it0 nxt)"
    "it_Qux it = it_Qux (knot_Q P mu it0 nxt)" "it_Quu_r it = it_Quu_r (knot_Q P mu it0 nxt)"
    "it_Qux_r it = it_Qux_r (knot_Q P mu it0 nxt)"
  using assms unfolding knot_done_def
  by (auto simp: knot_value_frame knot_gains_frame)

lemma knot_done_gains:
  assumes "knot_done la P mu it0 it nxt"
  shows "\<exists>L Li. np_cholesky la (it_Quu_r it) = Some L \<and> np_inv la L = Some Li
          \<and> it_K it = mat_mul (mat_neg (mat_mul (mat_T Li) Li)) (it_Qux_r it)
          \<and> it_j it = mat_mul (mat_neg (mat_mul (mat_T Li) Li)) (it_Qu it)"
proof -
  from assms obtain g where g: "knot_gains la (knot_Q P mu it0 nxt) = Some g" and it: "it = knot_value g"
    unfolding knot_done_def by blast
  from knot_gains_Some[OF g] obtain L Li where
    "np_cholesky la (it_Quu_r (knot_Q P mu it0 nxt)) = Some L" "np_inv la L = Some Li"
    "g = (knot_Q P mu it0 nxt)\<lparr>it_K := mat_mul (mat_neg (mat_mul (mat_T Li) Li)) (it_Qux_r (knot_Q P mu it0 nxt)),
                  it_j := mat_mul (mat_neg (mat_mul (mat_T Li) Li)) (it_Qu (knot_Q P mu it0 nxt))\<rparr>"
    by blast
  then show ?thesis
    by (intro exI[of _ L] exI[of _ Li]) (simp add: it knot_value_frame)
qed

lemma knot_done_value:
  assumes "knot_done la P mu it0 it nxt"
  shows "it_Vx it = mat_add (mat_add (mat_add (it_Qx it)
                     (mat_mul (mat_mul (mat_T (it_K it)) (it_Quu it)) (it_j it)))
                     (mat_mul (mat_T (it_K it)) (it_Qu it)))
                     (mat_mul (mat_T (it_Qux it)) (it_j it))"
    and "it_Vxx it = mat_add (mat_add (mat_add (it_Qxx it)
                     (mat_mul (mat_mul (mat_T (it_K it)) (it_Quu it)) (it_K it)))
                     (mat_mul (mat_T (it_K it)) (it_Qux it)))
                     (mat_mul (mat_T (it_Qux it)) (it_K it))"
  using assms unfolding knot_done_def by (auto simp: knot_value_def Let_def)

lemma jt_Quu_j_half:
  "jt_Quu_j it = 1 / 2 * as_scalar (mat_mul (mat_mul (mat_T (it_j it)) (it_Quu it)) (it_j it))"
  by (simp add: jt_Quu_j_def mat_mul_smul_left as_scalar_smul)


lemma regularization_term:
  assumes "wf_mat n m Fu" and "0 < n"
  shows "mat_mul (mat_mul (mat_T Fu) (smul mu (eye n))) B = smul mu (mat_mul (mat_T Fu) B)"
proof -
  have "wf_mat m n (mat_T Fu)" by (rule wf_mat_T[OF assms])
  then have "mat_mul (mat_T Fu) (smul mu (eye n)) = smul mu (mat_T Fu)"
    by (rule mat_mul_scaled_eye)
  then show ?thesis by (simp add: mat_mul_smul_left)
qed

lemma cholesky_inverse:
  assumes ch: "cholesky_contract la" and iv: "inv_contract la"
    and L: "np_cholesky la A = Some L" and Li: "np_inv la L = Some Li"
  shows "mat_mul (mat_mul (mat_T Li) Li) A = eye (length A)"
    and "mat_mul A (mat_mul (mat_T Li) Li) = eye (length A)"
proof -
  from ch L have wfL: "wf_mat (length A) (length A) L" and A: "mat_mul L (mat_T L) = A"
    by (auto simp: cholesky_contract_def)
  have lenL: "length L = length A" using wfL by (simp add: wf_mat_def)
  from iv Li wfL have wfLi: "wf_mat (length A) (length A) Li"
    and LiL: "mat_mul Li L = eye (length A)" and LLi: "mat_mul L Li = eye (length A)"
    unfolding inv_contract_def using lenL by metis+
  show "mat_mul (mat_mul (mat_T Li) Li) A = eye (length A)"
    using gram_inverse(1)[OF wfL wfLi LiL LLi] A by simp
  show "mat_mul A (mat_mul (mat_T Li) Li) = eye (length A)"
    using gram_inverse(2)[OF wfL wfLi LiL LLi] A by simp
qed


section \<open>The forward pass and the nominal trajectory\<close>

lemma same_nominal_refl: "same_nominal s s"
  by (simp add: same_nominal_def)

lemma same_nominal_trans: "same_nominal s s1 \<Longrightarrow> same_nominal s1 s2 \<Longrightarrow> same_nominal s s2"
  unfolding same_nominal_def by metis

lemma same_nominal_nth:
  "same_nominal s s' \<Longrightarrow> k < length (intervals s) \<Longrightarrow>
     it_x (intervals s' ! k) = it_x (intervals s ! k) \<and> it_u (intervals s' ! k) = it_u (intervals s ! k)"
  unfolding same_nominal_def by blast

lemma nth_update_field: "f v = f (xs ! k) \<Longrightarrow> f (xs[k := v] ! i) = f (xs ! i)"
  by (cases "i = k"; cases "k < length xs"; simp add: list_update_beyond)

lemma same_nominal_fp_knot: "same_nominal s (fp_knot P alpha k s)"
proof -
  have "it_x (intervals (fp_knot P alpha k s) ! i) = it_x (intervals s ! i)" for i
    by (simp add: fp_knot_def Let_def nth_update_field[where f = it_x])
  moreover have "it_u (intervals (fp_knot P alpha k s) ! i) = it_u (intervals s ! i)" for i
    by (simp add: fp_knot_def Let_def nth_update_field[where f = it_u])
  moreover have "length (intervals (fp_knot P alpha k s)) = length (intervals s)"
    "ddp_N (fp_knot P alpha k s) = ddp_N s" "ddp_V (fp_knot P alpha k s) = ddp_V s"
    "ddp_dV_exp (fp_knot P alpha k s) = ddp_dV_exp s"
    "change_lb (fp_knot P alpha k s) = change_lb s" "change_ub (fp_knot P alpha k s) = change_ub s"
    by (simp_all add: fp_knot_def Let_def)
  ultimately show ?thesis
    unfolding same_nominal_def by blast
qed

lemma same_nominal_fold_fp_knot: "same_nominal s (fold (fp_knot P alpha) [0..<n] s)"
proof (induction n)
  case 0
  then show ?case by (simp add: same_nominal_refl)
next
  case (Suc n)
  show ?case
    using same_nominal_trans[OF Suc same_nominal_fp_knot[of "fold (fp_knot P alpha) [0..<n] s" P alpha n]]
    by simp
qed

lemma fp_rollout_nominal:
  assumes "k < ddp_N s" and "ddp_N s < length (intervals s)"
  shows "it_x (intervals (fp_rollout P s alpha) ! k) = it_x (intervals s ! k)"
    and "it_u (intervals (fp_rollout P s alpha) ! k) = it_u (intervals s ! k)"
proof -
  let ?s0 = "s\<lparr>intervals := (intervals s)[0 := (intervals s ! 0)\<lparr>it_x_new := it_x (intervals s ! 0)\<rparr>],
               ddp_V_new := 0\<rparr>"
  let ?s1 = "fold (fp_knot P alpha) [0..<ddp_N s] ?s0"
  have a: "same_nominal s ?s0"
    by (simp add: same_nominal_def nth_update_field[where f = it_x]
        nth_update_field[where f = it_u])
  have b: "same_nominal ?s0 ?s1"
    using same_nominal_fold_fp_knot[of ?s0 P alpha "ddp_N s"] by simp
  note c = same_nominal_trans[OF a b]
  have N1: "ddp_N ?s1 = ddp_N s" using c by (simp add: same_nominal_def)
  have r: "intervals (fp_rollout P s alpha) ! k = intervals ?s1 ! k"
    using assms(1) by (simp add: fp_rollout_def Let_def N1)
  have k: "k < length (intervals s)" using assms by simp
  show "it_x (intervals (fp_rollout P s alpha) ! k) = it_x (intervals s ! k)"
    using same_nominal_nth[OF c k] r by simp
  show "it_u (intervals (fp_rollout P s alpha) ! k) = it_u (intervals s ! k)"
    using same_nominal_nth[OF c k] r by simp
qed

lemma fp_rollout_scalars:
  "ddp_N (fp_rollout P s alpha) = ddp_N s" "ddp_V (fp_rollout P s alpha) = ddp_V s"
  "ddp_dV_exp (fp_rollout P s alpha) = ddp_dV_exp s"
  "change_lb (fp_rollout P s alpha) = change_lb s" "change_ub (fp_rollout P s alpha) = change_ub s"
  "length (intervals (fp_rollout P s alpha)) = length (intervals s)"
proof -
  let ?s0 = "s\<lparr>intervals := (intervals s)[0 := (intervals s ! 0)\<lparr>it_x_new := it_x (intervals s ! 0)\<rparr>],
               ddp_V_new := 0\<rparr>"
  have "same_nominal ?s0 (fold (fp_knot P alpha) [0..<ddp_N s] ?s0)"
    by (rule same_nominal_fold_fp_knot)
  then show "ddp_N (fp_rollout P s alpha) = ddp_N s" "ddp_V (fp_rollout P s alpha) = ddp_V s"
    "ddp_dV_exp (fp_rollout P s alpha) = ddp_dV_exp s"
    "change_lb (fp_rollout P s alpha) = change_lb s" "change_ub (fp_rollout P s alpha) = change_ub s"
    "length (intervals (fp_rollout P s alpha)) = length (intervals s)"
    by (simp_all add: fp_rollout_def Let_def same_nominal_def)
qed

lemma fold_commit_knot:
  assumes "n \<le> length (intervals s)"
  shows "ddp_V_new (fold commit_knot [0..<n] s) = ddp_V_new s
     \<and> length (intervals (fold commit_knot [0..<n] s)) = length (intervals s)
     \<and> (\<forall>k<n. it_x (intervals (fold commit_knot [0..<n] s) ! k) = it_x_new (intervals s ! k)
             \<and> it_u (intervals (fold commit_knot [0..<n] s) ! k) = it_u_new (intervals s ! k)
             \<and> it_x_new (intervals (fold commit_knot [0..<n] s) ! k) = it_x_new (intervals s ! k)
             \<and> it_u_new (intervals (fold commit_knot [0..<n] s) ! k) = it_u_new (intervals s ! k))
     \<and> (\<forall>k\<ge>n. intervals (fold commit_knot [0..<n] s) ! k = intervals s ! k)"
  using assms
proof (induction n)
  case 0
  then show ?case by simp
next
  case (Suc n)
  let ?t = "fold commit_knot [0..<n] s"
  have IH: "ddp_V_new ?t = ddp_V_new s" "length (intervals ?t) = length (intervals s)"
    "\<And>k. k < n \<Longrightarrow> it_x (intervals ?t ! k) = it_x_new (intervals s ! k)
             \<and> it_u (intervals ?t ! k) = it_u_new (intervals s ! k)
             \<and> it_x_new (intervals ?t ! k) = it_x_new (intervals s ! k)
             \<and> it_u_new (intervals ?t ! k) = it_u_new (intervals s ! k)"
    "\<And>k. n \<le> k \<Longrightarrow> intervals ?t ! k = intervals s ! k"
    using Suc by simp_all
  have n: "n < length (intervals ?t)" using Suc.prems IH(2) by simp
  have step: "fold commit_knot [0..<Suc n] s = commit_knot n ?t" by simp
  show ?case
    unfolding step using n IH
    by (auto simp: commit_knot_def Let_def nth_list_update less_Suc_eq)
qed


lemma trial_cost_cong:
  "it_x_new a = it_x_new b \<Longrightarrow> it_u_new a = it_u_new b \<Longrightarrow> it_tf a = it_tf b \<Longrightarrow> it_t0 a = it_t0 b
   \<Longrightarrow> trial_cost P a = trial_cost P b"
  by (simp add: trial_cost_def)

lemma fp_knot_effect:
  assumes "Suc n < length (intervals s)"
  shows "length (intervals (fp_knot P alpha n s)) = length (intervals s)"
    and "\<And>k. k \<noteq> n \<Longrightarrow> k \<noteq> Suc n \<Longrightarrow> intervals (fp_knot P alpha n s) ! k = intervals s ! k"
    and "it_x_new (intervals (fp_knot P alpha n s) ! n) = it_x_new (intervals s ! n)"
    and "it_tf (intervals (fp_knot P alpha n s) ! k) = it_tf (intervals s ! k)"
    and "it_t0 (intervals (fp_knot P alpha n s) ! k) = it_t0 (intervals s ! k)"
    and "ddp_V_new (fp_knot P alpha n s) = ddp_V_new s + trial_cost P (intervals (fp_knot P alpha n s) ! n)"
    and "ddp_N (fp_knot P alpha n s) = ddp_N s"
proof -
  show "length (intervals (fp_knot P alpha n s)) = length (intervals s)"
    by (simp add: fp_knot_def Let_def)
  show "intervals (fp_knot P alpha n s) ! k = intervals s ! k" if "k \<noteq> n" "k \<noteq> Suc n" for k
    using that by (simp add: fp_knot_def Let_def)
  show "it_x_new (intervals (fp_knot P alpha n s) ! n) = it_x_new (intervals s ! n)"
    using assms by (simp add: fp_knot_def Let_def)
  show "it_tf (intervals (fp_knot P alpha n s) ! k) = it_tf (intervals s ! k)"
    by (simp add: fp_knot_def Let_def nth_update_field[where f = it_tf])
  show "it_t0 (intervals (fp_knot P alpha n s) ! k) = it_t0 (intervals s ! k)"
    by (simp add: fp_knot_def Let_def nth_update_field[where f = it_t0])
  show "ddp_V_new (fp_knot P alpha n s) = ddp_V_new s + trial_cost P (intervals (fp_knot P alpha n s) ! n)"
    using assms by (simp add: fp_knot_def Let_def trial_cost_def)
  show "ddp_N (fp_knot P alpha n s) = ddp_N s"
    by (simp add: fp_knot_def Let_def)
qed

lemma fold_fp_knot_V_new:
  assumes "n < length (intervals s)"
  shows "length (intervals (fold (fp_knot P alpha) [0..<n] s)) = length (intervals s)
     \<and> ddp_V_new (fold (fp_knot P alpha) [0..<n] s)
         = ddp_V_new s + (\<Sum>k<n. trial_cost P (intervals (fold (fp_knot P alpha) [0..<n] s) ! k))
     \<and> (\<forall>k>n. intervals (fold (fp_knot P alpha) [0..<n] s) ! k = intervals s ! k)"
  using assms
proof (induction n)
  case 0
  then show ?case by simp
next
  case (Suc n)
  let ?t = "fold (fp_knot P alpha) [0..<n] s"
  let ?t' = "fp_knot P alpha n ?t"
  have IH: "length (intervals ?t) = length (intervals s)"
    "ddp_V_new ?t = ddp_V_new s + (\<Sum>k<n. trial_cost P (intervals ?t ! k))"
    "\<And>k. n < k \<Longrightarrow> intervals ?t ! k = intervals s ! k"
    using Suc by simp_all
  have n: "Suc n < length (intervals ?t)" using Suc.prems IH(1) by simp
  note E = fp_knot_effect[OF n, where P = P and alpha = alpha]
  have step: "fold (fp_knot P alpha) [0..<Suc n] s = ?t'" by simp
  have same: "trial_cost P (intervals ?t' ! k) = trial_cost P (intervals ?t ! k)" if "k < n" for k
    using E(2)[of k] that by simp
  have "ddp_V_new ?t' = ddp_V_new s + (\<Sum>k<n. trial_cost P (intervals ?t ! k))
                         + trial_cost P (intervals ?t' ! n)"
    using E(6) IH(2) by simp
  also have "(\<Sum>k<n. trial_cost P (intervals ?t ! k)) = (\<Sum>k<n. trial_cost P (intervals ?t' ! k))"
    by (rule sum.cong) (simp_all add: same)
  finally have V: "ddp_V_new ?t' = ddp_V_new s + (\<Sum>k<Suc n. trial_cost P (intervals ?t' ! k))"
    by simp
  have above: "intervals ?t' ! k = intervals s ! k" if "Suc n < k" for k
    using E(2)[of k] IH(3)[of k] that by simp
  show ?case
    unfolding step using E(1) IH(1) V above by simp
qed

lemma fold_commit_knot_frame:
  "ddp_V_new (fold commit_knot [0..<n] s) = ddp_V_new s
   \<and> (\<forall>k. it_x_new (intervals (fold commit_knot [0..<n] s) ! k) = it_x_new (intervals s ! k)
         \<and> it_u_new (intervals (fold commit_knot [0..<n] s) ! k) = it_u_new (intervals s ! k)
         \<and> it_tf (intervals (fold commit_knot [0..<n] s) ! k) = it_tf (intervals s ! k)
         \<and> it_t0 (intervals (fold commit_knot [0..<n] s) ! k) = it_t0 (intervals s ! k))"
proof (induction n)
  case 0
  then show ?case by simp
next
  case (Suc n)
  have "it_x_new (intervals (commit_knot n t) ! k) = it_x_new (intervals t ! k)
      \<and> it_u_new (intervals (commit_knot n t) ! k) = it_u_new (intervals t ! k)
      \<and> it_tf (intervals (commit_knot n t) ! k) = it_tf (intervals t ! k)
      \<and> it_t0 (intervals (commit_knot n t) ! k) = it_t0 (intervals t ! k)
      \<and> ddp_V_new (commit_knot n t) = ddp_V_new t" for t k
    by (simp add: commit_knot_def Let_def nth_update_field[where f = it_x_new]
        nth_update_field[where f = it_u_new] nth_update_field[where f = it_tf]
        nth_update_field[where f = it_t0])
  then show ?case using Suc by simp
qed



subsection \<open>The trial trajectory\<close>

lemma fp_knot_writes:
  assumes "Suc n < length (intervals s)"
  shows "it_u_new (intervals (fp_knot P alpha n s) ! n) =
           mat_add (mat_add (it_u (intervals s ! n)) (smul alpha (it_j (intervals s ! n))))
                   (mat_mul (it_K (intervals s ! n))
                            (mat_sub (it_x_new (intervals s ! n)) (it_x (intervals s ! n))))"
    and "it_x_new (intervals (fp_knot P alpha n s) ! Suc n) =
           integrator_integrate P (it_x_new (intervals s ! n))
             (it_u_new (intervals (fp_knot P alpha n s) ! n))
             (it_tf (intervals s ! n) - it_t0 (intervals s ! n))"
    and "\<And>k. k \<noteq> Suc n \<Longrightarrow> it_x_new (intervals (fp_knot P alpha n s) ! k) = it_x_new (intervals s ! k)"
    and "\<And>k. k \<noteq> n \<Longrightarrow> it_u_new (intervals (fp_knot P alpha n s) ! k) = it_u_new (intervals s ! k)"
    and "it_u (intervals (fp_knot P alpha n s) ! k) = it_u (intervals s ! k)"
    and "it_x (intervals (fp_knot P alpha n s) ! k) = it_x (intervals s ! k)"
    and "it_j (intervals (fp_knot P alpha n s) ! k) = it_j (intervals s ! k)"
    and "it_K (intervals (fp_knot P alpha n s) ! k) = it_K (intervals s ! k)"
proof -
  have n: "n < length (intervals s)" using assms by simp
  show "it_u_new (intervals (fp_knot P alpha n s) ! n) =
           mat_add (mat_add (it_u (intervals s ! n)) (smul alpha (it_j (intervals s ! n))))
                   (mat_mul (it_K (intervals s ! n))
                            (mat_sub (it_x_new (intervals s ! n)) (it_x (intervals s ! n))))"
    using n by (simp add: fp_knot_def Let_def)
  show "it_x_new (intervals (fp_knot P alpha n s) ! Suc n) =
           integrator_integrate P (it_x_new (intervals s ! n))
             (it_u_new (intervals (fp_knot P alpha n s) ! n))
             (it_tf (intervals s ! n) - it_t0 (intervals s ! n))"
    using assms n by (simp add: fp_knot_def Let_def)
  show "it_x_new (intervals (fp_knot P alpha n s) ! k) = it_x_new (intervals s ! k)" if "k \<noteq> Suc n" for k
    using that n by (cases "k = n") (simp_all add: fp_knot_def Let_def)
  show "it_u_new (intervals (fp_knot P alpha n s) ! k) = it_u_new (intervals s ! k)" if "k \<noteq> n" for k
    using that assms by (cases "k = Suc n") (simp_all add: fp_knot_def Let_def)
  show "it_u (intervals (fp_knot P alpha n s) ! k) = it_u (intervals s ! k)"
    by (simp add: fp_knot_def Let_def nth_update_field[where f = it_u])
  show "it_x (intervals (fp_knot P alpha n s) ! k) = it_x (intervals s ! k)"
    by (simp add: fp_knot_def Let_def nth_update_field[where f = it_x])
  show "it_j (intervals (fp_knot P alpha n s) ! k) = it_j (intervals s ! k)"
    by (simp add: fp_knot_def Let_def nth_update_field[where f = it_j])
  show "it_K (intervals (fp_knot P alpha n s) ! k) = it_K (intervals s ! k)"
    by (simp add: fp_knot_def Let_def nth_update_field[where f = it_K])
qed

text \<open>The roll-out of the first \<open>n\<close> knots: every trial control is the nominal control
  plus the feed-forward and feedback corrections at the trial state, and every trial
  state after the first is the integrator's step from the trial state and control
  before it.\<close>

lemma fold_fp_knot_trial:
  assumes "n < length (intervals s)"
  shows "length (intervals (fold (fp_knot P alpha) [0..<n] s)) = length (intervals s)
     \<and> (\<forall>k<n. it_u_new (intervals (fold (fp_knot P alpha) [0..<n] s) ! k) =
               mat_add (mat_add (it_u (intervals s ! k)) (smul alpha (it_j (intervals s ! k))))
                 (mat_mul (it_K (intervals s ! k))
                    (mat_sub (it_x_new (intervals (fold (fp_knot P alpha) [0..<n] s) ! k))
                             (it_x (intervals s ! k))))
             \<and> it_x_new (intervals (fold (fp_knot P alpha) [0..<n] s) ! Suc k) =
               integrator_integrate P (it_x_new (intervals (fold (fp_knot P alpha) [0..<n] s) ! k))
                 (it_u_new (intervals (fold (fp_knot P alpha) [0..<n] s) ! k))
                 (it_tf (intervals s ! k) - it_t0 (intervals s ! k)))
     \<and> it_x_new (intervals (fold (fp_knot P alpha) [0..<n] s) ! 0) = it_x_new (intervals s ! 0)
     \<and> (\<forall>k. it_u (intervals (fold (fp_knot P alpha) [0..<n] s) ! k) = it_u (intervals s ! k)
           \<and> it_x (intervals (fold (fp_knot P alpha) [0..<n] s) ! k) = it_x (intervals s ! k)
           \<and> it_j (intervals (fold (fp_knot P alpha) [0..<n] s) ! k) = it_j (intervals s ! k)
           \<and> it_K (intervals (fold (fp_knot P alpha) [0..<n] s) ! k) = it_K (intervals s ! k)
           \<and> it_tf (intervals (fold (fp_knot P alpha) [0..<n] s) ! k) = it_tf (intervals s ! k)
           \<and> it_t0 (intervals (fold (fp_knot P alpha) [0..<n] s) ! k) = it_t0 (intervals s ! k))"
  using assms
proof (induction n)
  case 0
  then show ?case by simp
next
  case (Suc n)
  let ?t = "fold (fp_knot P alpha) [0..<n] s"
  let ?t' = "fp_knot P alpha n ?t"
  let ?U = "\<lambda>k x. mat_add (mat_add (it_u (intervals s ! k)) (smul alpha (it_j (intervals s ! k))))
                 (mat_mul (it_K (intervals s ! k)) (mat_sub x (it_x (intervals s ! k))))"
  have IH: "length (intervals ?t) = length (intervals s)"
    "\<And>k. k < n \<Longrightarrow> it_u_new (intervals ?t ! k) = ?U k (it_x_new (intervals ?t ! k))"
    "\<And>k. k < n \<Longrightarrow> it_x_new (intervals ?t ! Suc k) =
               integrator_integrate P (it_x_new (intervals ?t ! k)) (it_u_new (intervals ?t ! k))
                 (it_tf (intervals s ! k) - it_t0 (intervals s ! k))"
    "it_x_new (intervals ?t ! 0) = it_x_new (intervals s ! 0)"
    "\<And>k. it_u (intervals ?t ! k) = it_u (intervals s ! k)"
    "\<And>k. it_x (intervals ?t ! k) = it_x (intervals s ! k)"
    "\<And>k. it_j (intervals ?t ! k) = it_j (intervals s ! k)"
    "\<And>k. it_K (intervals ?t ! k) = it_K (intervals s ! k)"
    "\<And>k. it_tf (intervals ?t ! k) = it_tf (intervals s ! k)"
    "\<And>k. it_t0 (intervals ?t ! k) = it_t0 (intervals s ! k)"
    using Suc by simp_all
  have n: "Suc n < length (intervals ?t)" using Suc.prems IH(1) by simp
  note E = fp_knot_effect[OF n, where P = P and alpha = alpha]
  note W = fp_knot_writes[OF n, where P = P and alpha = alpha]
  have step: "fold (fp_knot P alpha) [0..<Suc n] s = ?t'" by simp
  have len: "length (intervals ?t') = length (intervals s)" using E(1) IH(1) by simp
  have xn: "it_x_new (intervals ?t' ! k) = it_x_new (intervals ?t ! k)" if "k \<le> n" for k
    using W(3)[of k] that by simp
  have un: "it_u_new (intervals ?t' ! k) = it_u_new (intervals ?t ! k)" if "k < n" for k
    using W(4)[of k] that by simp
  have u: "it_u_new (intervals ?t' ! k) = ?U k (it_x_new (intervals ?t' ! k))" if "k < Suc n" for k
  proof (cases "k = n")
    case True
    show ?thesis unfolding True using W(1) xn[of n] IH(5-8) by simp
  next
    case False
    then have k: "k < n" using that by simp
    show ?thesis using IH(2)[OF k] un[OF k] xn[of k] k by simp
  qed
  have x: "it_x_new (intervals ?t' ! Suc k) =
               integrator_integrate P (it_x_new (intervals ?t' ! k)) (it_u_new (intervals ?t' ! k))
                 (it_tf (intervals s ! k) - it_t0 (intervals s ! k))" if "k < Suc n" for k
  proof (cases "k = n")
    case True
    show ?thesis unfolding True using W(2) xn[of n] IH(9,10) by simp
  next
    case False
    then have k: "k < n" using that by simp
    show ?thesis using IH(3)[OF k] un[OF k] xn[of k] xn[of "Suc k"] k by simp
  qed
  have x0: "it_x_new (intervals ?t' ! 0) = it_x_new (intervals s ! 0)"
    using xn[of 0] IH(4) by simp
  have fr: "it_u (intervals ?t' ! k) = it_u (intervals s ! k)
           \<and> it_x (intervals ?t' ! k) = it_x (intervals s ! k)
           \<and> it_j (intervals ?t' ! k) = it_j (intervals s ! k)
           \<and> it_K (intervals ?t' ! k) = it_K (intervals s ! k)
           \<and> it_tf (intervals ?t' ! k) = it_tf (intervals s ! k)
           \<and> it_t0 (intervals ?t' ! k) = it_t0 (intervals s ! k)" for k
    using W(5-8)[of k] E(4,5)[of k] IH(5-10)[of k] by simp
  show ?case
    unfolding step using len u x x0 fr by blast
qed

lemma fp_rollout_trial:
  assumes "length (intervals s) = ddp_N s + 1"
  shows "it_x_new (intervals (fp_rollout P s alpha) ! 0) = it_x (intervals s ! 0)"
    and "\<And>k. k < ddp_N s \<Longrightarrow>
           it_u_new (intervals (fp_rollout P s alpha) ! k) =
             mat_add (mat_add (it_u (intervals s ! k)) (smul alpha (it_j (intervals s ! k))))
               (mat_mul (it_K (intervals s ! k))
                  (mat_sub (it_x_new (intervals (fp_rollout P s alpha) ! k)) (it_x (intervals s ! k))))"
    and "\<And>k. k < ddp_N s \<Longrightarrow>
           it_x_new (intervals (fp_rollout P s alpha) ! Suc k) =
             integrator_integrate P (it_x_new (intervals (fp_rollout P s alpha) ! k))
               (it_u_new (intervals (fp_rollout P s alpha) ! k))
               (it_tf (intervals s ! k) - it_t0 (intervals s ! k))"
proof -
  let ?s0 = "s\<lparr>intervals := (intervals s)[0 := (intervals s ! 0)\<lparr>it_x_new := it_x (intervals s ! 0)\<rparr>],
               ddp_V_new := 0\<rparr>"
  let ?t = "fold (fp_knot P alpha) [0..<ddp_N s] ?s0"
  let ?r = "fp_rollout P s alpha"
  have n: "ddp_N s < length (intervals ?s0)" using assms by simp
  note F = fold_fp_knot_trial[OF n, where P = P and alpha = alpha]
  have Nt: "ddp_N ?t = ddp_N s"
    using same_nominal_fold_fp_knot[of ?s0 P alpha "ddp_N s"] by (simp add: same_nominal_def)
  have lt: "length (intervals ?t) = ddp_N s + 1" using F assms by simp
  have xn: "it_x_new (intervals ?r ! k) = it_x_new (intervals ?t ! k)" for k
    by (simp add: fp_rollout_def Let_def Nt nth_update_field[where f = it_x_new])
  have un: "it_u_new (intervals ?r ! k) = it_u_new (intervals ?t ! k)" for k
    by (simp add: fp_rollout_def Let_def Nt nth_update_field[where f = it_u_new])
  have s0: "it_u (intervals ?s0 ! k) = it_u (intervals s ! k)"
    "it_x (intervals ?s0 ! k) = it_x (intervals s ! k)"
    "it_j (intervals ?s0 ! k) = it_j (intervals s ! k)"
    "it_K (intervals ?s0 ! k) = it_K (intervals s ! k)"
    "it_tf (intervals ?s0 ! k) = it_tf (intervals s ! k)"
    "it_t0 (intervals ?s0 ! k) = it_t0 (intervals s ! k)" for k
    by (simp_all add: nth_update_field[where f = it_u] nth_update_field[where f = it_x]
        nth_update_field[where f = it_j] nth_update_field[where f = it_K]
        nth_update_field[where f = it_tf] nth_update_field[where f = it_t0])
  have x00: "it_x_new (intervals ?s0 ! 0) = it_x (intervals s ! 0)"
    using assms by simp
  show "it_x_new (intervals ?r ! 0) = it_x (intervals s ! 0)"
    using F x00 xn[of 0] by simp
  show "it_u_new (intervals ?r ! k) =
             mat_add (mat_add (it_u (intervals s ! k)) (smul alpha (it_j (intervals s ! k))))
               (mat_mul (it_K (intervals s ! k))
                  (mat_sub (it_x_new (intervals ?r ! k)) (it_x (intervals s ! k))))" if "k < ddp_N s" for k
    using F that s0[of k] unfolding xn un by simp
  show "it_x_new (intervals ?r ! Suc k) =
             integrator_integrate P (it_x_new (intervals ?r ! k)) (it_u_new (intervals ?r ! k))
               (it_tf (intervals s ! k) - it_t0 (intervals s ! k))" if "k < ddp_N s" for k
    using F that s0[of k] unfolding xn un by simp
qed
section \<open>The acceptance test on binary64 values\<close>

lemma f64_lt_PInf_left: "\<not> f64_lt PInf v"
  by (cases v) simp_all

lemma f64_lt_NInf_right: "\<not> f64_lt v NInf"
  by (cases v) simp_all

lemma f64_lt_NaN: "\<not> f64_lt NaN v" "\<not> f64_lt v NaN"
  by (cases v; simp)+

lemma f64_add_nonfinite:
  assumes "\<not> f64_finite a"
  shows "\<not> f64_finite (f64_add a b)"
  using assms by (cases a; cases b) simp_all

lemma f64_div_nonfinite:
  assumes "\<not> f64_finite a"
  shows "\<not> f64_finite (f64_div a b)"
  using assms by (cases a; cases b) simp_all

lemma nonfinite_not_between:
  assumes "\<not> f64_finite z"
  shows "\<not> (f64_lt lb z \<and> f64_lt z ub)"
  using assms f64_lt_PInf_left f64_lt_NInf_right f64_lt_NaN by (cases z) simp_all

lemma nonfinite_V_new_rejected:
  assumes "\<not> f64_finite (ddp64_V_new s)"
  shows "\<not> accepted64 s"
proof -
  have "\<not> f64_finite (z_ratio64 s)"
    unfolding z_ratio64_def f64_sub_def
    by (rule f64_div_nonfinite, rule f64_add_nonfinite, rule assms)
  then show ?thesis
    unfolding accepted64_def by (rule nonfinite_not_between)
qed

lemma fold_commit_knot64:
  assumes "n \<le> length (intervals64 s)"
  shows "ddp64_V_new (fold commit_knot64 [0..<n] s) = ddp64_V_new s
     \<and> length (intervals64 (fold commit_knot64 [0..<n] s)) = length (intervals64 s)
     \<and> (\<forall>k<n. it64_x (intervals64 (fold commit_knot64 [0..<n] s) ! k) = it64_x_new (intervals64 s ! k)
             \<and> it64_u (intervals64 (fold commit_knot64 [0..<n] s) ! k) = it64_u_new (intervals64 s ! k))
     \<and> (\<forall>k. it64_x_new (intervals64 (fold commit_knot64 [0..<n] s) ! k) = it64_x_new (intervals64 s ! k)
           \<and> it64_u_new (intervals64 (fold commit_knot64 [0..<n] s) ! k) = it64_u_new (intervals64 s ! k)
           \<and> it64_Qu (intervals64 (fold commit_knot64 [0..<n] s) ! k) = it64_Qu (intervals64 s ! k)
           \<and> it64_Quu_r (intervals64 (fold commit_knot64 [0..<n] s) ! k) = it64_Quu_r (intervals64 s ! k))
     \<and> (\<forall>k\<ge>n. intervals64 (fold commit_knot64 [0..<n] s) ! k = intervals64 s ! k)"
  using assms
proof (induction n)
  case 0
  then show ?case by simp
next
  case (Suc n)
  let ?t = "fold commit_knot64 [0..<n] s"
  have IH: "ddp64_V_new ?t = ddp64_V_new s" "length (intervals64 ?t) = length (intervals64 s)"
    "\<And>k. k < n \<Longrightarrow> it64_x (intervals64 ?t ! k) = it64_x_new (intervals64 s ! k)
             \<and> it64_u (intervals64 ?t ! k) = it64_u_new (intervals64 s ! k)"
    "\<And>k. it64_x_new (intervals64 ?t ! k) = it64_x_new (intervals64 s ! k)
           \<and> it64_u_new (intervals64 ?t ! k) = it64_u_new (intervals64 s ! k)
           \<and> it64_Qu (intervals64 ?t ! k) = it64_Qu (intervals64 s ! k)
           \<and> it64_Quu_r (intervals64 ?t ! k) = it64_Quu_r (intervals64 s ! k)"
    "\<And>k. n \<le> k \<Longrightarrow> intervals64 ?t ! k = intervals64 s ! k"
    using Suc by simp_all
  have n: "n < length (intervals64 ?t)" using Suc.prems IH(2) by simp
  have step: "fold commit_knot64 [0..<Suc n] s = commit_knot64 n ?t" by simp
  show ?case
    unfolding step using n IH
    by (auto simp: commit_knot64_def Let_def nth_list_update less_Suc_eq)
qed

text \<open>
  On finite values, when the difference and the quotient of line 227 are computed without
  rounding, the test on binary64 values is the test of the real-number model; with
  \<open>dV_exp = 0\<close> the quotient is infinite or not a number and both reject.
\<close>

lemma accepted64_to64:
  assumes "round64 (ddp_V_new s - ddp_V s) = Fin (ddp_V_new s - ddp_V s)"
    and "ddp_dV_exp s \<noteq> 0 \<Longrightarrow> round64 (z_ratio s) = Fin (z_ratio s)"
  shows "accepted64 (to64 s) \<longleftrightarrow> accepted s"
proof (cases "ddp_dV_exp s = 0")
  case True
  have "\<not> f64_finite (z_ratio64 (to64 s))"
    using True assms(1) by (simp add: z_ratio64_def to64_def f64_sub_def)
  then have "\<not> accepted64 (to64 s)"
    unfolding accepted64_def by (rule nonfinite_not_between)
  then show ?thesis using True by (simp add: accepted_def)
next
  case False
  have "z_ratio64 (to64 s) = Fin (z_ratio s)"
    using False assms by (simp add: z_ratio64_def to64_def f64_sub_def z_ratio_def)
  then show ?thesis using False by (simp add: accepted64_def accepted_def to64_def)
qed

lemma to64_commit_knot: "to64 (commit_knot k s) = commit_knot64 k (to64 s)"
proof (cases "k < length (intervals s)")
  case True
  then show ?thesis by (simp add: to64_def commit_knot_def commit_knot64_def Let_def map_update)
next
  case False
  then show ?thesis
    by (simp add: to64_def commit_knot_def commit_knot64_def Let_def list_update_beyond)
qed

lemma to64_fold_commit_knot: "to64 (fold commit_knot ks s) = fold commit_knot64 ks (to64 s)"
  by (induction ks arbitrary: s) (simp_all add: to64_commit_knot)

lemma forwardPass_to64:
  assumes "r = fp_rollout P s alpha"
    and "round64 (ddp_V_new r - ddp_V r) = Fin (ddp_V_new r - ddp_V r)"
    and "ddp_dV_exp r \<noteq> 0 \<Longrightarrow> round64 (z_ratio r) = Fin (z_ratio r)"
  shows "to64 (forwardPass P s alpha) = check_changes64 (to64 r)"
proof -
  have N: "ddp64_N (to64 r) = ddp_N r" by (simp add: to64_def)
  show ?thesis
    using accepted64_to64[OF assms(2,3)] assms(1) N
    by (simp add: forwardPass_def check_changes64_def Let_def to64_fold_commit_knot)
qed

section \<open>Facts about the differential action model\<close>

lemma add_diag_steps:
  assumes "wf_mat n n M" and "k \<le> n"
  shows "wf_mat n n (fold (\<lambda>i M. M[i := (M ! i)[i := M ! i ! i + a ! i]]) [0..<k] M)
     \<and> (\<forall>i<n. \<forall>j<n. fold (\<lambda>i M. M[i := (M ! i)[i := M ! i ! i + a ! i]]) [0..<k] M ! i ! j
                      = M ! i ! j + (if i = j \<and> i < k then a ! i else 0))"
  using assms(2)
proof (induction k)
  case 0
  then show ?case using assms(1) by simp
next
  case (Suc k)
  let ?F = "fold (\<lambda>i M. M[i := (M ! i)[i := M ! i ! i + a ! i]]) [0..<k] M"
  have IH: "wf_mat n n ?F" "\<And>i j. i < n \<Longrightarrow> j < n \<Longrightarrow> ?F ! i ! j = M ! i ! j + (if i = j \<and> i < k then a ! i else 0)"
    using Suc by simp_all
  have k: "k < n" using Suc.prems by simp
  have step: "fold (\<lambda>i M. M[i := (M ! i)[i := M ! i ! i + a ! i]]) [0..<Suc k] M
      = ?F[k := (?F ! k)[k := ?F ! k ! k + a ! k]]"
    by simp
  have lenF: "length ?F = n" and rowF: "\<And>i. i < n \<Longrightarrow> length (?F ! i) = n"
    using IH(1) by (simp_all add: wf_mat_def list_all_length)
  have "length ((?F[k := (?F ! k)[k := ?F ! k ! k + a ! k]]) ! i) = n" if "i < n" for i
    using that lenF rowF[of i] rowF[of k] k by (cases "i = k") simp_all
  then have wf': "wf_mat n n (?F[k := (?F ! k)[k := ?F ! k ! k + a ! k]])"
    using lenF by (simp add: wf_mat_def list_all_length)
  have "?F[k := (?F ! k)[k := ?F ! k ! k + a ! k]] ! i ! j
        = M ! i ! j + (if i = j \<and> i < Suc k then a ! i else 0)" if "i < n" "j < n" for i j
    using that k lenF rowF IH(2) by (auto simp: nth_list_update less_Suc_eq)
  then show ?case using wf' unfolding step by blast
qed

lemma wf_diag_mat: "wf_mat (length a) (length a) (diag_mat a)"
  by (simp add: wf_mat_def diag_mat_def list_all_length)

lemma add_diag_is_sum:
  assumes "wf_mat n n M" and "length a = n"
  shows "add_diag n M a = mat_add M (diag_mat a)"
proof (rule mat_eqI[where r = n and c = n])
  note S = add_diag_steps[OF assms(1) order_refl, of a]
  show "wf_mat n n (add_diag n M a)" using S by (simp add: add_diag_def)
  have D: "wf_mat n n (diag_mat a)" using wf_diag_mat[of a] assms(2) by simp
  show "wf_mat n n (mat_add M (diag_mat a))" by (rule wf_mat_add[OF assms(1) D])
  fix i j assume ij: "i < n" "j < n"
  have "add_diag n M a ! i ! j = M ! i ! j + (if i = j then a ! i else 0)"
    using S ij by (simp add: add_diag_def)
  also have "\<dots> = mat_add M (diag_mat a) ! i ! j"
    using mat_add_nth[OF assms(1) D ij] ij assms(2) by (simp add: diag_mat_def)
  finally show "add_diag n M a ! i ! j = mat_add M (diag_mat a) ! i ! j" .
qed

lemma mat_add_zeros:
  assumes "wf_mat r c M" shows "mat_add M (zeros r c) = M"
proof (rule mat_eqI[where r = r and c = c])
  have Z: "wf_mat r c (zeros r c)" by (simp add: wf_mat_def zeros_def list_all_length)
  show "wf_mat r c (mat_add M (zeros r c))" by (rule wf_mat_add[OF assms Z])
  show "wf_mat r c M" by (rule assms)
  fix i j assume "i < r" "j < c"
  then show "mat_add M (zeros r c) ! i ! j = M ! i ! j"
    using mat_add_nth[OF assms Z, of i j] by (simp add: zeros_def)
qed

lemma effective_mass_matrix:
  assumes "wf_mat (pin_nv pin) (pin_nv pin) M"
    and "case pin_armature pin of None \<Rightarrow> True | Some a \<Rightarrow> length a = pin_nv pin"
  shows "(case pin_armature pin of None \<Rightarrow> M | Some a \<Rightarrow> add_diag (pin_nv pin) M a)
         = mat_add M (armature_matrix pin)"
  using assms
  by (auto simp: armature_matrix_def add_diag_is_sum mat_add_zeros split: option.splits)


section \<open>The concrete problems, evaluated\<close>

lemmas arr_eval = mat_mul_def mat_T_def col_def dot_def mat_add_def mat_sub_def smul_def
  mat_neg_def eye_def as_scalar_def zeros_def

lemmas drift_eval = drift_P_def drift_it_def drift_swept_def drift_terminal_def drift_state_def
  drift_start_def drift_back_def drift_accepted_def drift_rejected_def concave_start_def
  concave_fail_def new_interval_def cubic_cost_def

lemmas bp_eval = backwardPass_def bp_knot_def knot_Q_def knot_gains_def knot_value_def knot_l_def
  jt_Quu_j_def jt_Qu_def linalg_1x1_def cholesky_1x1_def inv_1x1_def

lemmas skew_eval = skew_P_def skew_start_def skew_knot_def skew_back_def new_interval_def

lemma drift_solver_eval: "drift_solver a 0 = Inr drift_start"
  by (simp add: drift_solver_def ConstrainedDDP_init_def setInitalState_def setInitialControl_def
      set_control_knot_def np_copyto_def wf_mat_def
      init_def init_knot_def py_index_def drift_eval
      Let_def arr_eval numeral_2_eq_2 numeral_3_eq_3)

lemma concave_solver_eval: "drift_solver (- 1) 1 = Inr concave_start"
  by (simp add: drift_solver_def ConstrainedDDP_init_def setInitalState_def setInitialControl_def
      set_control_knot_def np_copyto_def wf_mat_def
      init_def init_knot_def py_index_def drift_eval
      Let_def arr_eval numeral_2_eq_2 numeral_3_eq_3)

lemma drift_backwardPass_eval: "backwardPass linalg_1x1 (drift_P a) drift_start 1 = Inr drift_back"
  by (simp add: bp_eval drift_eval Let_def arr_eval numeral_2_eq_2)

lemma concave_backwardPass_eval:
  "backwardPass linalg_1x1 (drift_P (- 1)) concave_start 1 = Inl (LinAlgError, concave_fail)"
  by (simp add: bp_eval drift_eval Let_def arr_eval numeral_2_eq_2)

lemma drift_rollout_eval:
  "fp_rollout (drift_P a) drift_back 1 =
     drift_state [drift_swept 0 1 0 0 0 1, drift_swept 1 2 1 0 1 1, drift_terminal 1 2] 1 (2 * a) (- 1)"
  by (simp add: fp_rollout_def fp_knot_def py_index_def drift_eval
      Let_def arr_eval numeral_2_eq_2)

lemma drift_forwardPass_accept: "forwardPass (drift_P 0) drift_back 1 = drift_accepted"
  unfolding forwardPass_def drift_rollout_eval
  by (simp add: accepted_def z_ratio_def commit_knot_def drift_eval Let_def)

lemma drift_forwardPass_reject: "forwardPass (drift_P (1 / 2)) drift_back 1 = drift_rejected"
  unfolding forwardPass_def drift_rollout_eval
  by (simp add: accepted_def z_ratio_def commit_knot_def drift_eval Let_def)

lemma skew_solver_eval: "skew_solver = Inr skew_start"
  by (simp add: skew_solver_def ConstrainedDDP_init_def setInitalState_def setInitialControl_def
      set_control_knot_def np_copyto_def wf_mat_def
      init_def init_knot_def py_index_def skew_eval Let_def arr_eval numeral_2_eq_2)

lemma skew_backwardPass_eval: "backwardPass linalg_1x1 skew_P skew_start 1 = Inr skew_back"
  by (simp add: bp_eval skew_eval Let_def arr_eval numeral_2_eq_2)

lemmas ramp_eval = ramp_P_def ramp_start_def ramp_back_def new_interval_def

lemma ramp_backwardPass_eval: "backwardPass linalg_1x1 ramp_P ramp_start 1 = Inr ramp_back"
  by (simp add: bp_eval ramp_eval Let_def arr_eval numeral_2_eq_2)

lemmas rotor_eval = rotor_pin_def no_costs_def rotor_model_def rotor_data_def
  DifferentialActionModel_init_def DifferentialActionData_init_def

lemma rotor_calc_eval:
  "calc linalg_1x1 (rotor_model False) rotor_data [0, 0] (Some [5])
     = Inr (rotor_data\<lparr>dad_cost := Some 0, dad_xout := [2], dad_M := Some [[2]], dad_Minv := Some [[1 / 2]]\<rparr>)"
  by (simp add: calc_def calc_dynamics_def rotor_eval py_suffix_def add_diag_def mat_vec_def vec_sub_def
      linalg_1x1_def inv_1x1_def Let_def arr_eval)

lemma rotor_calc_aba_eval:
  "calc linalg_1x1 (rotor_model True) rotor_data [0, 0] (Some [5])
     = Inr (rotor_data\<lparr>dad_cost := Some 0, dad_xout := [8 / 3]\<rparr>)"
  by (simp add: calc_def calc_dynamics_def rotor_eval py_suffix_def Let_def)


section \<open>Claims about the flat state\<close>

text \<open>
  Claim C9, amended. For a flat state of dimension \<open>n\<close> and arrays of finite binary64
  values of that length: integrating the zero tangent from \<open>x\<close> gives back \<open>x\<close>
  exactly; integrating \<open>dx\<close> from \<open>x\<close> and taking the difference from \<open>x\<close> gives back
  \<open>dx\<close> exactly whenever every entry of the sum \<open>x + dx\<close> is computed without rounding;
  and for two states \<open>x0\<close>, \<open>x1\<close>, integrating their difference from \<open>x0\<close> gives
  \<open>x1\<close> exactly whenever every entry of the difference \<open>x1 - x0\<close> is computed without
  rounding.
\<close>

theorem StateVector_manifold_laws:
  assumes "S = StateVector_init n"
    and "length x = sv_nx S" and "length dx = sv_ndx S"
    and "length x0 = sv_nx S" and "length x1 = sv_nx S"
    and "list_all finite_double x" and "list_all finite_double dx"
    and "list_all finite_double x0" and "list_all finite_double x1"
  shows "StateVector_integrate S x (StateVector_zero S) = Inr x
       \<and> (list_all2 exact_add x dx \<longrightarrow>
            (\<exists>y. StateVector_integrate S x dx = Inr y \<and> StateVector_diff S x y = Inr dx))
       \<and> (list_all2 exact_sub x1 x0 \<longrightarrow>
            (\<exists>d. StateVector_diff S x0 x1 = Inr d \<and> StateVector_integrate S x0 d = Inr x1))"
proof (intro conjI impI)
  have len: "length x = n" "length dx = n" "length x0 = n" "length x1 = n" "sv_nx S = n"
    using assms by (simp_all add: StateVector_init_def)
  show "StateVector_integrate S x (StateVector_zero S) = Inr x"
    using len map2_add_zero64[OF assms(6)]
    by (simp add: StateVector_integrate_def StateVector_zero_def np_binop_def)
  {
    assume ex: "list_all2 exact_add x dx"
    have "StateVector_integrate S x dx = Inr (map2 f64_add x dx)"
      using len by (simp add: StateVector_integrate_def np_binop_def)
    moreover have "StateVector_diff S x (map2 f64_add x dx) = Inr dx"
      using len map2_add_then_sub[OF ex assms(7)] by (simp add: StateVector_diff_def np_binop_def)
    ultimately show "\<exists>y. StateVector_integrate S x dx = Inr y \<and> StateVector_diff S x y = Inr dx"
      by blast
  }
  {
    assume ex: "list_all2 exact_sub x1 x0"
    have "StateVector_diff S x0 x1 = Inr (map2 f64_sub x1 x0)"
      using len by (simp add: StateVector_diff_def np_binop_def)
    moreover have "StateVector_integrate S x0 (map2 f64_sub x1 x0) = Inr x1"
      using len map2_sub_then_add[OF ex assms(9)]
      by (simp add: StateVector_integrate_def np_binop_def)
    ultimately show "\<exists>d. StateVector_diff S x0 x1 = Inr d \<and> StateVector_integrate S x0 d = Inr x1"
      by blast
  }
qed

theorem StateVector_manifold_laws_witness:
  "list_all finite_double [Fin 1, Fin 2] \<and> list_all finite_double [Fin 3, Fin (- 1)]
   \<and> list_all finite_double [Fin 5, Fin 7]
   \<and> list_all2 exact_add [Fin 1, Fin 2] [Fin 3, Fin (- 1)]
   \<and> list_all2 exact_sub [Fin 1, Fin 2] [Fin 5, Fin 7]
   \<and> StateVector_integrate (StateVector_init 2) [Fin 1, Fin 2] [Fin 0, Fin 0] = Inr [Fin 1, Fin 2]
   \<and> StateVector_integrate (StateVector_init 2) [Fin 1, Fin 2] [Fin 3, Fin (- 1)] = Inr [Fin 4, Fin 1]
   \<and> StateVector_diff (StateVector_init 2) [Fin 1, Fin 2] [Fin 4, Fin 1] = Inr [Fin 3, Fin (- 1)]
   \<and> StateVector_diff (StateVector_init 2) [Fin 5, Fin 7] [Fin 1, Fin 2] = Inr [Fin (- 4), Fin (- 5)]
   \<and> StateVector_integrate (StateVector_init 2) [Fin 5, Fin 7] [Fin (- 4), Fin (- 5)] = Inr [Fin 1, Fin 2]"
  using StateVector_manifold_laws[of "StateVector_init 2" 2 "[Fin 1, Fin 2]" "[Fin 3, Fin (- 1)]"
      "[Fin 5, Fin 7]" "[Fin 1, Fin 2]"]
  by (simp add: StateVector_init_def StateVector_integrate_def StateVector_diff_def
      StateVector_zero_def np_binop_def f64_sub_def round64_values)

text \<open>
  The claim as stated has the laws exact for every \<open>x\<close> and \<open>dx\<close>. The sum
  \<open>10 ^ 16 + 1\<close> is rounded to \<open>10 ^ 16\<close>: integrating \<open>dx = 1\<close> from \<open>x = 10 ^ 16\<close>
  and taking the difference from \<open>x\<close> gives \<open>0\<close>, not \<open>dx\<close>; and the difference of
  \<open>x0 = 10 ^ 16\<close> and \<open>x1 = 1\<close> is rounded to \<open>- 10 ^ 16\<close>, so that integrating it
  from \<open>x0\<close> gives \<open>0\<close>, not \<open>x1\<close>.
\<close>

theorem StateVector_rounding_counterexample:
  "finite_double (Fin (10 ^ 16)) \<and> finite_double (Fin 1)
   \<and> StateVector_integrate (StateVector_init 1) [Fin (10 ^ 16)] [Fin 1] = Inr [Fin (10 ^ 16)]
   \<and> StateVector_diff (StateVector_init 1) [Fin (10 ^ 16)] [Fin (10 ^ 16)] = Inr [Fin 0]
   \<and> [Fin 0] \<noteq> [Fin 1]
   \<and> StateVector_diff (StateVector_init 1) [Fin (10 ^ 16)] [Fin 1] = Inr [Fin (- (10 ^ 16))]
   \<and> StateVector_integrate (StateVector_init 1) [Fin (10 ^ 16)] [Fin (- (10 ^ 16))] = Inr [Fin 0]"
  using round64_0 round64_1 round64_1e16 round64_1e16_plus_1 round64_1_minus_1e16
  by (simp add: StateVector_integrate_def StateVector_diff_def np_binop_def f64_sub_def)

section \<open>Claims about the backward pass\<close>

text \<open>
  Claim C8. After a backward pass that returned, at every running knot \<open>k\<close>: with
  \<open>(l, lx, lu, lxx, luu, lux)\<close> the cost terms and \<open>(f, fx, fu)\<close> the dynamics terms at
  the knot's nominal state and control and \<open>dt = tf - t0\<close>, the Q terms are built from
  \<open>dt lx\<close>, \<open>dt lu\<close>, \<open>dt lxx\<close>, \<open>dt luu\<close>, \<open>dt lux\<close> and from the Euler
  discretization \<open>Fx = I + dt fx\<close>, \<open>Fu = dt fu\<close>; the cost value enters the total \<open>V\<close>
  as \<open>dt l\<close>, added to the terminal value. The nominal state and control are not
  changed by the pass.
\<close>

theorem backwardPass_scales_by_dt:
  assumes "backwardPass la P s alpha = Inr s'"
    and "length (intervals s) = ddp_N s + 1"
    and "k < ddp_N s"
    and "it = intervals s' ! k" and "nxt = intervals s' ! (k + 1)"
    and "dt = it_tf it - it_t0 it"
    and "computeRunningTerms P (it_x it) (it_u it) = (l, lx, lu, lxx, luu, lux)"
    and "computeAllTerms P (it_x it) (it_u it) = (f, fx, fu)"
    and "Fx = mat_add (eye (dyn_n P)) (smul dt fx)" and "Fu = smul dt fu"
  shows "it_Qx it = mat_add (smul dt lx) (mat_mul (mat_T Fx) (it_Vx nxt))
       \<and> it_Qu it = mat_add (smul dt lu) (mat_mul (mat_T Fu) (it_Vx nxt))
       \<and> it_Qxx it = mat_add (smul dt lxx) (mat_mul (mat_mul (mat_T Fx) (it_Vxx nxt)) Fx)
       \<and> it_Quu it = mat_add (smul dt luu) (mat_mul (mat_mul (mat_T Fu) (it_Vxx nxt)) Fu)
       \<and> it_Qux it = mat_add (smul dt lux) (mat_mul (mat_mul (mat_T Fu) (it_Vxx nxt)) Fx)
       \<and> knot_l P it = dt * l
       \<and> ddp_V s' = it_V (intervals s' ! ddp_N s) + (\<Sum>i<ddp_N s. knot_l P (intervals s' ! i))
       \<and> it_x it = it_x (intervals s ! k) \<and> it_u it = it_u (intervals s ! k)"
proof -
  note B = backwardPass_Inr[OF assms(1,2)]
  have kd: "knot_done la P (ddp_mu s) (intervals s ! k) it nxt"
    using B(5)[OF assms(3)] assms(4,5) by simp
  note fr = knot_done_frame[OF kd]
  have Fx': "Fx = mat_add (smul dt fx) (eye (dyn_n P))"
    using assms(9) by (simp add: mat_add_commute)
  note Q = knot_Q_fields[where nxt = nxt and mu = "ddp_mu s", OF assms(7)[unfolded fr] assms(8)[unfolded fr]
      assms(6)[unfolded fr] Fx' assms(10)]
  have "knot_l P it = dt * l"
    using assms(6,7) by (simp add: knot_l_def)
  then show ?thesis
    using Q knot_done_Q[OF kd] B(6) fr by simp
qed


theorem backwardPass_scales_by_dt_witness:
  "backwardPass linalg_1x1 (drift_P 0) drift_start 1 = Inr drift_back
   \<and> length (intervals drift_start) = ddp_N drift_start + 1
   \<and> (0::nat) < ddp_N drift_start
   \<and> computeRunningTerms (drift_P 0) (it_x (intervals drift_back ! 0)) (it_u (intervals drift_back ! 0))
         = (0, [[0]], [[- 1]], [[0]], [[1]], [[0]])
   \<and> computeAllTerms (drift_P 0) (it_x (intervals drift_back ! 0)) (it_u (intervals drift_back ! 0))
         = ([[1]], [[0]], [[0]])
   \<and> it_tf (intervals drift_back ! 0) - it_t0 (intervals drift_back ! 0) = 1
   \<and> it_Qx (intervals drift_back ! 0)
         = mat_add (smul 1 [[0]]) (mat_mul (mat_T (mat_add (eye 1) (smul 1 [[0]]))) (it_Vx (intervals drift_back ! 1)))
   \<and> it_Qu (intervals drift_back ! 0)
         = mat_add (smul 1 [[- 1]]) (mat_mul (mat_T (smul 1 [[0]])) (it_Vx (intervals drift_back ! 1)))
   \<and> it_Qx (intervals drift_back ! 0) = [[1]] \<and> it_Qu (intervals drift_back ! 0) = [[- 1]]
   \<and> it_Quu (intervals drift_back ! 0) = [[1]]
   \<and> knot_l (drift_P 0) (intervals drift_back ! 0) = 1 * 0
   \<and> ddp_V drift_back = it_V (intervals drift_back ! 2) + (\<Sum>i<2. knot_l (drift_P 0) (intervals drift_back ! i))
   \<and> ddp_V drift_back = 1
   \<and> backwardPass linalg_1x1 ramp_P ramp_start 1 = Inr ramp_back
   \<and> length (intervals ramp_start) = ddp_N ramp_start + 1
   \<and> (0::nat) < ddp_N ramp_start
   \<and> computeRunningTerms ramp_P (it_x (intervals ramp_back ! 0)) (it_u (intervals ramp_back ! 0))
         = (3, [[1]], [[4]], [[6]], [[3 / 2]], [[8]])
   \<and> computeAllTerms ramp_P (it_x (intervals ramp_back ! 0)) (it_u (intervals ramp_back ! 0))
         = ([[0]], [[2]], [[10000]])
   \<and> it_tf (intervals ramp_back ! 0) - it_t0 (intervals ramp_back ! 0) = 1 / 2
   \<and> it_Qx (intervals ramp_back ! 0)
         = mat_add (smul (1 / 2) [[1]])
             (mat_mul (mat_T (mat_add (eye 1) (smul (1 / 2) [[2]]))) (it_Vx (intervals ramp_back ! 1)))
   \<and> it_Qu (intervals ramp_back ! 0)
         = mat_add (smul (1 / 2) [[4]]) (mat_mul (mat_T (smul (1 / 2) [[10000]])) (it_Vx (intervals ramp_back ! 1)))
   \<and> it_Qxx (intervals ramp_back ! 0)
         = mat_add (smul (1 / 2) [[6]])
             (mat_mul (mat_mul (mat_T (mat_add (eye 1) (smul (1 / 2) [[2]]))) (it_Vxx (intervals ramp_back ! 1)))
                (mat_add (eye 1) (smul (1 / 2) [[2]])))
   \<and> it_Qx (intervals ramp_back ! 0) = [[5 / 2]] \<and> it_Qu (intervals ramp_back ! 0) = [[5002]]
   \<and> it_Qxx (intervals ramp_back ! 0) = [[3]] \<and> it_Quu (intervals ramp_back ! 0) = [[3 / 4]]
   \<and> it_Qux (intervals ramp_back ! 0) = [[4]]
   \<and> knot_l ramp_P (intervals ramp_back ! 0) = 1 / 2 * 3
   \<and> ddp_V ramp_back = it_V (intervals ramp_back ! 1) + (\<Sum>i<1. knot_l ramp_P (intervals ramp_back ! i))
   \<and> ddp_V ramp_back = 13 / 2"
proof -
  have h1: "backwardPass linalg_1x1 (drift_P 0) drift_start 1 = Inr drift_back"
    by (rule drift_backwardPass_eval)
  have h2: "length (intervals drift_start) = ddp_N drift_start + 1"
    by (simp add: drift_eval)
  have h3: "(0::nat) < ddp_N drift_start"
    by (simp add: drift_eval)
  have h4: "computeRunningTerms (drift_P 0) (it_x (intervals drift_back ! 0)) (it_u (intervals drift_back ! 0))
         = (0, [[0]], [[- 1]], [[0]], [[1]], [[0]])"
    by (simp add: drift_eval as_scalar_def)
  have h5: "computeAllTerms (drift_P 0) (it_x (intervals drift_back ! 0)) (it_u (intervals drift_back ! 0))
         = ([[1]], [[0]], [[0]])"
    by (simp add: drift_eval)
  have h6: "1 = it_tf (intervals drift_back ! 0) - it_t0 (intervals drift_back ! 0)"
    by (simp add: drift_eval)
  note T = backwardPass_scales_by_dt[OF h1 h2 h3 refl refl h6 h4 h5 refl refl]
  have N: "ddp_N drift_start = 2" by (simp add: drift_eval)
  have g1: "backwardPass linalg_1x1 ramp_P ramp_start 1 = Inr ramp_back"
    by (rule ramp_backwardPass_eval)
  have g2: "length (intervals ramp_start) = ddp_N ramp_start + 1"
    by (simp add: ramp_eval)
  have g3: "(0::nat) < ddp_N ramp_start"
    by (simp add: ramp_eval)
  have g4: "computeRunningTerms ramp_P (it_x (intervals ramp_back ! 0)) (it_u (intervals ramp_back ! 0))
         = (3, [[1]], [[4]], [[6]], [[3 / 2]], [[8]])"
    by (simp add: ramp_eval)
  have g5: "computeAllTerms ramp_P (it_x (intervals ramp_back ! 0)) (it_u (intervals ramp_back ! 0))
         = ([[0]], [[2]], [[10000]])"
    by (simp add: ramp_eval)
  have g6: "1 / 2 = it_tf (intervals ramp_back ! 0) - it_t0 (intervals ramp_back ! 0)"
    by (simp add: ramp_eval)
  note R = backwardPass_scales_by_dt[OF g1 g2 g3 refl refl g6 g4 g5 refl refl]
  have M: "ddp_N ramp_start = 1" "dyn_n ramp_P = 1" by (simp_all add: ramp_eval)
  have v: "it_Qx (intervals ramp_back ! 0) = [[5 / 2]]" "it_Qu (intervals ramp_back ! 0) = [[5002]]"
    "it_Qxx (intervals ramp_back ! 0) = [[3]]" "it_Quu (intervals ramp_back ! 0) = [[3 / 4]]"
    "it_Qux (intervals ramp_back ! 0) = [[4]]" "ddp_V ramp_back = 13 / 2"
    by (simp_all add: ramp_eval)
  have d: "backwardPass linalg_1x1 (drift_P 0) drift_start 1 = Inr drift_back
   \<and> length (intervals drift_start) = ddp_N drift_start + 1
   \<and> (0::nat) < ddp_N drift_start
   \<and> computeRunningTerms (drift_P 0) (it_x (intervals drift_back ! 0)) (it_u (intervals drift_back ! 0))
         = (0, [[0]], [[- 1]], [[0]], [[1]], [[0]])
   \<and> computeAllTerms (drift_P 0) (it_x (intervals drift_back ! 0)) (it_u (intervals drift_back ! 0))
         = ([[1]], [[0]], [[0]])
   \<and> it_tf (intervals drift_back ! 0) - it_t0 (intervals drift_back ! 0) = 1
   \<and> it_Qx (intervals drift_back ! 0)
         = mat_add (smul 1 [[0]]) (mat_mul (mat_T (mat_add (eye 1) (smul 1 [[0]]))) (it_Vx (intervals drift_back ! 1)))
   \<and> it_Qu (intervals drift_back ! 0)
         = mat_add (smul 1 [[- 1]]) (mat_mul (mat_T (smul 1 [[0]])) (it_Vx (intervals drift_back ! 1)))
   \<and> it_Qx (intervals drift_back ! 0) = [[1]] \<and> it_Qu (intervals drift_back ! 0) = [[- 1]]
   \<and> it_Quu (intervals drift_back ! 0) = [[1]]
   \<and> knot_l (drift_P 0) (intervals drift_back ! 0) = 1 * 0
   \<and> ddp_V drift_back = it_V (intervals drift_back ! 2) + (\<Sum>i<2. knot_l (drift_P 0) (intervals drift_back ! i))
   \<and> ddp_V drift_back = 1"
    using T h1 h2 h3 h4 h5 h6 unfolding N
    by (simp add: drift_eval arr_eval)
  have r: "it_Qx (intervals ramp_back ! 0)
         = mat_add (smul (1 / 2) [[1]])
             (mat_mul (mat_T (mat_add (eye 1) (smul (1 / 2) [[2]]))) (it_Vx (intervals ramp_back ! 1)))
   \<and> it_Qu (intervals ramp_back ! 0)
         = mat_add (smul (1 / 2) [[4]]) (mat_mul (mat_T (smul (1 / 2) [[10000]])) (it_Vx (intervals ramp_back ! 1)))
   \<and> it_Qxx (intervals ramp_back ! 0)
         = mat_add (smul (1 / 2) [[6]])
             (mat_mul (mat_mul (mat_T (mat_add (eye 1) (smul (1 / 2) [[2]]))) (it_Vxx (intervals ramp_back ! 1)))
                (mat_add (eye 1) (smul (1 / 2) [[2]])))
   \<and> knot_l ramp_P (intervals ramp_back ! 0) = 1 / 2 * 3
   \<and> ddp_V ramp_back = it_V (intervals ramp_back ! 1) + (\<Sum>i<1. knot_l ramp_P (intervals ramp_back ! i))"
    using R unfolding M by simp
  show ?thesis
    using d g1 g2 g3 g4 g5 g6[symmetric] r v by blast
qed


text \<open>
  Claim C7. After a backward pass with step-length parameter \<open>alpha\<close> that returned, the
  expected improvement is the sum over the running knots of
  \<open>alpha j\<^sup>T Qu + 1/2 alpha\<^sup>2 j\<^sup>T Quu j\<close>, with \<open>j\<close> the feedforward term of the knot;
  that is \<open>alpha d1 + 1/2 alpha\<^sup>2 d2\<close> with \<open>d1\<close> the sum of \<open>j\<^sup>T Qu\<close> and \<open>d2\<close> the
  sum of \<open>j\<^sup>T Quu j\<close>.
\<close>

theorem backwardPass_expected_improvement:
  assumes "backwardPass la P s alpha = Inr s'"
    and "length (intervals s) = ddp_N s + 1"
  shows "ddp_dV_exp s' =
           (\<Sum>k<ddp_N s.
              alpha * as_scalar (mat_mul (mat_T (it_j (intervals s' ! k))) (it_Qu (intervals s' ! k)))
              + 1 / 2 * alpha\<^sup>2
                * as_scalar (mat_mul (mat_mul (mat_T (it_j (intervals s' ! k))) (it_Quu (intervals s' ! k)))
                               (it_j (intervals s' ! k))))
       \<and> ddp_dV_exp s' =
           alpha * (\<Sum>k<ddp_N s.
                      as_scalar (mat_mul (mat_T (it_j (intervals s' ! k))) (it_Qu (intervals s' ! k))))
           + 1 / 2 * alpha\<^sup>2
             * (\<Sum>k<ddp_N s.
                  as_scalar (mat_mul (mat_mul (mat_T (it_j (intervals s' ! k))) (it_Quu (intervals s' ! k)))
                               (it_j (intervals s' ! k))))"
proof -
  let ?d1 = "\<lambda>k. as_scalar (mat_mul (mat_T (it_j (intervals s' ! k))) (it_Qu (intervals s' ! k)))"
  let ?d2 = "\<lambda>k. as_scalar (mat_mul (mat_mul (mat_T (it_j (intervals s' ! k))) (it_Quu (intervals s' ! k)))
                               (it_j (intervals s' ! k)))"
  have tm: "alpha * (alpha * jt_Quu_j (intervals s' ! k) + jt_Qu (intervals s' ! k))
      = alpha * ?d1 k + 1 / 2 * alpha\<^sup>2 * ?d2 k" for k
    by (simp add: jt_Quu_j_half jt_Qu_def power2_eq_square algebra_simps)
  have 1: "ddp_dV_exp s' = (\<Sum>k<ddp_N s. alpha * ?d1 k + 1 / 2 * alpha\<^sup>2 * ?d2 k)"
    using backwardPass_Inr(7)[OF assms] by (simp only: tm)
  also have "\<dots> = alpha * (\<Sum>k<ddp_N s. ?d1 k) + 1 / 2 * alpha\<^sup>2 * (\<Sum>k<ddp_N s. ?d2 k)"
    by (simp only: sum.distrib sum_distrib_left)
  finally show ?thesis using 1 by simp
qed


theorem backwardPass_expected_improvement_witness:
  "backwardPass linalg_1x1 (drift_P 0) drift_start 1 = Inr drift_back
   \<and> length (intervals drift_start) = ddp_N drift_start + 1
   \<and> ddp_N drift_start = 2
   \<and> as_scalar (mat_mul (mat_T (it_j (intervals drift_back ! 0))) (it_Qu (intervals drift_back ! 0))) = - 1
   \<and> as_scalar (mat_mul (mat_mul (mat_T (it_j (intervals drift_back ! 0))) (it_Quu (intervals drift_back ! 0)))
                  (it_j (intervals drift_back ! 0))) = 1
   \<and> ddp_dV_exp drift_back
       = 1 * (\<Sum>k<2. as_scalar (mat_mul (mat_T (it_j (intervals drift_back ! k))) (it_Qu (intervals drift_back ! k))))
         + 1 / 2 * 1\<^sup>2
           * (\<Sum>k<2. as_scalar (mat_mul (mat_mul (mat_T (it_j (intervals drift_back ! k)))
                                          (it_Quu (intervals drift_back ! k)))
                                 (it_j (intervals drift_back ! k))))
   \<and> ddp_dV_exp drift_back = - 1"
proof -
  have h1: "backwardPass linalg_1x1 (drift_P 0) drift_start 1 = Inr drift_back"
    by (rule drift_backwardPass_eval)
  have h2: "length (intervals drift_start) = ddp_N drift_start + 1"
    by (simp add: drift_eval)
  have N: "ddp_N drift_start = 2" by (simp add: drift_eval)
  note T = backwardPass_expected_improvement[OF h1 h2, unfolded N]
  have a: "as_scalar (mat_mul (mat_T (it_j (intervals drift_back ! 0))) (it_Qu (intervals drift_back ! 0))) = - 1"
    by (simp add: drift_eval arr_eval)
  have b: "as_scalar (mat_mul (mat_mul (mat_T (it_j (intervals drift_back ! 0))) (it_Quu (intervals drift_back ! 0)))
                  (it_j (intervals drift_back ! 0))) = 1"
    by (simp add: drift_eval arr_eval)
  have c: "ddp_dV_exp drift_back = - 1" by (simp add: drift_eval)
  show ?thesis using T h1 h2 N a b c by simp
qed


text \<open>
  Claim C1, amended. After a backward pass that returned, at every running knot \<open>k\<close>,
  with \<open>nxt\<close> the record of knot \<open>k + 1\<close>: \<open>Quu_r = Quu + mu Fu\<^sup>T Fu\<close> and
  \<open>Qux_r = Qux + mu Fu\<^sup>T Fx\<close>; there is a two-sided inverse \<open>Quu_inv\<close> of \<open>Quu_r\<close> with
  \<open>j = - Quu_inv Qu\<close> and \<open>K = - Quu_inv Qux_r\<close>; and
  \<open>Vx = Qx + K\<^sup>T Quu j + K\<^sup>T Qu + Qux\<^sup>T j\<close>,
  \<open>Vxx = Qxx + K\<^sup>T Quu K + K\<^sup>T Qux + Qux\<^sup>T K\<close>. \<open>Vxx\<close> is stored as computed: the
  pass has no symmetrization step. The factorization and inversion routines are assumed to
  meet their contracts, and \<open>fu\<close> to have as many rows as the state has entries.
\<close>

theorem backwardPass_gains_and_value:
  assumes "backwardPass la P s alpha = Inr s'"
    and "length (intervals s) = ddp_N s + 1"
    and "k < ddp_N s"
    and "it = intervals s' ! k" and "nxt = intervals s' ! (k + 1)"
    and "dt = it_tf it - it_t0 it"
    and "computeAllTerms P (it_x it) (it_u it) = (f, fx, fu)"
    and "Fx = mat_add (eye (dyn_n P)) (smul dt fx)" and "Fu = smul dt fu"
    and "0 < dyn_n P" and "wf_mat (dyn_n P) m fu"
    and "cholesky_contract la" and "inv_contract la"
  shows "it_Quu_r it = mat_add (it_Quu it) (smul (ddp_mu s) (mat_mul (mat_T Fu) Fu))
       \<and> it_Qux_r it = mat_add (it_Qux it) (smul (ddp_mu s) (mat_mul (mat_T Fu) Fx))
       \<and> (\<exists>Quu_inv.
             mat_mul Quu_inv (it_Quu_r it) = eye (length (it_Quu_r it))
           \<and> mat_mul (it_Quu_r it) Quu_inv = eye (length (it_Quu_r it))
           \<and> it_j it = mat_neg (mat_mul Quu_inv (it_Qu it))
           \<and> it_K it = mat_neg (mat_mul Quu_inv (it_Qux_r it)))
       \<and> it_Vx it = mat_add (mat_add (mat_add (it_Qx it)
                       (mat_mul (mat_mul (mat_T (it_K it)) (it_Quu it)) (it_j it)))
                       (mat_mul (mat_T (it_K it)) (it_Qu it)))
                       (mat_mul (mat_T (it_Qux it)) (it_j it))
       \<and> it_Vxx it = mat_add (mat_add (mat_add (it_Qxx it)
                       (mat_mul (mat_mul (mat_T (it_K it)) (it_Quu it)) (it_K it)))
                       (mat_mul (mat_T (it_K it)) (it_Qux it)))
                       (mat_mul (mat_T (it_Qux it)) (it_K it))"
proof -
  note B = backwardPass_Inr[OF assms(1,2)]
  have kd: "knot_done la P (ddp_mu s) (intervals s ! k) it nxt"
    using B(5)[OF assms(3)] assms(4,5) by simp
  note fr = knot_done_frame[OF kd]
  obtain l lx lu lxx luu lux where
    cost: "computeRunningTerms P (it_x (intervals s ! k)) (it_u (intervals s ! k)) = (l, lx, lu, lxx, luu, lux)"
    by (metis prod_cases3)
  have Fx': "Fx = mat_add (smul dt fx) (eye (dyn_n P))"
    using assms(8) by (simp add: mat_add_commute)
  note Q = knot_Q_fields[where nxt = nxt and mu = "ddp_mu s", OF cost assms(7)[unfolded fr]
      assms(6)[unfolded fr] Fx' assms(9)]
  note dQ = knot_done_Q[OF kd]
  have wfFu: "wf_mat (dyn_n P) m Fu" using assms(9,11) by (simp add: wf_smul)
  have r1: "it_Quu_r it = mat_add (it_Quu it) (smul (ddp_mu s) (mat_mul (mat_T Fu) Fu))"
    using Q(6) dQ by (simp add: regularization_term[OF wfFu assms(10)])
  have r2: "it_Qux_r it = mat_add (it_Qux it) (smul (ddp_mu s) (mat_mul (mat_T Fu) Fx))"
    using Q(7) dQ by (simp add: regularization_term[OF wfFu assms(10)])
  from knot_done_gains[OF kd] obtain L Li where
    L: "np_cholesky la (it_Quu_r it) = Some L" and Li: "np_inv la L = Some Li"
    and K: "it_K it = mat_mul (mat_neg (mat_mul (mat_T Li) Li)) (it_Qux_r it)"
    and j: "it_j it = mat_mul (mat_neg (mat_mul (mat_T Li) Li)) (it_Qu it)"
    by blast
  note inv = cholesky_inverse[OF assms(12,13) L Li]
  have "mat_mul (mat_mul (mat_T Li) Li) (it_Quu_r it) = eye (length (it_Quu_r it))
           \<and> mat_mul (it_Quu_r it) (mat_mul (mat_T Li) Li) = eye (length (it_Quu_r it))
           \<and> it_j it = mat_neg (mat_mul (mat_mul (mat_T Li) Li) (it_Qu it))
           \<and> it_K it = mat_neg (mat_mul (mat_mul (mat_T Li) Li) (it_Qux_r it))"
    using inv K j by (simp add: mat_mul_neg_left)
  then have r3: "\<exists>Quu_inv.
             mat_mul Quu_inv (it_Quu_r it) = eye (length (it_Quu_r it))
           \<and> mat_mul (it_Quu_r it) Quu_inv = eye (length (it_Quu_r it))
           \<and> it_j it = mat_neg (mat_mul Quu_inv (it_Qu it))
           \<and> it_K it = mat_neg (mat_mul Quu_inv (it_Qux_r it))"
    by blast
  show ?thesis
    using r1 r2 r3 knot_done_value[OF kd] by blast
qed



theorem backwardPass_gains_and_value_witness:
  "backwardPass linalg_1x1 skew_P skew_start 1 = Inr skew_back
   \<and> length (intervals skew_start) = ddp_N skew_start + 1
   \<and> (0::nat) < ddp_N skew_start
   \<and> computeAllTerms skew_P (it_x (intervals skew_back ! 0)) (it_u (intervals skew_back ! 0))
         = ([[0], [0]], [[0, 0], [0, 0]], [[0], [10000]])
   \<and> 0 < dyn_n skew_P \<and> wf_mat (dyn_n skew_P) 1 [[0], [10000]]
   \<and> cholesky_contract linalg_1x1 \<and> inv_contract linalg_1x1
   \<and> it_Quu (intervals skew_back ! 0) = [[3]]
   \<and> smul (ddp_mu skew_start) (mat_mul (mat_T (smul 1 [[0], [10000]])) (smul 1 [[0], [10000]])) = [[1]]
   \<and> it_Quu_r (intervals skew_back ! 0) = [[4]]
   \<and> it_Qux_r (intervals skew_back ! 0) = [[0, 1 / 10000]]
   \<and> mat_mul [[1 / 4]] (it_Quu_r (intervals skew_back ! 0)) = eye 1
   \<and> it_j (intervals skew_back ! 0) = mat_neg (mat_mul [[1 / 4]] (it_Qu (intervals skew_back ! 0)))
   \<and> it_K (intervals skew_back ! 0) = mat_neg (mat_mul [[1 / 4]] (it_Qux_r (intervals skew_back ! 0)))
   \<and> it_Vxx (intervals skew_back ! 0) = [[0, 1], [0, 3 / 1600000000]]"
proof -
  have h1: "backwardPass linalg_1x1 skew_P skew_start 1 = Inr skew_back"
    by (rule skew_backwardPass_eval)
  have h2: "length (intervals skew_start) = ddp_N skew_start + 1"
    by (simp add: skew_eval)
  have h3: "(0::nat) < ddp_N skew_start"
    by (simp add: skew_eval)
  have h5: "computeAllTerms skew_P (it_x (intervals skew_back ! 0)) (it_u (intervals skew_back ! 0))
         = ([[0], [0]], [[0, 0], [0, 0]], [[0], [10000]])"
    by (simp add: skew_eval)
  have h6: "0 < dyn_n skew_P" by (simp add: skew_eval)
  have h7: "wf_mat (dyn_n skew_P) 1 [[0], [10000]]" by (simp add: skew_eval wf_mat_def)
  note T = backwardPass_gains_and_value[OF h1 h2 h3 refl refl refl h5 refl refl h6 h7
      cholesky_1x1_contract inv_1x1_contract]
  have ev: "it_Quu (intervals skew_back ! 0) = [[3]]"
    "smul (ddp_mu skew_start) (mat_mul (mat_T (smul 1 [[0], [10000]])) (smul 1 [[0], [10000]])) = [[1]]"
    "it_Quu_r (intervals skew_back ! 0) = [[4]]"
    "it_Qux_r (intervals skew_back ! 0) = [[0, 1 / 10000]]"
    "mat_mul [[1 / 4]] (it_Quu_r (intervals skew_back ! 0)) = eye 1"
    "it_j (intervals skew_back ! 0) = mat_neg (mat_mul [[1 / 4]] (it_Qu (intervals skew_back ! 0)))"
    "it_K (intervals skew_back ! 0) = mat_neg (mat_mul [[1 / 4]] (it_Qux_r (intervals skew_back ! 0)))"
    "it_Vxx (intervals skew_back ! 0) = [[0, 1], [0, 3 / 1600000000]]"
    by (simp_all add: skew_eval arr_eval)
  show ?thesis
    using T h1 h2 h3 h5 h6 h7 cholesky_1x1_contract inv_1x1_contract ev by simp
qed

text \<open>
  The claim as stated has \<open>Vxx\<close> symmetrized. On the second problem the value Hessian
  left at knot \<open>0\<close> differs from its transpose, hence also from the mean of itself and
  its transpose.
\<close>

theorem backwardPass_symmetrized_counterexample:
  "skew_solver = Inr skew_start
   \<and> backwardPass linalg_1x1 skew_P skew_start 1 = Inr skew_back
   \<and> it_Vxx (intervals skew_back ! 0) = [[0, 1], [0, 3 / 1600000000]]
   \<and> mat_T (it_Vxx (intervals skew_back ! 0)) = [[0, 0], [1, 3 / 1600000000]]
   \<and> it_Vxx (intervals skew_back ! 0) \<noteq> mat_T (it_Vxx (intervals skew_back ! 0))
   \<and> it_Vxx (intervals skew_back ! 0)
       \<noteq> smul (1 / 2) (mat_add (it_Vxx (intervals skew_back ! 0)) (mat_T (it_Vxx (intervals skew_back ! 0))))"
  using skew_solver_eval skew_backwardPass_eval
  by (simp add: skew_eval arr_eval)

section \<open>Claim about a failing factorization\<close>

text \<open>
  Claim C3, amended. The backward pass has no recovery: when the Cholesky factorization
  of \<open>Quu_r\<close> (or the inversion of its factor) raises at some knot \<open>k\<close>, the pass stops
  there and the \<^verbatim>\<open>LinAlgError\<close> escapes \<^verbatim>\<open>backwardPass\<close> and \<^verbatim>\<open>compute\<close>, whatever the
  value of \<open>mu\<close>; \<open>mu\<close> is left as it was, and the knots below \<open>k\<close> are left
  untouched, so nothing is restarted. The pass returns only if the factorization and
  the inversion succeeded at every running knot.
\<close>

theorem backwardPass_factorization_failure:
  assumes "length (intervals s) = ddp_N s + 1"
  shows "case backwardPass la P s alpha of
           Inr s' \<Rightarrow>
             (\<forall>k<ddp_N s. \<exists>L Li. np_cholesky la (it_Quu_r (intervals s' ! k)) = Some L
                                  \<and> np_inv la L = Some Li)
         | Inl (e, s') \<Rightarrow>
             e = LinAlgError \<and> ddp_mu s' = ddp_mu s
             \<and> (alpha = 1 \<longrightarrow> compute la P s = Inl (e, s'))
             \<and> (\<exists>k<ddp_N s.
                   (np_cholesky la (it_Quu_r (intervals s' ! k)) = None
                    \<or> (\<exists>L. np_cholesky la (it_Quu_r (intervals s' ! k)) = Some L \<and> np_inv la L = None))
                 \<and> (\<forall>i<k. intervals s' ! i = intervals s ! i))"
proof (cases "backwardPass la P s alpha")
  case (Inr s')
  have "\<exists>L Li. np_cholesky la (it_Quu_r (intervals s' ! k)) = Some L \<and> np_inv la L = Some Li"
    if "k < ddp_N s" for k
    using knot_done_gains[OF backwardPass_Inr(5)[OF Inr assms that]] by blast
  then show ?thesis using Inr by simp
next
  case (Inl r)
  obtain e s' where r: "r = (e, s')" by (cases r)
  have loop: "bp_loop la P alpha (ddp_N (bp_start P s)) (bp_start P s) = Inl (e, s')"
    using Inl r by (simp add: backwardPass_loop bp_start_simps)
  have n: "ddp_N (bp_start P s) < length (intervals (bp_start P s))"
    using assms by (simp add: bp_start_simps)
  from bp_loop_Inl[OF loop n, unfolded bp_start_simps] obtain k where
    e: "e = LinAlgError" and mu: "ddp_mu s' = ddp_mu s" and k: "k < ddp_N s"
    and none: "knot_gains la (intervals s' ! k) = None"
    and low: "\<forall>i<k. intervals s' ! i = intervals (bp_start P s) ! i"
    by blast
  have low': "\<forall>i<k. intervals s' ! i = intervals s ! i"
    using low k by (simp add: bp_start_simps)
  have "np_cholesky la (it_Quu_r (intervals s' ! k)) = None
         \<or> (\<exists>L. np_cholesky la (it_Quu_r (intervals s' ! k)) = Some L \<and> np_inv la L = None)"
    using none by (simp add: knot_gains_None)
  then have "\<exists>k<ddp_N s.
                   (np_cholesky la (it_Quu_r (intervals s' ! k)) = None
                    \<or> (\<exists>L. np_cholesky la (it_Quu_r (intervals s' ! k)) = Some L \<and> np_inv la L = None))
                 \<and> (\<forall>i<k. intervals s' ! i = intervals s ! i)"
    using k low' by blast
  moreover have "alpha = 1 \<longrightarrow> compute la P s = Inl (e, s')"
    using Inl r by (auto simp: compute_def)
  ultimately show ?thesis using Inl r e mu by simp
qed

theorem backwardPass_factorization_failure_witness:
  "length (intervals concave_start) = ddp_N concave_start + 1
   \<and> backwardPass linalg_1x1 (drift_P (- 1)) concave_start 1 = Inl (LinAlgError, concave_fail)
   \<and> ddp_mu concave_fail = ddp_mu concave_start
   \<and> compute linalg_1x1 (drift_P (- 1)) concave_start = Inl (LinAlgError, concave_fail)
   \<and> (1::nat) < ddp_N concave_start
   \<and> np_cholesky linalg_1x1 (it_Quu_r (intervals concave_fail ! 1)) = None
   \<and> intervals concave_fail ! 0 = intervals concave_start ! 0
   \<and> length (intervals drift_start) = ddp_N drift_start + 1
   \<and> backwardPass linalg_1x1 (drift_P 0) drift_start 1 = Inr drift_back
   \<and> np_cholesky linalg_1x1 (it_Quu_r (intervals drift_back ! 0)) = Some [[1]]
   \<and> np_cholesky linalg_1x1 (it_Quu_r (intervals drift_back ! 1)) = Some [[1]]
   \<and> np_inv linalg_1x1 [[1]] = Some [[1]]"
proof -
  have h1: "length (intervals concave_start) = ddp_N concave_start + 1"
    by (simp add: drift_eval)
  have h2: "length (intervals drift_start) = ddp_N drift_start + 1"
    by (simp add: drift_eval)
  note T1 = backwardPass_factorization_failure[OF h1, where la = linalg_1x1 and P = "drift_P (- 1)" and alpha = 1]
  note T2 = backwardPass_factorization_failure[OF h2, where la = linalg_1x1 and P = "drift_P 0" and alpha = 1]
  have ev: "ddp_mu concave_fail = ddp_mu concave_start" "(1::nat) < ddp_N concave_start"
    "np_cholesky linalg_1x1 (it_Quu_r (intervals concave_fail ! 1)) = None"
    "intervals concave_fail ! 0 = intervals concave_start ! 0"
    "np_cholesky linalg_1x1 (it_Quu_r (intervals drift_back ! 0)) = Some [[1]]"
    "np_cholesky linalg_1x1 (it_Quu_r (intervals drift_back ! 1)) = Some [[1]]"
    "np_inv linalg_1x1 [[1]] = Some [[1]]"
    by (simp_all add: drift_eval linalg_1x1_def cholesky_1x1_def inv_1x1_def)
  have c: "compute linalg_1x1 (drift_P (- 1)) concave_start = Inl (LinAlgError, concave_fail)"
    using T1 by (simp add: concave_backwardPass_eval)
  show ?thesis
    using T2 h1 h2 ev c concave_backwardPass_eval drift_backwardPass_eval by simp
qed

text \<open>
  The claim as stated has the solver raise \<open>mu\<close> and restart, the error escaping only once
  \<open>mu\<close> exceeds its maximum. On the concave problem \<open>Quu_r\<close> is \<open>-5\<close> at knot \<open>1\<close>; with
  \<open>mu = 10\<^sup>-\<^sup>8\<close>, far below the spec's bound \<open>10\<^sup>9\<close>, the error leaves the backward
  pass and \<^verbatim>\<open>compute\<close>, \<open>mu\<close> is unchanged and knot \<open>0\<close> was never visited.
\<close>

theorem backwardPass_recovery_counterexample:
  "drift_solver (- 1) 1 = Inr concave_start
   \<and> ddp_mu concave_start = 1 / 10 ^ 8
   \<and> ddp_mu concave_start \<le> 10 ^ 9
   \<and> it_Quu_r (intervals concave_fail ! 1) = [[- 5]]
   \<and> np_cholesky linalg_1x1 (it_Quu_r (intervals concave_fail ! 1)) = None
   \<and> backwardPass linalg_1x1 (drift_P (- 1)) concave_start 1 = Inl (LinAlgError, concave_fail)
   \<and> compute linalg_1x1 (drift_P (- 1)) concave_start = Inl (LinAlgError, concave_fail)
   \<and> ddp_mu concave_fail = ddp_mu concave_start
   \<and> intervals concave_fail ! 0 = intervals concave_start ! 0"
  using concave_solver_eval concave_backwardPass_eval
  by (simp add: compute_def drift_eval linalg_1x1_def cholesky_1x1_def)

section \<open>Claims about the forward pass\<close>

text \<open>
  Claim C2, amended. The forward pass first rolls out a trial: \<open>x_new[0]\<close> is the nominal
  \<open>x[0]\<close>, every trial control is \<open>u_new[k] = u[k] + alpha j[k] + K[k] (x_new[k] - x[k])\<close>
  and every next trial state is the integrator's step from \<open>x_new[k]\<close> under \<open>u_new[k]\<close>.
  Let \<open>z = (V_new - V) / dV_exp\<close> be the ratio computed from that trial. When \<open>dV_exp\<close>
  is not zero and \<open>change_lb < z < change_ub\<close>, both strictly, the trial is committed at
  the running knots \<open>0, ..., N - 2\<close>: afterwards the nominal \<open>x[k]\<close> holds the trial state
  \<open>x_new[k]\<close> and the nominal \<open>u[k]\<close> holds the trial control \<open>u_new[k]\<close> that the
  roll-out computed, and the trial arrays still hold them. When \<open>z \<le> change_lb\<close> or
  \<open>z \<ge> change_ub\<close> (or \<open>dV_exp\<close> is zero), nothing is committed: the state is the one
  the roll-out left, and the nominal \<open>x\<close> and \<open>u\<close> of every running knot are as they
  were before the forward pass.
\<close>

theorem forwardPass_commit:
  assumes "length (intervals s) = ddp_N s + 1"
    and "r = fp_rollout P s alpha"
    and "s' = forwardPass P s alpha"
    and "z = (ddp_V_new s' - ddp_V s) / ddp_dV_exp s"
  shows "it_x_new (intervals r ! 0) = it_x (intervals s ! 0)
       \<and> (\<forall>k<ddp_N s.
             it_u_new (intervals r ! k) =
               mat_add (mat_add (it_u (intervals s ! k)) (smul alpha (it_j (intervals s ! k))))
                 (mat_mul (it_K (intervals s ! k))
                    (mat_sub (it_x_new (intervals r ! k)) (it_x (intervals s ! k))))
           \<and> it_x_new (intervals r ! (k + 1)) =
               integrator_integrate P (it_x_new (intervals r ! k)) (it_u_new (intervals r ! k))
                 (it_tf (intervals s ! k) - it_t0 (intervals s ! k)))
       \<and> ddp_V_new s' = ddp_V_new r
       \<and> (ddp_dV_exp s \<noteq> 0 \<and> change_lb s < z \<and> z < change_ub s \<longrightarrow>
           (\<forall>k. k + 1 < ddp_N s \<longrightarrow>
              it_x (intervals s' ! k) = it_x_new (intervals r ! k)
            \<and> it_u (intervals s' ! k) = it_u_new (intervals r ! k)
            \<and> it_x_new (intervals s' ! k) = it_x_new (intervals r ! k)
            \<and> it_u_new (intervals s' ! k) = it_u_new (intervals r ! k)))
       \<and> (ddp_dV_exp s = 0 \<or> z \<le> change_lb s \<or> change_ub s \<le> z \<longrightarrow>
           s' = r
           \<and> (\<forall>k<ddp_N s.
                it_x (intervals s' ! k) = it_x (intervals s ! k)
              \<and> it_u (intervals s' ! k) = it_u (intervals s ! k)))"
proof -
  let ?r = "fp_rollout P s alpha"
  note sc = fp_rollout_scalars[of P s alpha]
  note T = fp_rollout_trial[OF assms(1), where P = P and alpha = alpha]
  have n: "ddp_N s - 1 \<le> length (intervals ?r)" using assms(1) sc by simp
  note C = fold_commit_knot[OF n]
  have Vn: "ddp_V_new s' = ddp_V_new ?r"
    using assms(3) C by (simp add: forwardPass_def Let_def sc)
  have acc: "accepted ?r \<longleftrightarrow> ddp_dV_exp s \<noteq> 0 \<and> change_lb s < z \<and> z < change_ub s"
    using assms(4) Vn by (simp add: accepted_def z_ratio_def sc)
  have trial: "it_x_new (intervals r ! 0) = it_x (intervals s ! 0)
       \<and> (\<forall>k<ddp_N s.
             it_u_new (intervals r ! k) =
               mat_add (mat_add (it_u (intervals s ! k)) (smul alpha (it_j (intervals s ! k))))
                 (mat_mul (it_K (intervals s ! k))
                    (mat_sub (it_x_new (intervals r ! k)) (it_x (intervals s ! k))))
           \<and> it_x_new (intervals r ! (k + 1)) =
               integrator_integrate P (it_x_new (intervals r ! k)) (it_u_new (intervals r ! k))
                 (it_tf (intervals s ! k) - it_t0 (intervals s ! k)))"
    unfolding assms(2) using T by simp
  have commit: "ddp_dV_exp s \<noteq> 0 \<and> change_lb s < z \<and> z < change_ub s \<longrightarrow>
           (\<forall>k. k + 1 < ddp_N s \<longrightarrow>
              it_x (intervals s' ! k) = it_x_new (intervals r ! k)
            \<and> it_u (intervals s' ! k) = it_u_new (intervals r ! k)
            \<and> it_x_new (intervals s' ! k) = it_x_new (intervals r ! k)
            \<and> it_u_new (intervals s' ! k) = it_u_new (intervals r ! k))"
  proof
    assume "ddp_dV_exp s \<noteq> 0 \<and> change_lb s < z \<and> z < change_ub s"
    then have "accepted ?r" using acc by simp
    then have s': "s' = fold commit_knot [0..<ddp_N s - 1] ?r"
      using assms(3) by (simp add: forwardPass_def Let_def sc)
    show "\<forall>k. k + 1 < ddp_N s \<longrightarrow>
              it_x (intervals s' ! k) = it_x_new (intervals r ! k)
            \<and> it_u (intervals s' ! k) = it_u_new (intervals r ! k)
            \<and> it_x_new (intervals s' ! k) = it_x_new (intervals r ! k)
            \<and> it_u_new (intervals s' ! k) = it_u_new (intervals r ! k)"
      using C unfolding s' assms(2) by simp
  qed
  have reject: "ddp_dV_exp s = 0 \<or> z \<le> change_lb s \<or> change_ub s \<le> z \<longrightarrow>
           s' = r
           \<and> (\<forall>k<ddp_N s.
                it_x (intervals s' ! k) = it_x (intervals s ! k)
              \<and> it_u (intervals s' ! k) = it_u (intervals s ! k))"
  proof
    assume "ddp_dV_exp s = 0 \<or> z \<le> change_lb s \<or> change_ub s \<le> z"
    then have "\<not> accepted ?r" using acc by auto
    then have s': "s' = ?r"
      using assms(3) by (simp add: forwardPass_def Let_def)
    have N: "ddp_N s < length (intervals s)" using assms(1) by simp
    have "it_x (intervals s' ! k) = it_x (intervals s ! k)
            \<and> it_u (intervals s' ! k) = it_u (intervals s ! k)" if "k < ddp_N s" for k
      using fp_rollout_nominal[OF that N, of P alpha] by (simp add: s')
    then show "s' = r
           \<and> (\<forall>k<ddp_N s.
                it_x (intervals s' ! k) = it_x (intervals s ! k)
              \<and> it_u (intervals s' ! k) = it_u (intervals s ! k))"
      using s' assms(2) by simp
  qed
  have V: "ddp_V_new s' = ddp_V_new r" using Vn assms(2) by simp
  from trial V commit reject show ?thesis by blast
qed

theorem forwardPass_commit_witness:
  "length (intervals drift_back) = ddp_N drift_back + 1
   \<and> ddp_N drift_back = 2
   \<and> forwardPass (drift_P 0) drift_back 1 = drift_accepted
   \<and> (ddp_V_new drift_accepted - ddp_V drift_back) / ddp_dV_exp drift_back = 1
   \<and> ddp_dV_exp drift_back \<noteq> 0 \<and> change_lb drift_back < 1 \<and> 1 < change_ub drift_back
   \<and> it_x_new (intervals (fp_rollout (drift_P 0) drift_back 1) ! 0) = [[0]]
   \<and> it_u_new (intervals (fp_rollout (drift_P 0) drift_back 1) ! 0) = [[1]]
   \<and> it_x_new (intervals (fp_rollout (drift_P 0) drift_back 1) ! 1) = [[1]]
   \<and> it_x (intervals drift_accepted ! 0) = it_x_new (intervals (fp_rollout (drift_P 0) drift_back 1) ! 0)
   \<and> it_u (intervals drift_accepted ! 0) = it_u_new (intervals (fp_rollout (drift_P 0) drift_back 1) ! 0)
   \<and> it_u (intervals drift_back ! 0) = [[0]] \<and> it_u (intervals drift_accepted ! 0) = [[1]]
   \<and> it_u_new (intervals drift_accepted ! 0) = [[1]]
   \<and> forwardPass (drift_P (1 / 2)) drift_back 1 = drift_rejected
   \<and> fp_rollout (drift_P (1 / 2)) drift_back 1 = drift_rejected
   \<and> (ddp_V_new drift_rejected - ddp_V drift_back) / ddp_dV_exp drift_back = 0
   \<and> 0 \<le> change_lb drift_back
   \<and> it_x (intervals drift_rejected ! 0) = it_x (intervals drift_back ! 0)
   \<and> it_u (intervals drift_rejected ! 0) = it_u (intervals drift_back ! 0)
   \<and> it_x (intervals drift_rejected ! 1) = it_x (intervals drift_back ! 1)
   \<and> it_u (intervals drift_rejected ! 1) = it_u (intervals drift_back ! 1)
   \<and> it_u_new (intervals drift_rejected ! 0) = [[1]]"
proof -
  have h1: "length (intervals drift_back) = ddp_N drift_back + 1"
    by (simp add: drift_eval)
  have N: "ddp_N drift_back = 2" by (simp add: drift_eval)
  have z1: "1 = (ddp_V_new drift_accepted - ddp_V drift_back) / ddp_dV_exp drift_back"
    by (simp add: drift_eval)
  have z2: "0 = (ddp_V_new drift_rejected - ddp_V drift_back) / ddp_dV_exp drift_back"
    by (simp add: drift_eval)
  note T1 = forwardPass_commit[OF h1 refl drift_forwardPass_accept[symmetric] z1, unfolded N]
  note T2 = forwardPass_commit[OF h1 refl drift_forwardPass_reject[symmetric] z2, unfolded N]
  have b: "ddp_dV_exp drift_back \<noteq> 0" "change_lb drift_back < 1" "1 < change_ub drift_back"
    "0 \<le> change_lb drift_back"
    "it_u (intervals drift_back ! 0) = [[0]]" "it_u (intervals drift_accepted ! 0) = [[1]]"
    "it_u_new (intervals drift_accepted ! 0) = [[1]]"
    "it_u_new (intervals drift_rejected ! 0) = [[1]]"
    by (simp_all add: drift_eval)
  have t: "it_x_new (intervals (fp_rollout (drift_P 0) drift_back 1) ! 0) = [[0]]"
    "it_u_new (intervals (fp_rollout (drift_P 0) drift_back 1) ! 0) = [[1]]"
    "it_x_new (intervals (fp_rollout (drift_P 0) drift_back 1) ! 1) = [[1]]"
    unfolding drift_rollout_eval by (simp_all add: drift_eval)
  have a0: "it_x (intervals drift_accepted ! 0) = it_x_new (intervals (fp_rollout (drift_P 0) drift_back 1) ! 0)
     \<and> it_u (intervals drift_accepted ! 0) = it_u_new (intervals (fp_rollout (drift_P 0) drift_back 1) ! 0)"
    using T1 b by simp
  have r0: "drift_rejected = fp_rollout (drift_P (1 / 2)) drift_back 1"
    using T2 b by simp
  have r: "it_x (intervals drift_rejected ! k) = it_x (intervals drift_back ! k)
     \<and> it_u (intervals drift_rejected ! k) = it_u (intervals drift_back ! k)" if "k < 2" for k
    using T2 b that by simp
  show ?thesis
    using h1 N drift_forwardPass_accept drift_forwardPass_reject z1 z2 b t a0 r0[symmetric]
      r[of 0] r[of 1]
    by simp
qed

text \<open>
  The claim as stated accepts on \<open>change_lb \<le> z \<le> change_ub\<close> and commits every running
  knot. On the drifting system, after \<^verbatim>\<open>init\<close> and \<^verbatim>\<open>backwardPass(1)\<close>: with \<open>a = 0\<close> the
  ratio is \<open>1\<close>, yet the control of the last running knot is not committed; with
  \<open>a = 1/2\<close> the ratio is \<open>0 = change_lb\<close>, inside the stated bounds, yet nothing is
  committed.
\<close>

theorem forwardPass_commit_counterexample:
  "drift_solver 0 0 = Inr drift_start
   \<and> backwardPass linalg_1x1 (drift_P 0) drift_start 1 = Inr drift_back
   \<and> backwardPass linalg_1x1 (drift_P (1 / 2)) drift_start 1 = Inr drift_back
   \<and> \<not> (let s' = forwardPass (drift_P 0) drift_back 1;
              z = (ddp_V_new s' - ddp_V drift_back) / ddp_dV_exp drift_back
          in change_lb drift_back \<le> z \<and> z \<le> change_ub drift_back \<longrightarrow>
             (\<forall>k<ddp_N drift_back.
                it_x (intervals s' ! k) = it_x_new (intervals s' ! k)
              \<and> it_u (intervals s' ! k) = it_u_new (intervals s' ! k)))
   \<and> \<not> (let s' = forwardPass (drift_P (1 / 2)) drift_back 1;
              z = (ddp_V_new s' - ddp_V drift_back) / ddp_dV_exp drift_back
          in change_lb drift_back \<le> z \<and> z \<le> change_ub drift_back \<longrightarrow>
             (\<forall>k<ddp_N drift_back.
                it_x (intervals s' ! k) = it_x_new (intervals s' ! k)
              \<and> it_u (intervals s' ! k) = it_u_new (intervals s' ! k)))"
proof -
  have a: "\<not> (\<forall>k<ddp_N drift_back.
                it_x (intervals drift_accepted ! k) = it_x_new (intervals drift_accepted ! k)
              \<and> it_u (intervals drift_accepted ! k) = it_u_new (intervals drift_accepted ! k))"
  proof
    assume A: "\<forall>k<ddp_N drift_back.
                it_x (intervals drift_accepted ! k) = it_x_new (intervals drift_accepted ! k)
              \<and> it_u (intervals drift_accepted ! k) = it_u_new (intervals drift_accepted ! k)"
    have "(1::nat) < ddp_N drift_back" by (simp add: drift_eval)
    then have "it_u (intervals drift_accepted ! 1) = it_u_new (intervals drift_accepted ! 1)"
      using A by blast
    then show False by (simp add: drift_eval)
  qed
  have b: "\<not> (\<forall>k<ddp_N drift_back.
                it_x (intervals drift_rejected ! k) = it_x_new (intervals drift_rejected ! k)
              \<and> it_u (intervals drift_rejected ! k) = it_u_new (intervals drift_rejected ! k))"
  proof
    assume A: "\<forall>k<ddp_N drift_back.
                it_x (intervals drift_rejected ! k) = it_x_new (intervals drift_rejected ! k)
              \<and> it_u (intervals drift_rejected ! k) = it_u_new (intervals drift_rejected ! k)"
    have "(0::nat) < ddp_N drift_back" by (simp add: drift_eval)
    then have "it_u (intervals drift_rejected ! 0) = it_u_new (intervals drift_rejected ! 0)"
      using A by blast
    then show False by (simp add: drift_eval)
  qed
  have z: "change_lb drift_back \<le> (ddp_V_new drift_accepted - ddp_V drift_back) / ddp_dV_exp drift_back"
    "(ddp_V_new drift_accepted - ddp_V drift_back) / ddp_dV_exp drift_back \<le> change_ub drift_back"
    "change_lb drift_back \<le> (ddp_V_new drift_rejected - ddp_V drift_back) / ddp_dV_exp drift_back"
    "(ddp_V_new drift_rejected - ddp_V drift_back) / ddp_dV_exp drift_back \<le> change_ub drift_back"
    by (simp_all add: drift_eval)
  show ?thesis
    using a b z drift_solver_eval[of 0] drift_backwardPass_eval[of 0] drift_backwardPass_eval[of "1 / 2"]
    by (simp add: Let_def drift_forwardPass_accept drift_forwardPass_reject)
qed

text \<open>
  Claim C4. The claim has the terminal cost of the trial evaluated at the propagated
  terminal state \<open>x_new[N]\<close>. The code rebinds the terminal \<^verbatim>\<open>x\<close> to
  \<^verbatim>\<open>self.intervals[self.N-1].x_new\<close>, the trial state at the start of the last
  interval. On the drifting system with \<open>a = 0\<close> and \<open>N = 2\<close>: the running costs of the
  trial sum to \<open>-1\<close>, the trial states are \<open>x_new[1] = 1\<close> and \<open>x_new[2] = 2\<close>, the
  terminal cost of a state is the state, and \<open>V_new\<close> is \<open>-1 + 1\<close>, not \<open>-1 + 2\<close>.
\<close>

theorem forwardPass_terminal_cost_failing_input:
  "drift_solver 0 0 = Inr drift_start
   \<and> backwardPass linalg_1x1 (drift_P 0) drift_start 1 = Inr drift_back
   \<and> forwardPass (drift_P 0) drift_back 1 = drift_accepted
   \<and> ddp_N drift_accepted = 2
   \<and> (\<Sum>k<2. computeRunningCost (drift_P 0) (it_x_new (intervals drift_accepted ! k))
                   (it_u_new (intervals drift_accepted ! k))
                 * (it_tf (intervals drift_accepted ! k) - it_t0 (intervals drift_accepted ! k))) = - 1
   \<and> it_x_new (intervals drift_accepted ! 1) = [[1]]
   \<and> it_x_new (intervals drift_accepted ! 2) = [[2]]
   \<and> integrator_integrate (drift_P 0) (it_x_new (intervals drift_accepted ! 1))
         (it_u_new (intervals drift_accepted ! 1)) 1 = [[2]]
   \<and> computeTerminalCost (drift_P 0) [[1]] = 1
   \<and> computeTerminalCost (drift_P 0) [[2]] = 2
   \<and> ddp_V_new drift_accepted = - 1 + 1
   \<and> ddp_V_new drift_accepted \<noteq> - 1 + 2"
proof -
  have ev: "ddp_N drift_accepted = 2"
    "(\<Sum>k<2. computeRunningCost (drift_P 0) (it_x_new (intervals drift_accepted ! k))
                   (it_u_new (intervals drift_accepted ! k))
                 * (it_tf (intervals drift_accepted ! k) - it_t0 (intervals drift_accepted ! k))) = - 1"
    "it_x_new (intervals drift_accepted ! 1) = [[1]]"
    "it_x_new (intervals drift_accepted ! 2) = [[2]]"
    "integrator_integrate (drift_P 0) (it_x_new (intervals drift_accepted ! 1))
         (it_u_new (intervals drift_accepted ! 1)) 1 = [[2]]"
    "computeTerminalCost (drift_P 0) [[1]] = 1"
    "computeTerminalCost (drift_P 0) [[2]] = 2"
    "ddp_V_new drift_accepted = - 1 + 1"
    "ddp_V_new drift_accepted \<noteq> - 1 + 2"
    by (simp_all add: drift_eval arr_eval numeral_2_eq_2)
  show ?thesis
    using drift_solver_eval[of 0] drift_backwardPass_eval[of 0] drift_forwardPass_accept ev
    by simp
qed


section \<open>Claims about the differential action model\<close>

text \<open>
  Claim C5. For a model built by the constructor, with \<open>q = x[:nq]\<close>, \<open>v = x[-nv:]\<close>, a
  square mass matrix \<open>M\<close> and an armature (if the model has one) of length \<open>nv\<close>: when
  \<open>forceAba\<close> is false, \<^verbatim>\<open>calc\<close> either raises \<^verbatim>\<open>LinAlgError\<close> because
  \<open>M + diag(armature)\<close> has no inverse, or stores \<open>xout = Minv (u - nle)\<close> for a two-sided
  inverse \<open>Minv\<close> of \<open>M + diag(armature)\<close>; when \<open>forceAba\<close> is true it stores
  \<open>xout = aba(q, v, u)\<close>, whatever the armature of the model is. The inversion routine is
  assumed to meet its contract.
\<close>

theorem calc_acceleration:
  assumes "model = (DifferentialActionModel_init pin costs)\<lparr>dam_forceAba := aba\<rparr>"
    and "q = take (pin_nq pin) x" and "v = py_suffix (pin_nv pin) x"
    and "wf_mat (pin_nv pin) (pin_nv pin) (pin_M pin q v)"
    and "case pin_armature pin of None \<Rightarrow> True | Some a \<Rightarrow> length a = pin_nv pin"
    and "inv_contract la"
    and "Meff = mat_add (pin_M pin q v) (armature_matrix pin)"
  shows "(\<not> aba \<longrightarrow>
           (case calc la model data x (Some u) of
              Inl e \<Rightarrow> e = LinAlgError \<and> np_inv la Meff = None
            | Inr d \<Rightarrow> \<exists>Minv. mat_mul Minv Meff = eye (pin_nv pin) \<and> mat_mul Meff Minv = eye (pin_nv pin)
                          \<and> dad_xout d = mat_vec Minv (vec_sub u (pin_nle pin q v))))
       \<and> (aba \<longrightarrow>
           (\<forall>arm. \<exists>d. calc la ((DifferentialActionModel_init (pin\<lparr>pin_armature := arm\<rparr>) costs)\<lparr>dam_forceAba := aba\<rparr>)
                        data x (Some u) = Inr d
                   \<and> dad_xout d = pin_aba pin q v u))"
proof (intro conjI impI)
  assume na: "\<not> aba"
  have wfM: "wf_mat (pin_nv pin) (pin_nv pin) Meff"
  proof -
    have "wf_mat (pin_nv pin) (pin_nv pin) (armature_matrix pin)"
      using assms(5) wf_diag_mat
      by (auto simp: armature_matrix_def wf_mat_def zeros_def list_all_length split: option.splits)
    then show ?thesis using assms(4,7) by (simp add: wf_mat_add)
  qed
  have lenM: "length Meff = pin_nv pin" using wfM by (simp add: wf_mat_def)
  have eff: "(case pin_armature pin of None \<Rightarrow> pin_M pin q v | Some a \<Rightarrow> add_diag (pin_nv pin) (pin_M pin q v) a) = Meff"
    using effective_mass_matrix[OF assms(4,5)] assms(7) by simp
  show "case calc la model data x (Some u) of
              Inl e \<Rightarrow> e = LinAlgError \<and> np_inv la Meff = None
            | Inr d \<Rightarrow> \<exists>Minv. mat_mul Minv Meff = eye (pin_nv pin) \<and> mat_mul Meff Minv = eye (pin_nv pin)
                          \<and> dad_xout d = mat_vec Minv (vec_sub u (pin_nle pin q v))"
  proof (cases "np_inv la Meff")
    case None
    then show ?thesis
      using na eff[unfolded assms(2,3)] assms(1)
      by (simp add: calc_def calc_dynamics_def DifferentialActionModel_init_def Let_def)
  next
    case (Some Minv)
    have "mat_mul Minv Meff = eye (pin_nv pin) \<and> mat_mul Meff Minv = eye (pin_nv pin)"
      using assms(6) Some wfM lenM unfolding inv_contract_def by metis
    then show ?thesis
      using na eff[unfolded assms(2,3)] Some assms(1,2,3)
      by (auto simp: calc_def calc_dynamics_def DifferentialActionModel_init_def Let_def split_beta)
  qed
next
  assume "aba"
  then show "\<forall>arm. \<exists>d. calc la ((DifferentialActionModel_init (pin\<lparr>pin_armature := arm\<rparr>) costs)\<lparr>dam_forceAba := aba\<rparr>)
                        data x (Some u) = Inr d
                   \<and> dad_xout d = pin_aba pin q v u"
    using assms(2,3)
    by (simp add: calc_def calc_dynamics_def DifferentialActionModel_init_def Let_def split_beta)
qed



theorem calc_acceleration_witness:
  "rotor_model False = (DifferentialActionModel_init rotor_pin no_costs)\<lparr>dam_forceAba := False\<rparr>
   \<and> wf_mat (pin_nv rotor_pin) (pin_nv rotor_pin) (pin_M rotor_pin [0] [0])
   \<and> pin_armature rotor_pin = Some [1 / 2] \<and> length [1 / 2 :: real] = pin_nv rotor_pin
   \<and> inv_contract linalg_1x1
   \<and> mat_add (pin_M rotor_pin [0] [0]) (armature_matrix rotor_pin) = [[2]]
   \<and> calc linalg_1x1 (rotor_model False) rotor_data [0, 0] (Some [5])
       = Inr (rotor_data\<lparr>dad_cost := Some 0, dad_xout := [2], dad_M := Some [[2]], dad_Minv := Some [[1 / 2]]\<rparr>)
   \<and> mat_mul [[1 / 2]] [[2]] = eye 1 \<and> mat_mul [[2]] [[1 / 2]] = eye 1
   \<and> mat_vec [[1 / 2]] (vec_sub [5] (pin_nle rotor_pin [0] [0])) = [2]
   \<and> calc linalg_1x1 (rotor_model True) rotor_data [0, 0] (Some [5])
       = Inr (rotor_data\<lparr>dad_cost := Some 0, dad_xout := [8 / 3]\<rparr>)
   \<and> pin_aba rotor_pin [0] [0] [5] = [8 / 3]"
proof -
  have m: "rotor_model aba = (DifferentialActionModel_init rotor_pin no_costs)\<lparr>dam_forceAba := aba\<rparr>" for aba
    by (simp add: rotor_model_def)
  have q: "[0] = take (pin_nq rotor_pin) [0, 0 :: real]" "[0] = py_suffix (pin_nv rotor_pin) [0, 0 :: real]"
    by (simp_all add: rotor_pin_def py_suffix_def)
  have w: "wf_mat (pin_nv rotor_pin) (pin_nv rotor_pin) (pin_M rotor_pin [0] [0])"
    by (simp add: rotor_pin_def wf_mat_def)
  have a: "case pin_armature rotor_pin of None \<Rightarrow> True | Some a \<Rightarrow> length a = pin_nv rotor_pin"
    by (simp add: rotor_pin_def)
  note T1 = calc_acceleration[OF m[of False] q w a inv_1x1_contract refl, where data = rotor_data and u = "[5]"]
  note T2 = calc_acceleration[OF m[of True] q w a inv_1x1_contract refl, where data = rotor_data and u = "[5]"]
  have ev: "pin_armature rotor_pin = Some [1 / 2]" "length [1 / 2 :: real] = pin_nv rotor_pin"
    "mat_add (pin_M rotor_pin [0] [0]) (armature_matrix rotor_pin) = [[2]]"
    "mat_mul [[1 / 2]] [[2]] = eye 1" "mat_mul [[2]] [[1 / 2]] = eye 1"
    "mat_vec [[1 / 2]] (vec_sub [5] (pin_nle rotor_pin [0] [0])) = [2]"
    "pin_aba rotor_pin [0] [0] [5] = [8 / 3]"
    by (simp_all add: rotor_pin_def armature_matrix_def diag_mat_def mat_vec_def vec_sub_def arr_eval)
  show ?thesis
    using T1 T2 m[of False] w inv_1x1_contract ev rotor_calc_eval rotor_calc_aba_eval by simp
qed

text \<open>
  Claim C10. For a model built by the constructor (with either setting of \<open>forceAba\<close>),
  \<^verbatim>\<open>calc\<close> and \<^verbatim>\<open>calcDiff\<close> with the control omitted return what they return on the
  zero control of length \<open>nu\<close>: the same result, be it an error or the data block with
  its acceleration, cost and derivatives.
\<close>

theorem omitted_control_is_zero_control:
  "calc la ((DifferentialActionModel_init pin costs)\<lparr>dam_forceAba := aba\<rparr>) data x None
     = calc la ((DifferentialActionModel_init pin costs)\<lparr>dam_forceAba := aba\<rparr>) data x
         (Some (replicate (dam_nu ((DifferentialActionModel_init pin costs)\<lparr>dam_forceAba := aba\<rparr>)) 0))
   \<and> calcDiff la ((DifferentialActionModel_init pin costs)\<lparr>dam_forceAba := aba\<rparr>) data x None recalc
     = calcDiff la ((DifferentialActionModel_init pin costs)\<lparr>dam_forceAba := aba\<rparr>) data x
         (Some (replicate (dam_nu ((DifferentialActionModel_init pin costs)\<lparr>dam_forceAba := aba\<rparr>)) 0)) recalc"
  by (simp add: calc_def calcDiff_def DifferentialActionModel_init_def)

section \<open>The cost of the trial trajectory\<close>

text \<open>
  What the forward pass computes as \<open>V_new\<close> when there is at least one running knot: the
  running costs at the trial states and controls \<open>(x_new[k], u_new[k])\<close>, each scaled by
  the duration of its interval, plus the terminal cost at \<open>x_new[N - 1]\<close>, the trial state
  at the start of the last interval.
\<close>

theorem forwardPass_V_new:
  assumes "length (intervals s) = ddp_N s + 1" and "0 < ddp_N s"
    and "s' = forwardPass P s alpha"
  shows "ddp_V_new s' =
           (\<Sum>k<ddp_N s. computeRunningCost P (it_x_new (intervals s' ! k)) (it_u_new (intervals s' ! k))
                            * (it_tf (intervals s' ! k) - it_t0 (intervals s' ! k)))
           + computeTerminalCost P (it_x_new (intervals s' ! (ddp_N s - 1)))"
proof -
  let ?s0 = "s\<lparr>intervals := (intervals s)[0 := (intervals s ! 0)\<lparr>it_x_new := it_x (intervals s ! 0)\<rparr>],
               ddp_V_new := 0\<rparr>"
  let ?t = "fold (fp_knot P alpha) [0..<ddp_N s] ?s0"
  let ?r = "fp_rollout P s alpha"
  have n: "ddp_N s < length (intervals ?s0)" using assms(1) by simp
  note F = fold_fp_knot_V_new[OF n, where P = P and alpha = alpha]
  have Nt: "ddp_N ?t = ddp_N s"
    using same_nominal_fold_fp_knot[of ?s0 P alpha "ddp_N s"] by (simp add: same_nominal_def)
  have lt: "length (intervals ?t) = ddp_N s + 1" using F assms(1) by simp
  have idx: "py_index (intervals ?t) (int (ddp_N s) - 1) = intervals ?t ! (ddp_N s - 1)"
    using assms(2) by (simp add: py_index_def nat_diff_distrib')
  have r_low: "intervals ?r ! k = intervals ?t ! k" if "k < ddp_N s" for k
    using that by (simp add: fp_rollout_def Let_def Nt)
  have r_V: "ddp_V_new ?r = ddp_V_new ?t + computeTerminalCost P (it_x_new (intervals ?t ! (ddp_N s - 1)))"
    using idx by (simp add: fp_rollout_def Let_def Nt)
  have "(\<Sum>k<ddp_N s. trial_cost P (intervals ?t ! k)) = (\<Sum>k<ddp_N s. trial_cost P (intervals ?r ! k))"
    by (rule sum.cong) (simp_all add: r_low)
  then have R: "ddp_V_new ?r = (\<Sum>k<ddp_N s. trial_cost P (intervals ?r ! k))
                 + computeTerminalCost P (it_x_new (intervals ?r ! (ddp_N s - 1)))"
    using r_V F r_low[of "ddp_N s - 1"] assms(2) by simp
  have "ddp_V_new s' = ddp_V_new ?r
      \<and> (\<forall>k. it_x_new (intervals s' ! k) = it_x_new (intervals ?r ! k)
         \<and> it_u_new (intervals s' ! k) = it_u_new (intervals ?r ! k)
         \<and> it_tf (intervals s' ! k) = it_tf (intervals ?r ! k)
         \<and> it_t0 (intervals s' ! k) = it_t0 (intervals ?r ! k))"
    using assms(3) fold_commit_knot_frame[of "ddp_N ?r - 1" ?r]
    by (simp add: forwardPass_def Let_def)
  then show ?thesis using R by (simp add: trial_cost_def)
qed

theorem forwardPass_V_new_witness:
  "length (intervals drift_back) = ddp_N drift_back + 1 \<and> 0 < ddp_N drift_back
   \<and> drift_accepted = forwardPass (drift_P 0) drift_back 1
   \<and> ddp_N drift_back - 1 = 1
   \<and> ddp_V_new drift_accepted =
       (\<Sum>k<ddp_N drift_back.
           computeRunningCost (drift_P 0) (it_x_new (intervals drift_accepted ! k))
             (it_u_new (intervals drift_accepted ! k))
           * (it_tf (intervals drift_accepted ! k) - it_t0 (intervals drift_accepted ! k)))
       + computeTerminalCost (drift_P 0) (it_x_new (intervals drift_accepted ! (ddp_N drift_back - 1)))
   \<and> ddp_V_new drift_accepted = 0"
proof -
  have h1: "length (intervals drift_back) = ddp_N drift_back + 1" by (simp add: drift_eval)
  have h2: "0 < ddp_N drift_back" by (simp add: drift_eval)
  have ev: "ddp_N drift_back - 1 = 1" "ddp_V_new drift_accepted = 0" by (simp_all add: drift_eval)
  show ?thesis
    using forwardPass_V_new[OF h1 h2 drift_forwardPass_accept[symmetric]] h1 h2 ev
      drift_forwardPass_accept by simp
qed

section \<open>Claims about the acceptance test\<close>

text \<open>
  Claim C6, amended. The forward pass has no finiteness check: lines 226 to 237 compute
  \<open>z = (V_new - V) / dV_exp\<close> and test \<open>change_lb < z < change_ub\<close>, nothing else. A
  trial whose \<open>V_new\<close> is infinite or not a number is never committed, because \<open>z\<close> is
  then infinite or not a number and one of the two strict comparisons is false. The
  terms \<open>Qu\<close> and \<open>Quu_r\<close> are neither read nor written: whenever \<open>z\<close> passes the test
  the trial is committed at the knots \<open>0, ..., N - 2\<close>, whatever these two hold.
\<close>

theorem forwardPass_finiteness:
  assumes "length (intervals64 s) = ddp64_N s + 1"
    and "s' = check_changes64 s"
    and "z = f64_div (f64_sub (ddp64_V_new s) (ddp64_V s)) (ddp64_dV_exp s)"
  shows "(\<not> f64_finite (ddp64_V_new s) \<longrightarrow> s' = s)
       \<and> (f64_lt (change_lb64 s) z \<and> f64_lt z (change_ub64 s) \<longrightarrow>
            (\<forall>k. k + 1 < ddp64_N s \<longrightarrow>
               it64_x (intervals64 s' ! k) = it64_x_new (intervals64 s ! k)
             \<and> it64_u (intervals64 s' ! k) = it64_u_new (intervals64 s ! k)))
       \<and> (\<not> (f64_lt (change_lb64 s) z \<and> f64_lt z (change_ub64 s)) \<longrightarrow> s' = s)
       \<and> (\<forall>k. it64_Qu (intervals64 s' ! k) = it64_Qu (intervals64 s ! k)
              \<and> it64_Quu_r (intervals64 s' ! k) = it64_Quu_r (intervals64 s ! k))"
proof -
  have n: "ddp64_N s - 1 \<le> length (intervals64 s)" using assms(1) by simp
  note C = fold_commit_knot64[OF n]
  have acc: "accepted64 s \<longleftrightarrow> f64_lt (change_lb64 s) z \<and> f64_lt z (change_ub64 s)"
    using assms(3) by (simp add: accepted64_def z_ratio64_def)
  show ?thesis
  proof (cases "accepted64 s")
    case True
    then have s': "s' = fold commit_knot64 [0..<ddp64_N s - 1] s"
      using assms(2) by (simp add: check_changes64_def)
    have fin: "f64_finite (ddp64_V_new s)"
      using True nonfinite_V_new_rejected by blast
    have com: "it64_x (intervals64 s' ! k) = it64_x_new (intervals64 s ! k)
             \<and> it64_u (intervals64 s' ! k) = it64_u_new (intervals64 s ! k)" if "k + 1 < ddp64_N s" for k
      using C that unfolding s' by simp
    have Q: "it64_Qu (intervals64 s' ! k) = it64_Qu (intervals64 s ! k)
              \<and> it64_Quu_r (intervals64 s' ! k) = it64_Quu_r (intervals64 s ! k)" for k
      using C unfolding s' by simp
    show ?thesis using True acc fin com Q by simp
  next
    case False
    then have "s' = s" using assms(2) by (simp add: check_changes64_def)
    then show ?thesis using False acc by auto
  qed
qed

theorem forwardPass_finiteness_witness:
  "length (intervals64 (trial64 (Fin 0))) = ddp64_N (trial64 (Fin 0)) + 1
   \<and> ddp64_N (trial64 (Fin 0)) = 2
   \<and> f64_div (f64_sub (ddp64_V_new (trial64 (Fin 0))) (ddp64_V (trial64 (Fin 0))))
        (ddp64_dV_exp (trial64 (Fin 0))) = Fin 1
   \<and> f64_lt (change_lb64 (trial64 (Fin 0))) (Fin 1) \<and> f64_lt (Fin 1) (change_ub64 (trial64 (Fin 0)))
   \<and> it64_x (intervals64 (check_changes64 (trial64 (Fin 0))) ! 0) = it64_x_new (intervals64 (trial64 (Fin 0)) ! 0)
   \<and> it64_u (intervals64 (check_changes64 (trial64 (Fin 0))) ! 0) = it64_u_new (intervals64 (trial64 (Fin 0)) ! 0)
   \<and> it64_Quu_r (intervals64 (check_changes64 (trial64 (Fin 0))) ! 0) = [[PInf]]
   \<and> \<not> f64_finite (ddp64_V_new (trial64 PInf))
   \<and> check_changes64 (trial64 PInf) = trial64 PInf
   \<and> f64_div (f64_sub (ddp64_V_new (trial64 (Fin 1))) (ddp64_V (trial64 (Fin 1))))
        (ddp64_dV_exp (trial64 (Fin 1))) = Fin 0
   \<and> \<not> f64_lt (change_lb64 (trial64 (Fin 1))) (Fin 0)
   \<and> check_changes64 (trial64 (Fin 1)) = trial64 (Fin 1)"
proof -
  have h: "length (intervals64 (trial64 v)) = ddp64_N (trial64 v) + 1" for v
    by (simp add: trial64_def)
  have N: "ddp64_N (trial64 v) = 2" for v by (simp add: trial64_def)
  have z0: "Fin 1 = f64_div (f64_sub (ddp64_V_new (trial64 (Fin 0))) (ddp64_V (trial64 (Fin 0))))
        (ddp64_dV_exp (trial64 (Fin 0)))"
    by (simp add: trial64_def f64_sub_def round64_values)
  have z1: "Fin 0 = f64_div (f64_sub (ddp64_V_new (trial64 (Fin 1))) (ddp64_V (trial64 (Fin 1))))
        (ddp64_dV_exp (trial64 (Fin 1)))"
    by (simp add: trial64_def f64_sub_def round64_values)
  note T0 = forwardPass_finiteness[OF h refl z0, unfolded N]
  note T1 = forwardPass_finiteness[OF h refl z1, unfolded N]
  note T2 = forwardPass_finiteness[OF h refl refl, of PInf, unfolded N]
  have b: "f64_lt (change_lb64 (trial64 (Fin 0))) (Fin 1)" "f64_lt (Fin 1) (change_ub64 (trial64 (Fin 0)))"
    "\<not> f64_lt (change_lb64 (trial64 (Fin 1))) (Fin 0)"
    "\<not> f64_finite (ddp64_V_new (trial64 PInf))"
    "it64_Quu_r (intervals64 (trial64 (Fin 0)) ! 0) = [[PInf]]"
    by (simp_all add: trial64_def)
  have a: "it64_x (intervals64 (check_changes64 (trial64 (Fin 0))) ! 0) = it64_x_new (intervals64 (trial64 (Fin 0)) ! 0)
     \<and> it64_u (intervals64 (check_changes64 (trial64 (Fin 0))) ! 0) = it64_u_new (intervals64 (trial64 (Fin 0)) ! 0)"
    using T0 b by simp
  have q: "it64_Quu_r (intervals64 (check_changes64 (trial64 (Fin 0))) ! 0) = [[PInf]]"
    using T0 b by simp
  have r1: "check_changes64 (trial64 (Fin 1)) = trial64 (Fin 1)"
    using T1 b by simp
  have r2: "check_changes64 (trial64 PInf) = trial64 PInf"
    using T2 b by simp
  show ?thesis
    using h N z0[symmetric] z1[symmetric] b a q r1 r2 by simp
qed

text \<open>
  The claim as stated has a finiteness check of \<open>V_new\<close>, \<open>Qu\<close> and \<open>Quu_r\<close> before the
  trial is accepted. Take the drifting system (\<open>a = 0\<close>) after \<^verbatim>\<open>init\<close> and
  \<^verbatim>\<open>backwardPass(1)\<close>, and let the record of knot \<open>0\<close> hold an infinite \<open>Quu_r\<close> and a
  \<open>Qu\<close> that is not a number when the forward pass reaches line 226 (the roll-out reads
  neither). The ratio is \<open>(0 - 1) / (-1) = 1\<close>, the trial is accepted and the control
  of knot \<open>0\<close> is replaced by the trial control.
\<close>

theorem forwardPass_finiteness_counterexample:
  "(to64 (fp_rollout (drift_P 0) drift_back 1))
      \<lparr>intervals64 := (intervals64 (to64 (fp_rollout (drift_P 0) drift_back 1)))
         [0 := (intervals64 (to64 (fp_rollout (drift_P 0) drift_back 1)) ! 0)
                 \<lparr>it64_Qu := [[NaN]], it64_Quu_r := [[PInf]]\<rparr>]\<rparr> = trial64 (Fin 0)
   \<and> nonfinite_entry (it64_Quu_r (intervals64 (trial64 (Fin 0)) ! 0))
   \<and> nonfinite_entry (it64_Qu (intervals64 (trial64 (Fin 0)) ! 0))
   \<and> z_ratio64 (trial64 (Fin 0)) = Fin 1
   \<and> accepted64 (trial64 (Fin 0))
   \<and> it64_u (intervals64 (trial64 (Fin 0)) ! 0) = [[Fin 0]]
   \<and> it64_u_new (intervals64 (trial64 (Fin 0)) ! 0) = [[Fin 1]]
   \<and> it64_u (intervals64 (check_changes64 (trial64 (Fin 0))) ! 0) = [[Fin 1]]
   \<and> it64_Quu_r (intervals64 (check_changes64 (trial64 (Fin 0))) ! 0) = [[PInf]]
   \<and> it64_Qu (intervals64 (check_changes64 (trial64 (Fin 0))) ! 0) = [[NaN]]"
proof -
  have a: "(to64 (fp_rollout (drift_P 0) drift_back 1))
      \<lparr>intervals64 := (intervals64 (to64 (fp_rollout (drift_P 0) drift_back 1)))
         [0 := (intervals64 (to64 (fp_rollout (drift_P 0) drift_back 1)) ! 0)
                 \<lparr>it64_Qu := [[NaN]], it64_Quu_r := [[PInf]]\<rparr>]\<rparr> = trial64 (Fin 0)"
    unfolding drift_rollout_eval by (simp add: to64_def trial64_def drift_eval zeros_def)
  have b: "nonfinite_entry (it64_Quu_r (intervals64 (trial64 (Fin 0)) ! 0))"
    "nonfinite_entry (it64_Qu (intervals64 (trial64 (Fin 0)) ! 0))"
    "z_ratio64 (trial64 (Fin 0)) = Fin 1"
    "accepted64 (trial64 (Fin 0))"
    "it64_u (intervals64 (trial64 (Fin 0)) ! 0) = [[Fin 0]]"
    "it64_u_new (intervals64 (trial64 (Fin 0)) ! 0) = [[Fin 1]]"
    "it64_u (intervals64 (check_changes64 (trial64 (Fin 0))) ! 0) = [[Fin 1]]"
    "it64_Quu_r (intervals64 (check_changes64 (trial64 (Fin 0))) ! 0) = [[PInf]]"
    "it64_Qu (intervals64 (check_changes64 (trial64 (Fin 0))) ! 0) = [[NaN]]"
    by (simp_all add: trial64_def nonfinite_entry_def z_ratio64_def accepted64_def
        check_changes64_def commit_knot64_def f64_sub_def round64_values Let_def)
  show ?thesis using a b by simp
qed

end
